theory Spec2Isabelle
  imports Complex_Main "HOL-Library.AList"
begin

section \<open>JavaScript values, console output and files\<close>

text \<open>
  The scripts exchange data with the outside world as JSON documents. A value read by
  \<^verbatim>\<open>JSON.parse\<close> is a \<open>jsval\<close> without \<open>JUndef\<close>; \<open>JUndef\<close> is what a property
  read gives for a key an object does not have. Objects are association lists in
  insertion order; only lookups by key are ever made on them.
\<close>

datatype jsval =
    JUndef
  | JNull
  | JBool bool
  | JNum real
  | JStr string
  | JArr "jsval list"
  | JObj "(string \<times> jsval) list"

datatype 'a outcome = Throws | Returns 'a

text \<open>The truth value JavaScript gives a value in \<^verbatim>\<open>if (v)\<close>, \<^verbatim>\<open>a && b\<close>, \<^verbatim>\<open>a || b\<close>.\<close>

fun truthy :: "jsval \<Rightarrow> bool" where
  "truthy JUndef = False"
| "truthy JNull = False"
| "truthy (JBool b) = b"
| "truthy (JNum r) = (r \<noteq> 0)"
| "truthy (JStr s) = (s \<noteq> [])"
| "truthy (JArr xs) = True"
| "truthy (JObj kvs) = True"

text \<open>
  A property read \<^verbatim>\<open>v.key\<close>. Reading a property of \<^verbatim>\<open>null\<close> or \<^verbatim>\<open>undefined\<close> throws
  a TypeError. The keys the scripts read (\<^verbatim>\<open>metadata\<close>, \<^verbatim>\<open>baseUrl\<close>, \<^verbatim>\<open>workTypes\<close>, ...)
  are none of the built-in properties of strings, numbers, booleans, arrays or plain
  objects, so on those a key that is not an own key reads as \<^verbatim>\<open>undefined\<close>;
  \<^verbatim>\<open>.length\<close> is modelled apart, by \<open>js_length\<close>.
\<close>

fun js_get :: "jsval \<Rightarrow> string \<Rightarrow> jsval outcome" where
  "js_get JUndef k = Throws"
| "js_get JNull k = Throws"
| "js_get (JObj kvs) k = Returns (case map_of kvs k of None \<Rightarrow> JUndef | Some v \<Rightarrow> v)"
| "js_get v k = Returns JUndef"

text \<open>
  Destructuring \<^verbatim>\<open>const { key } = v\<close> and \<^verbatim>\<open>v.key\<close> on a value already known to be
  truthy: no TypeError is possible.
\<close>

definition js_field :: "jsval \<Rightarrow> string \<Rightarrow> jsval" where
  "js_field v k = (case js_get v k of Throws \<Rightarrow> JUndef | Returns x \<Rightarrow> x)"

text \<open>
  Whether a value can stand in a template literal \<^verbatim>\<open>`${v}`\<close>. A plain object that has
  an own key \<^verbatim>\<open>toString\<close> (never callable in a JSON document) cannot be converted to a
  primitive, and the conversion throws a TypeError; an array is joined, converting each
  element other than \<^verbatim>\<open>null\<close> and \<^verbatim>\<open>undefined\<close>.
\<close>

fun stringable :: "jsval \<Rightarrow> bool" where
  "stringable (JObj kvs) = (map_of kvs ''toString'' = None)"
| "stringable (JArr xs) = list_all stringable xs"
| "stringable v = True"

text \<open>\<^verbatim>\<open>a || b\<close> on values.\<close>

definition js_or :: "jsval \<Rightarrow> jsval \<Rightarrow> jsval" where
  "js_or a b = (if truthy a then a else b)"

text \<open>
  Console output. A message is kept as its pieces: literal text, an interpolated number
  or value, an emoji (by name, the file being ASCII), an array joined with a separator
  (\<^verbatim>\<open>xs.join(sep)\<close>, and \<^verbatim>\<open>xs.join(sep) || alt\<close>), and the message of a caught
  exception.
\<close>

datatype chan = ConsoleLog | ConsoleWarn | ConsoleError

datatype part =
    Emoji string
  | T string
  | N nat
  | V jsval
  | Joined "jsval list" string
  | JoinedOr "jsval list" string string
  | ErrMessage

datatype line = Print chan "part list"

text \<open>
  A line counts as a warning when it goes through \<^verbatim>\<open>console.warn\<close> or starts with the
  warning sign the scripts put in front of their warnings.
\<close>

fun is_warning :: "line \<Rightarrow> bool" where
  "is_warning (Print ConsoleWarn ps) = True"
| "is_warning (Print c (Emoji e # ps)) = (e = ''warning'')"
| "is_warning (Print c ps) = False"

text \<open>
  A file as the scripts see it: absent (\<^verbatim>\<open>fs.existsSync\<close> is false), present but
  \<^verbatim>\<open>fs.readFileSync\<close> throws, present with text \<^verbatim>\<open>JSON.parse\<close> rejects, or present with
  the text of a JSON document. \<^verbatim>\<open>JSON.stringify\<close> of a value built from JSON data writes
  the text of that document.
\<close>

datatype disk_file = Missing | Unreadable | Malformed | Doc jsval

text \<open>
  \<^verbatim>\<open>fs.mkdirSync\<close> followed by \<^verbatim>\<open>fs.writeFileSync\<close>: the write happens, or is refused with
  the file untouched, or fails after the file was truncated.
\<close>

datatype write_result = Written | Refused | Torn

fun write_file :: "write_result \<Rightarrow> jsval \<Rightarrow> disk_file \<Rightarrow> disk_file" where
  "write_file Written v f = Doc v"
| "write_file Refused v f = f"
| "write_file Torn v f = Malformed"

section \<open>Configuration (config/jira-config.js)\<close>

text \<open>
  The settings the session store and the login flow read. Each comes from the environment
  or a default, \<^verbatim>\<open>process.env.X || '...'\<close>, so each is a string.
\<close>

record config =
  baseUrl :: string
  dashboardUrl :: string
  email :: string

text \<open>The configuration when no environment variable is set.\<close>

definition default_config :: config where
  "default_config =
     \<lparr>baseUrl = ''https://redventures.atlassian.net'',
      dashboardUrl = ''https://redventures.atlassian.net/jira/software/c/projects/FRONT/boards/3839?assignee=712020%3A417e205f-b507-4575-8bf4-ddaf69b31de0'',
      email = ''olwin@redventures.com''\<rparr>"

section \<open>Session-state store (src/jira-login.js)\<close>

definition warn_could_not_load :: line where
  "warn_could_not_load =
     Print ConsoleWarn [Emoji ''warning'', T '' Could not load saved browser state:'', ErrMessage]"

definition log_different_instance :: line where
  "log_different_instance =
     Print ConsoleLog [Emoji ''warning'',
       T '' Saved state is for different Jira instance or user, ignoring'']"

definition log_loaded :: line where
  "log_loaded = Print ConsoleLog [Emoji ''open file folder'', T '' Loaded saved browser state'']"

definition log_legacy :: line where
  "log_legacy =
     Print ConsoleLog [Emoji ''open file folder'', T '' Loaded saved browser state (legacy format)'']"

text \<open>
  \<^verbatim>\<open>loadBrowserState()\<close>: the value returned (\<open>JNull\<close> for \<^verbatim>\<open>null\<close>) and the console
  lines printed. Every exception inside is caught, printed with \<^verbatim>\<open>console.warn\<close>, and
  turned into \<^verbatim>\<open>null\<close>.
\<close>

definition loadBrowserState :: "config \<Rightarrow> disk_file \<Rightarrow> jsval \<times> line list" where
  "loadBrowserState cfg f =
     (case f of
        Missing \<Rightarrow> (JNull, [])
      | Unreadable \<Rightarrow> (JNull, [warn_could_not_load])
      | Malformed \<Rightarrow> (JNull, [warn_could_not_load])
      | Doc state \<Rightarrow>
          (case js_get state ''metadata'' of
             Throws \<Rightarrow> (JNull, [warn_could_not_load])
           | Returns md \<Rightarrow>
               if truthy md then
                 (let savedAt = js_field md ''savedAt'';
                      storedBaseUrl = js_field md ''baseUrl'';
                      storedUserEmail = js_field md ''userEmail'';
                      shownUrl = js_or (js_field md ''dashboardUrl'') (JStr ''Not available'')
                  in if storedBaseUrl = JStr (baseUrl cfg) \<and> storedUserEmail = JStr (email cfg)
                     then
                       if \<not> stringable savedAt then (JNull, [log_loaded, warn_could_not_load])
                       else if \<not> stringable shownUrl then
                         (JNull,
                          [log_loaded,
                           Print ConsoleLog [Emoji ''calendar'', T '' State saved at: '', V savedAt],
                           warn_could_not_load])
                       else
                         (state,
                          [log_loaded,
                           Print ConsoleLog [Emoji ''calendar'', T '' State saved at: '', V savedAt],
                           Print ConsoleLog [Emoji ''round pushpin'', T '' Dashboard URL: '', V shownUrl]])
                     else (JNull, [log_different_instance]))
               else (state, [log_legacy])))"

text \<open>
  What \<^verbatim>\<open>saveBrowserState(browser, page)\<close> meets outside the script:
  \<open>first_context\<close> is \<^verbatim>\<open>browser.contexts()[0]\<close>, \<open>None\<close> when the browser has no context,
  else what \<^verbatim>\<open>context.storageState()\<close> does (throw, or return an object with these
  properties); \<open>page_url\<close> is \<open>None\<close> for \<^verbatim>\<open>page = null\<close>, else \<^verbatim>\<open>page.url()\<close>;
  \<open>now_iso\<close> is \<^verbatim>\<open>new Date().toISOString()\<close>.
\<close>

record save_env =
  first_context :: "(string \<times> jsval) list outcome option"
  page_url :: "string option"
  now_iso :: string
  state_write :: write_result

text \<open>\<^verbatim>\<open>{ ...state, metadata: { savedAt, dashboardUrl, baseUrl, userEmail } }\<close>\<close>

definition enhancedState :: "config \<Rightarrow> save_env \<Rightarrow> (string \<times> jsval) list \<Rightarrow> jsval" where
  "enhancedState cfg env state =
     JObj (AList.update ''metadata''
       (JObj [(''savedAt'', JStr (now_iso env)),
              (''dashboardUrl'', (case page_url env of None \<Rightarrow> JNull | Some u \<Rightarrow> JStr u)),
              (''baseUrl'', JStr (baseUrl cfg)),
              (''userEmail'', JStr (email cfg))])
       state)"

definition warn_could_not_save :: line where
  "warn_could_not_save =
     Print ConsoleWarn [Emoji ''warning'', T '' Could not save browser state:'', ErrMessage]"

definition saveBrowserState :: "config \<Rightarrow> save_env \<Rightarrow> disk_file \<Rightarrow> disk_file \<times> line list" where
  "saveBrowserState cfg env f =
     (case first_context env of
        None \<Rightarrow> (f, [])
      | Some Throws \<Rightarrow> (f, [warn_could_not_save])
      | Some (Returns state) \<Rightarrow>
          (case state_write env of
             Written \<Rightarrow>
               (Doc (enhancedState cfg env state),
                Print ConsoleLog [Emoji ''floppy disk'', T '' Browser state saved for future reuse'']
                # (case page_url env of
                     None \<Rightarrow> []
                   | Some u \<Rightarrow>
                       [Print ConsoleLog [Emoji ''round pushpin'', T '' Dashboard URL saved: '', T u]]))
           | r \<Rightarrow> (write_file r (enhancedState cfg env state) f, [warn_could_not_save])))"

section \<open>Strings\<close>

text \<open>
  A string is the list of its UTF-16 code units, for strings all of whose code units are
  below 256 (the Latin-1 range; a \<open>char\<close> holds no more). The white space that \<^verbatim>\<open>trim\<close>,
  \<^verbatim>\<open>parseInt\<close> and \<^verbatim>\<open>/\s+/\<close> strip is ECMAScript's \<^verbatim>\<open>WhiteSpace\<close> and \<^verbatim>\<open>LineTerminator\<close>; in
  this range these are tab, line feed, vertical tab, form feed, carriage return, space and
  the no-break space U+00A0.
\<close>

definition is_space :: "char \<Rightarrow> bool" where
  "is_space c =
     (c \<in> set [CHR 0x09, CHR 0x0A, CHR 0x0B, CHR 0x0C, CHR 0x0D, CHR '' '', CHR 0xA0])"

definition js_trim :: "string \<Rightarrow> string" where
  "js_trim s = rev (dropWhile is_space (rev (dropWhile is_space s)))"

text \<open>
  \<^verbatim>\<open>parseInt(s)\<close> with no radix: leading white space is skipped, a sign is read, a
  \<^verbatim>\<open>0x\<close> prefix selects base 16, then the longest run of digits is the number; with no
  digit the result is \<^verbatim>\<open>NaN\<close>, here \<open>None\<close>.
\<close>

definition digit_val :: "char \<Rightarrow> nat option" where
  "digit_val c =
     (let n = (of_char c :: nat)
      in if 48 \<le> n \<and> n \<le> 57 then Some (n - 48)
         else if 97 \<le> n \<and> n \<le> 122 then Some (n - 87)
         else if 65 \<le> n \<and> n \<le> 90 then Some (n - 55)
         else None)"

definition is_digit_in :: "nat \<Rightarrow> char \<Rightarrow> bool" where
  "is_digit_in radix c = (case digit_val c of None \<Rightarrow> False | Some d \<Rightarrow> d < radix)"

definition digits_value :: "nat \<Rightarrow> string \<Rightarrow> nat" where
  "digits_value radix ds =
     foldl (\<lambda>acc c. acc * radix + (case digit_val c of None \<Rightarrow> 0 | Some d \<Rightarrow> d)) 0 ds"

definition parseInt :: "string \<Rightarrow> int option" where
  "parseInt s =
     (let s1 = dropWhile is_space s;
          neg = (case s1 of [] \<Rightarrow> False | c # r \<Rightarrow> c = CHR ''-'');
          s2 = (case s1 of [] \<Rightarrow> s1 | c # r \<Rightarrow> if c = CHR ''-'' \<or> c = CHR ''+'' then r else s1);
          hex = (case s2 of a # b # r \<Rightarrow> a = CHR ''0'' \<and> (b = CHR ''x'' \<or> b = CHR ''X'') | _ \<Rightarrow> False);
          radix = (if hex then 16 else 10);
          s3 = (if hex then drop 2 s2 else s2);
          ds = takeWhile (is_digit_in radix) s3
      in if ds = [] then None
         else Some ((if neg then - 1 else 1) * int (digits_value radix ds)))"

text \<open>
  The test every prompt answer goes through:
  \<^verbatim>\<open>const selectedIndex = parseInt(choice) - 1;
  if (selectedIndex >= 0 && selectedIndex < options.length)\<close>.
  With \<^verbatim>\<open>NaN\<close> both comparisons are false.
\<close>

definition chosen_index :: "string \<Rightarrow> nat \<Rightarrow> nat option" where
  "chosen_index answer n =
     (case parseInt answer of
        None \<Rightarrow> None
      | Some k \<Rightarrow> if 0 \<le> k - 1 \<and> k - 1 < int n then Some (nat (k - 1)) else None)"

section \<open>More of JavaScript\<close>

text \<open>
  \<^verbatim>\<open>a === b\<close> between values that come from two different documents (or from the page):
  primitives are compared by value, and two arrays or objects are never the same object.
\<close>

fun strict_eq :: "jsval \<Rightarrow> jsval \<Rightarrow> bool" where
  "strict_eq JUndef JUndef = True"
| "strict_eq JNull JNull = True"
| "strict_eq (JBool a) (JBool b) = (a = b)"
| "strict_eq (JNum a) (JNum b) = (a = b)"
| "strict_eq (JStr a) (JStr b) = (a = b)"
| "strict_eq a b = False"

text \<open>
  The own properties \<^verbatim>\<open>{ ...v }\<close> and \<^verbatim>\<open>Object.keys(v)\<close> see: those of an object, the
  indices of an array or of a string, none for other values.
\<close>

definition digit_char :: "nat \<Rightarrow> char" where
  "digit_char d = ''0123456789'' ! d"

fun dec :: "nat \<Rightarrow> string" where
  "dec n = (if n < 10 then [digit_char n] else dec (n div 10) @ [digit_char (n mod 10)])"

fun js_spread :: "jsval \<Rightarrow> (string \<times> jsval) list" where
  "js_spread (JObj kvs) = kvs"
| "js_spread (JArr xs) = zip (map dec [0..<length xs]) xs"
| "js_spread (JStr s) = zip (map dec [0..<length s]) (map (\<lambda>c. JStr [c]) s)"
| "js_spread v = []"

text \<open>
  \<^verbatim>\<open>{ ...base, ...kvs }\<close>: a key already present keeps its place and takes the new value.
\<close>

definition obj_assign :: "(string \<times> jsval) list \<Rightarrow> (string \<times> jsval) list \<Rightarrow> (string \<times> jsval) list" where
  "obj_assign base kvs = foldl (\<lambda>acc kv. AList.update (fst kv) (snd kv) acc) base kvs"

text \<open>
  \<^verbatim>\<open>v.length\<close> on a truthy value.
\<close>

fun js_length :: "jsval \<Rightarrow> jsval" where
  "js_length (JArr xs) = JNum (real (length xs))"
| "js_length (JStr s) = JNum (real (length s))"
| "js_length v = js_field v ''length''"

section \<open>Ticket creation (src/create-jira-ticket.js): the world and the trace\<close>

text \<open>
  The ten fields of the create dialog, in the order the script fills them.
\<close>

datatype field =
    WorkType | Summary | Components | PartnerDesc | CategoryReason
  | RiskAssessment | StoryPoints | TypeOfRequest | TaskClassification | KeyStakeholder

text \<open>
  What the scripts ask the page and the operator, and what they do to the browser. A
  \<open>probe\<close> is one \<^verbatim>\<open>isVisible().catch(() => false)\<close> in the source; the work type input is
  looked for through the label's \<^verbatim>\<open>for\<close> attribute, through the label's sibling, or by
  the fallback selectors, and is probed up to twice. The listbox probe of the components
  loop carries the number of the iteration.
\<close>

datatype locator = ByLabelFor | ByLabelSibling | ByFallback

datatype probe =
    CreateButtonVisible
  | FormVisible
  | WorkTypeLabelVisible
  | WorkTypeCheck locator
  | WorkTypeFinal locator
  | FieldVisible field
  | ListboxVisible field nat

datatype question = AskTemplate | AskField field | AskCreate

text \<open>
  A \<open>block\<close> is a run of awaited browser calls with no \<^verbatim>\<open>catch\<close> of their own between
  them: the first call that throws ends the block.
\<close>

datatype block = Prelude | ScrapeOf field | FillOf field | SubmitBlock | ScreenshotBlock

datatype target =
    CreateButtonPrimary | CreateButtonFallback | Input field | Selector field
  | Listbox field | SubmitButton | UsernameInput

datatype action =
    Launch
  | NewContext jsval
  | NewPage
  | SetViewport
  | Goto string
  | WaitTimeout nat
  | WaitVisible target
  | WaitForSelector target
  | Click target
  | Fill target "part list"
  | PressEnter
  | Evaluate target
  | TakeScreenshot
  | Sleep nat
  | GotoSaved jsval
  | IsVisible target
  | ClosePage
  | CloseContext
  | CloseBrowser

text \<open>
  The trace of a run: console lines, prompts with their question text, browser calls
  that returned (\<open>Act\<close>) and the browser call that threw (\<open>Threw\<close>). Reads whose
  failure the source swallows (\<^verbatim>\<open>.catch(...)\<close>) leave no event.
\<close>

datatype event = Console line | Prompt question "part list" | Act action | Threw action

definition say :: "part list \<Rightarrow> event" where
  "say ps = Console (Print ConsoleLog ps)"

text \<open>
  \<open>run_items fa items\<close> performs a block: \<open>fa\<close> is the number of the browser call
  (counting from 0) that throws, if any. The result is the trace and whether the block ran
  to its end.
\<close>

datatype item = Do action | Say "part list"

fun run_items :: "nat option \<Rightarrow> item list \<Rightarrow> event list \<times> bool" where
  "run_items fa [] = ([], True)"
| "run_items fa (Say ps # is) = (case run_items fa is of (es, ok) \<Rightarrow> (say ps # es, ok))"
| "run_items None (Do a # is) = (case run_items None is of (es, ok) \<Rightarrow> (Act a # es, ok))"
| "run_items (Some 0) (Do a # is) = ([Threw a], False)"
| "run_items (Some (Suc n)) (Do a # is) =
     (case run_items (Some n) is of (es, ok) \<Rightarrow> (Act a # es, ok))"

text \<open>
  An entry of a dropdown, \<^verbatim>\<open>{ index, text, value }\<close>. A cached entry's text is whatever
  the cache file holds.
\<close>

record opt =
  opt_index :: nat
  opt_text :: jsval
  opt_value :: jsval

text \<open>
  The listbox the second \<^verbatim>\<open>page.evaluate\<close> of \<^verbatim>\<open>getAutocompleteOptions\<close> finds: for each
  \<^verbatim>\<open>[role="option"]\<close> element its \<^verbatim>\<open>textContent\<close> and its \<^verbatim>\<open>data-value\<close> attribute, and
  the listbox's own \<^verbatim>\<open>textContent\<close>.
\<close>

record listbox_dom =
  option_nodes :: "(string option \<times> string option) list"
  listbox_text :: "string option"

text \<open>
  Everything outside the script that one run of \<^verbatim>\<open>createJiraTicket\<close> meets: the answer of
  each probe, the label's \<^verbatim>\<open>for\<close> attribute, the summary input's value, the operator's
  answers, the call of each block that throws, the listbox each dropdown opens (\<open>None\<close>
  when \<^verbatim>\<open>querySelector\<close> finds none), the outcome of \<^verbatim>\<open>v > 0\<close> for a string, array or object
  \<open>v\<close> (JavaScript's numeric conversion, not modelled), the outcome of writing the option
  cache, the page URL after submitting, and \<^verbatim>\<open>process.env.JIRA_DEFAULT_STAKEHOLDER\<close>.
\<close>

record form_env =
  visible :: "probe \<Rightarrow> bool"
  label_for :: "string option"
  current_summary :: string
  answer :: "question \<Rightarrow> string"
  fail_at :: "block \<Rightarrow> nat option"
  listbox :: "field \<Rightarrow> listbox_dom option"
  numeric_gt_zero :: "jsval \<Rightarrow> bool outcome"
  options_write :: write_result
  url_after_submit :: string
  stakeholder_variable :: "string option"

text \<open>
  The state the try block of \<^verbatim>\<open>createJiraTicket\<close> threads through its steps: the trace so
  far, \<^verbatim>\<open>optionsToSave\<close>, and whether an exception is on its way to the outer \<^verbatim>\<open>catch\<close>
  (every later step is then skipped).
\<close>

record fstate =
  events :: "event list"
  toSave :: "(string \<times> jsval) list"
  aborted :: bool

definition emit :: "event list \<Rightarrow> fstate \<Rightarrow> fstate" where
  "emit es s = s\<lparr>events := events s @ es\<rparr>"

definition throw :: "fstate \<Rightarrow> fstate" where
  "throw s = s\<lparr>aborted := True\<rparr>"

text \<open>
  \<^verbatim>\<open>xs.forEach(x => console.log(`...`))\<close>: the lines printed before the first element
  whose interpolation throws, and whether all were printed.
\<close>

fun print_while :: "('a \<Rightarrow> bool) \<Rightarrow> ('a \<Rightarrow> part list) \<Rightarrow> 'a list \<Rightarrow> event list \<times> bool" where
  "print_while ok f [] = ([], True)"
| "print_while ok f (x # xs) =
     (if ok x then (case print_while ok f xs of (es, b) \<Rightarrow> (say (f x) # es, b))
      else ([], False))"

text \<open>
  \<^verbatim>\<open>text.split(/\s+/)\<close>
\<close>

function split_ws :: "string \<Rightarrow> string list" where
  "split_ws s =
     (let w = takeWhile (\<lambda>c. \<not> is_space c) s;
          r = dropWhile (\<lambda>c. \<not> is_space c) s
      in if r = [] then [w] else w # split_ws (dropWhile is_space r))"
  by pat_completeness auto

termination
proof (relation "measure length")
  show "wf (measure length)" by simp
next
  fix s w r
  assume r: "r = dropWhile (\<lambda>c. \<not> is_space c) s" and ne: "r \<noteq> []"
  from ne obtain c cs where rc: "r = c # cs" by (cases r) auto
  with r have "is_space c"
    by (metis dropWhile_eq_Cons_conv)
  with rc have "length (dropWhile is_space r) \<le> length cs"
    by (simp add: length_dropWhile_le)
  moreover from r have "length r \<le> length s" by (simp add: length_dropWhile_le)
  ultimately show "(dropWhile is_space r, s) \<in> measure length" using rc by simp
qed

section \<open>Option cache, templates and scraping\<close>

definition warn :: "part list \<Rightarrow> event" where
  "warn ps = Console (Print ConsoleWarn ps)"

text \<open>
  \<^verbatim>\<open>loadSavedOptions()\<close>, \<^verbatim>\<open>saveOptions(options)\<close> and \<^verbatim>\<open>loadTemplates()\<close>.
\<close>

definition loadSavedOptions :: "disk_file \<Rightarrow> jsval \<times> event list" where
  "loadSavedOptions f =
     (case f of
        Missing \<Rightarrow> (JObj [], [])
      | Doc v \<Rightarrow> (v, [])
      | _ \<Rightarrow> (JObj [], [warn [Emoji ''warning'', T '' Could not load saved options:'', ErrMessage]]))"

definition saveOptions :: "write_result \<Rightarrow> (string \<times> jsval) list \<Rightarrow> disk_file \<Rightarrow> disk_file \<times> event list" where
  "saveOptions w options f =
     (write_file w (JObj options) f,
      if w = Written then [say [Emoji ''floppy disk'', T '' Saved options to config/jira-options.json'']]
      else [warn [Emoji ''warning'', T '' Could not save options:'', ErrMessage]])"

definition loadTemplates :: "disk_file \<Rightarrow> jsval \<times> event list" where
  "loadTemplates f =
     (case f of
        Missing \<Rightarrow> (JObj [], [])
      | Doc v \<Rightarrow>
          (case js_get v ''templates'' of
             Throws \<Rightarrow> (JObj [], [warn [Emoji ''warning'', T '' Could not load templates:'', ErrMessage]])
           | Returns t \<Rightarrow> (js_or t (JObj []), []))
      | _ \<Rightarrow> (JObj [], [warn [Emoji ''warning'', T '' Could not load templates:'', ErrMessage]]))"

text \<open>
  \<^verbatim>\<open>selectTemplate(templates)\<close>. One line is printed per template;
  \<^verbatim>\<open>template.workType\<close> throws on a \<^verbatim>\<open>null\<close> template, and \<^verbatim>\<open>template.components?.join(', ')\<close>
  throws when \<^verbatim>\<open>components\<close> is neither nullish nor an array. The function has no
  \<^verbatim>\<open>catch\<close>: \<open>Throws\<close> reaches the caller.
\<close>

definition template_line_ok :: "nat \<times> string \<times> jsval \<Rightarrow> bool" where
  "template_line_ok e =
     (case e of (i, name, t) \<Rightarrow>
        (case js_get t ''workType'' of
           Throws \<Rightarrow> False
         | Returns wt \<Rightarrow>
             stringable (js_or wt (JStr ''N/A''))
             \<and> (case js_field t ''components'' of
                  JUndef \<Rightarrow> True
                | JNull \<Rightarrow> True
                | JArr xs \<Rightarrow> list_all stringable xs
                | _ \<Rightarrow> False)))"

definition template_line :: "nat \<times> string \<times> jsval \<Rightarrow> part list" where
  "template_line e =
     (case e of (i, name, t) \<Rightarrow>
        [T ''  '', N (i + 1), T ''. '', T name, T '' - '',
         V (js_or (js_field t ''workType'') (JStr ''N/A'')), T '' | '',
         (case js_field t ''components'' of
            JArr xs \<Rightarrow> JoinedOr xs '', '' ''N/A''
          | _ \<Rightarrow> T ''N/A'')])"

definition selectTemplate :: "form_env \<Rightarrow> jsval \<Rightarrow> jsval outcome \<times> event list" where
  "selectTemplate env templates =
     (let entries = js_spread templates; n = length entries
      in if entries = [] then
           (Returns JNull,
            [say [Emoji ''information'', T '' No templates available. Proceeding with manual entry.'']])
         else
           (case print_while template_line_ok template_line (enumerate 0 entries) of
              (ls, False) \<Rightarrow>
                (Throws, say [T ''\<newline>'', Emoji ''clipboard'', T '' Available Templates:''] # ls)
            | (ls, True) \<Rightarrow>
                (let choice = answer env AskTemplate;
                     es = say [T ''\<newline>'', Emoji ''clipboard'', T '' Available Templates:''] # ls
                          @ [Prompt AskTemplate
                               [T ''\<newline>Select template (1-'', N n, T '', or press Enter to skip): '']]
                 in if js_trim choice \<noteq> [] then
                      (case chosen_index choice n of
                         Some i \<Rightarrow>
                           (Returns (JObj (obj_assign [(''name'', JStr (fst (entries ! i)))]
                                             (js_spread (snd (entries ! i))))),
                            es @ [say [Emoji ''check mark'', T '' Selected template: '',
                                       T (fst (entries ! i))]])
                       | None \<Rightarrow> (Returns JNull, es))
                    else (Returns JNull, es))))"

text \<open>
  \<^verbatim>\<open>getAutocompleteOptions(page, fieldSelector)\<close>: the options read from the listbox, or
  from its text split at white space when it has no option elements; \<^verbatim>\<open>[]\<close> with a
  warning when a browser call throws.
\<close>

definition node_option :: "nat \<times> string option \<times> string option \<Rightarrow> opt" where
  "node_option e =
     (case e of (i, tc, dv) \<Rightarrow>
        \<lparr>opt_index = i + 1,
         opt_text = JStr (case tc of None \<Rightarrow> [] | Some t \<Rightarrow> js_trim t),
         opt_value =
           (if (case dv of None \<Rightarrow> False | Some d \<Rightarrow> d \<noteq> [])
            then (case dv of None \<Rightarrow> JUndef | Some d \<Rightarrow> JStr d)
            else (case tc of None \<Rightarrow> JUndef | Some t \<Rightarrow> JStr (js_trim t)))\<rparr>)"

definition word_option :: "nat \<times> string \<Rightarrow> opt" where
  "word_option e =
     (case e of (i, w) \<Rightarrow>
        \<lparr>opt_index = i + 1, opt_text = JStr (js_trim w), opt_value = JStr (js_trim w)\<rparr>)"

definition scraped_options :: "listbox_dom \<Rightarrow> opt list" where
  "scraped_options lb =
     (if option_nodes lb \<noteq> [] then
        filter (\<lambda>ot. truthy (opt_text ot)) (map node_option (enumerate 0 (option_nodes lb)))
      else
        (let text = (case listbox_text lb of None \<Rightarrow> [] | Some t \<Rightarrow> js_trim t)
         in if text \<noteq> [] then
              filter (\<lambda>ot. truthy (opt_text ot))
                (map word_option
                   (enumerate 0 (filter (\<lambda>w. js_trim w \<noteq> [] \<and> 0 < length w) (split_ws text))))
            else []))"

definition getAutocompleteOptions :: "form_env \<Rightarrow> field \<Rightarrow> opt list \<times> event list" where
  "getAutocompleteOptions env f =
     (case run_items (fail_at env (ScrapeOf f))
             [Do (WaitForSelector (Selector f)), Do (Click (Selector f)), Do (WaitTimeout 500),
              Do (WaitTimeout 500), Do (Evaluate (Listbox f))] of
        (es, True) \<Rightarrow> ((case listbox env f of None \<Rightarrow> [] | Some d \<Rightarrow> scraped_options d), es)
      | (es, False) \<Rightarrow>
          ([], es @ [warn [Emoji ''warning'', T '' Could not get autocomplete options:'', ErrMessage]]))"

text \<open>
  \<^verbatim>\<open>savedOptions.key && savedOptions.key.length > 0\<close>, followed on success by
  \<^verbatim>\<open>savedOptions.key.map(...)\<close>, which throws on anything but an array.
\<close>

fun gt_zero :: "(jsval \<Rightarrow> bool outcome) \<Rightarrow> jsval \<Rightarrow> bool outcome" where
  "gt_zero conv (JNum r) = Returns (0 < r)"
| "gt_zero conv (JBool b) = Returns b"
| "gt_zero conv JNull = Returns False"
| "gt_zero conv JUndef = Returns False"
| "gt_zero conv v = conv v"

datatype cache_lookup = CacheThrows | CacheMiss | CacheHit "jsval list" | CacheNotArray

definition cached :: "form_env \<Rightarrow> jsval \<Rightarrow> string \<Rightarrow> cache_lookup" where
  "cached env saved key =
     (case js_get saved key of
        Throws \<Rightarrow> CacheThrows
      | Returns v \<Rightarrow>
          if truthy v then
            (case gt_zero (numeric_gt_zero env) (js_length v) of
               Throws \<Rightarrow> CacheThrows
             | Returns False \<Rightarrow> CacheMiss
             | Returns True \<Rightarrow> (case v of JArr xs \<Rightarrow> CacheHit xs | _ \<Rightarrow> CacheNotArray))
          else CacheMiss)"

definition cached_option :: "nat \<times> jsval \<Rightarrow> opt" where
  "cached_option e = (case e of (i, t) \<Rightarrow> \<lparr>opt_index = i + 1, opt_text = t, opt_value = t\<rparr>)"

text \<open>
  The names under which a field goes in the option cache, in a template and in the
  console messages.
\<close>

fun cache_key :: "field \<Rightarrow> string" where
  "cache_key WorkType = ''workTypes''"
| "cache_key Components = ''components''"
| "cache_key CategoryReason = ''categoryReasons''"
| "cache_key RiskAssessment = ''riskAssessmentLevels''"
| "cache_key TypeOfRequest = ''typeOfRequest''"
| "cache_key TaskClassification = ''taskClassifications''"
| "cache_key f = []"

fun template_key :: "field \<Rightarrow> string" where
  "template_key WorkType = ''workType''"
| "template_key Summary = ''summaryPrefix''"
| "template_key Components = ''components''"
| "template_key PartnerDesc = ''descriptionForPartner''"
| "template_key CategoryReason = ''categoryReason''"
| "template_key RiskAssessment = ''riskAssessmentLevel''"
| "template_key StoryPoints = ''storyPoints''"
| "template_key TypeOfRequest = ''typeOfRequest''"
| "template_key TaskClassification = ''taskClassification''"
| "template_key KeyStakeholder = ''keyStakeholder''"

fun field_noun :: "field \<Rightarrow> string" where
  "field_noun WorkType = ''work type''"
| "field_noun Summary = ''summary''"
| "field_noun Components = ''component''"
| "field_noun PartnerDesc = ''description for partner''"
| "field_noun CategoryReason = ''category reason''"
| "field_noun RiskAssessment = ''risk assessment level''"
| "field_noun StoryPoints = ''story points''"
| "field_noun TypeOfRequest = ''type of request''"
| "field_noun TaskClassification = ''task classification''"
| "field_noun KeyStakeholder = ''key stakeholder''"

fun field_label :: "field \<Rightarrow> string" where
  "field_label WorkType = ''Work type''"
| "field_label Summary = ''Summary''"
| "field_label Components = ''Components''"
| "field_label PartnerDesc = ''Description for partner''"
| "field_label CategoryReason = ''Category reason''"
| "field_label RiskAssessment = ''Risk assessment level''"
| "field_label StoryPoints = ''Story points''"
| "field_label TypeOfRequest = ''Type of request''"
| "field_label TaskClassification = ''Task classification''"
| "field_label KeyStakeholder = ''Key stakeholder''"

fun field_plural :: "field \<Rightarrow> string" where
  "field_plural WorkType = ''Work Types''"
| "field_plural Components = ''Components''"
| "field_plural CategoryReason = ''Category Reasons''"
| "field_plural RiskAssessment = ''Risk Assessment Levels''"
| "field_plural TypeOfRequest = ''Types of Request''"
| "field_plural TaskClassification = ''Task Classifications''"
| "field_plural f = []"

fun heading :: "field \<Rightarrow> part list" where
  "heading WorkType = [T ''\<newline>'', Emoji ''clipboard'', T '' Work Type Selection:'']"
| "heading Summary = [T ''\<newline>'', Emoji ''memo'', T '' Summary:'']"
| "heading Components = [T ''\<newline>'', Emoji ''puzzle piece'', T '' Components:'']"
| "heading PartnerDesc = [T ''\<newline>'', Emoji ''memo'', T '' Description for Partner:'']"
| "heading CategoryReason = [T ''\<newline>'', Emoji ''clipboard'', T '' Category Reason:'']"
| "heading RiskAssessment = [T ''\<newline>'', Emoji ''warning'', T '' Risk Assessment Level:'']"
| "heading StoryPoints = [T ''\<newline>'', Emoji ''bar chart'', T '' Story Points:'']"
| "heading TypeOfRequest = [T ''\<newline>'', Emoji ''clipboard'', T '' Type of Request:'']"
| "heading TaskClassification = [T ''\<newline>'', Emoji ''clipboard'', T '' Task Classification:'']"
| "heading KeyStakeholder = [T ''\<newline>'', Emoji ''bust in silhouette'', T '' Key Stakeholder:'']"

definition not_found :: "field \<Rightarrow> event" where
  "not_found f = say [Emoji ''warning'', T ('' '' @ field_label f @ '' field not found'')]"

definition no_options :: "field \<Rightarrow> event" where
  "no_options f = say [Emoji ''warning'', T ('' No '' @ field_noun f @ '' options found'')]"

text \<open>
  "Use saved options if available, otherwise fetch": the options of a dropdown, \<open>None\<close>
  when an exception is thrown, and the state after. A fresh non-empty scrape is put in
  \<^verbatim>\<open>optionsToSave\<close>.
\<close>

definition obtain_options :: "form_env \<Rightarrow> jsval \<Rightarrow> field \<Rightarrow> fstate \<Rightarrow> opt list option \<times> fstate" where
  "obtain_options env saved f s =
     (case cached env saved (cache_key f) of
        CacheThrows \<Rightarrow> (None, throw s)
      | CacheNotArray \<Rightarrow>
          (None, throw (emit [say [Emoji ''open file folder'',
                                   T ('' Using saved '' @ field_noun f @ '' options'')]] s))
      | CacheHit xs \<Rightarrow>
          (Some (map cached_option (enumerate 0 xs)),
           emit [say [Emoji ''open file folder'', T ('' Using saved '' @ field_noun f @ '' options'')]] s)
      | CacheMiss \<Rightarrow>
          (case getAutocompleteOptions env f of
             (opts, es) \<Rightarrow>
               (Some opts,
                (emit es s)\<lparr>toSave :=
                   (if opts \<noteq> [] then AList.update (cache_key f) (JArr (map opt_text opts)) (toSave s)
                    else toSave s)\<rparr>)))"

definition option_line :: "opt \<Rightarrow> part list" where
  "option_line ot = [T ''  '', N (opt_index ot), T ''. '', V (opt_text ot)]"

definition list_options :: "field \<Rightarrow> opt list \<Rightarrow> fstate \<Rightarrow> bool \<times> fstate" where
  "list_options f opts s =
     (case print_while (\<lambda>ot. stringable (opt_text ot)) option_line opts of
        (ls, ok) \<Rightarrow> (ok, emit (say [T (''\<newline>Available '' @ field_plural f @ '':'')] # ls) s))"

text \<open>
  \<^verbatim>\<open>selectedTemplate && selectedTemplate.key\<close> as a condition, and the first option whose
  text is the template's value (\<^verbatim>\<open>findIndex(opt => opt.text === selectedTemplate.key)\<close>).
\<close>

definition template_value :: "jsval \<Rightarrow> field \<Rightarrow> jsval option" where
  "template_value tmpl f =
     (if truthy tmpl \<and> truthy (js_field tmpl (template_key f))
      then Some (js_field tmpl (template_key f)) else None)"

definition from_template :: "jsval \<Rightarrow> field \<Rightarrow> opt list \<Rightarrow> opt option" where
  "from_template tmpl f opts =
     (case template_value tmpl f of
        None \<Rightarrow> None
      | Some v \<Rightarrow> find (\<lambda>ot. strict_eq (opt_text ot) v) opts)"

text \<open>
  Typing a chosen text in a dropdown's input: click, wait, fill, wait, and Enter when the
  listbox shows.
\<close>

definition fill_items :: "field \<Rightarrow> part list \<Rightarrow> bool \<Rightarrow> item list" where
  "fill_items f text listbox_shown =
     [Do (Click (Input f)), Do (WaitTimeout 200), Do (Fill (Input f) text), Do (WaitTimeout 500)]
     @ (if listbox_shown then [Do PressEnter, Do (WaitTimeout 300)] else [])"

definition run_block :: "form_env \<Rightarrow> block \<Rightarrow> item list \<Rightarrow> fstate \<Rightarrow> fstate" where
  "run_block env b items s =
     (case run_items (fail_at env b) items of
        (es, True) \<Rightarrow> emit es s
      | (es, False) \<Rightarrow> throw (emit es s))"

definition fill_single :: "form_env \<Rightarrow> field \<Rightarrow> opt \<Rightarrow> fstate \<Rightarrow> fstate" where
  "fill_single env f ot s =
     run_block env (FillOf f)
       (fill_items f [V (opt_text ot)] (visible env (ListboxVisible f 0))
        @ [Say [Emoji ''check mark'', T ('' Selected '' @ field_noun f @ '': ''), V (opt_text ot)]])
       s"

section \<open>The field-filling steps\<close>

text \<open>
  \<^verbatim>\<open>s.includes(needle)\<close> and \<^verbatim>\<open>s.toLowerCase()\<close>: in the Latin-1 range the upper-case
  letters are A to Z and U+00C0 to U+00DE without the multiplication sign U+00D7, each 32
  below its lower-case letter.
\<close>

fun starts_with :: "string \<Rightarrow> string \<Rightarrow> bool" where
  "starts_with s [] = True"
| "starts_with [] (p # ps) = False"
| "starts_with (c # cs) (p # ps) = (c = p \<and> starts_with cs ps)"

fun js_includes :: "string \<Rightarrow> string \<Rightarrow> bool" where
  "js_includes [] needle = (needle = [])"
| "js_includes (c # cs) needle = (starts_with (c # cs) needle \<or> js_includes cs needle)"

definition lower_char :: "char \<Rightarrow> char" where
  "lower_char c =
     (let n = (of_char c :: nat)
      in if (65 \<le> n \<and> n \<le> 90) \<or> (192 \<le> n \<and> n \<le> 222 \<and> n \<noteq> 215) then char_of (n + 32)
         else c)"

definition toLowerCase :: "string \<Rightarrow> string" where
  "toLowerCase s = map lower_char s"

text \<open>
  Step 1, work type. \<open>workTypeInputVisible\<close> is \<^verbatim>\<open>isWorkTypeVisible\<close>: the input found
  through the label is kept when it is visible, else the fallback selectors are used.
\<close>

definition workTypeInputVisible :: "form_env \<Rightarrow> bool" where
  "workTypeInputVisible env =
     (if visible env WorkTypeLabelVisible then
        (let l = (if (case label_for env of None \<Rightarrow> False | Some a \<Rightarrow> a \<noteq> [])
                  then ByLabelFor else ByLabelSibling)
         in if visible env (WorkTypeCheck l) then visible env (WorkTypeFinal l)
            else visible env (WorkTypeFinal ByFallback))
      else visible env (WorkTypeFinal ByFallback))"

definition workTypeStep :: "form_env \<Rightarrow> jsval \<Rightarrow> jsval \<Rightarrow> fstate \<Rightarrow> fstate" where
  "workTypeStep env saved tmpl s =
     (if aborted s then s
      else
        (let s1 = emit [say (heading WorkType)] s
         in if workTypeInputVisible env then
              (case obtain_options env saved WorkType s1 of
                 (None, s2) \<Rightarrow> s2
               | (Some opts, s2) \<Rightarrow>
                   if opts \<noteq> [] then
                     (case list_options WorkType opts s2 of
                        (False, s3) \<Rightarrow> throw s3
                      | (True, s3) \<Rightarrow>
                          (case from_template tmpl WorkType opts of
                             Some ot \<Rightarrow>
                               fill_single env WorkType ot
                                 (emit [say [Emoji ''clipboard'', T '' Using template work type: '',
                                             V (opt_text ot)]] s3)
                           | None \<Rightarrow>
                               (let s4 = emit [Prompt (AskField WorkType)
                                                 [T ''\<newline>Select work type (1-'', N (length opts),
                                                  T ''): '']] s3
                                in case chosen_index (answer env (AskField WorkType)) (length opts) of
                                     Some i \<Rightarrow> fill_single env WorkType (opts ! i) s4
                                   | None \<Rightarrow>
                                       emit [say [Emoji ''warning'',
                                                  T '' Invalid selection, skipping work type'']] s4)))
                   else emit [no_options WorkType] s2)
            else emit [not_found WorkType] s1))"

text \<open>
  Steps 5, 6, 8 and 9 (category reason, risk assessment level, type of request, task
  classification) are the same code up to the names.
\<close>

definition selectStep :: "form_env \<Rightarrow> jsval \<Rightarrow> jsval \<Rightarrow> field \<Rightarrow> fstate \<Rightarrow> fstate" where
  "selectStep env saved tmpl f s =
     (if aborted s then s
      else
        (let s1 = emit [say (heading f)] s
         in if visible env (FieldVisible f) then
              (case obtain_options env saved f s1 of
                 (None, s2) \<Rightarrow> s2
               | (Some opts, s2) \<Rightarrow>
                   if opts \<noteq> [] then
                     (case list_options f opts s2 of
                        (False, s3) \<Rightarrow> throw s3
                      | (True, s3) \<Rightarrow>
                          (case from_template tmpl f opts of
                             Some ot \<Rightarrow>
                               fill_single env f ot
                                 (emit [say [Emoji ''clipboard'',
                                             T ('' Using template '' @ field_noun f @ '': ''),
                                             V (opt_text ot)]] s3)
                           | None \<Rightarrow>
                               (let s4 = emit [Prompt (AskField f)
                                                 [T (''\<newline>Select '' @ field_noun f @ '' (1-''),
                                                  N (length opts),
                                                  T '', or press Enter to skip): '']] s3
                                in case (if js_trim (answer env (AskField f)) \<noteq> []
                                         then chosen_index (answer env (AskField f)) (length opts)
                                         else None) of
                                     Some i \<Rightarrow> fill_single env f (opts ! i) s4
                                   | None \<Rightarrow>
                                       emit [say [Emoji ''check mark'',
                                                  T ('' Skipping '' @ field_noun f)]] s4)))
                   else emit [no_options f] s2)
            else emit [not_found f] s1))"

text \<open>
  Step 3, components: every template component found among the options is filled in.
\<close>

definition template_components :: "jsval \<Rightarrow> opt list \<Rightarrow> jsval list" where
  "template_components tmpl opts =
     (case template_value tmpl Components of
        Some (JArr xs) \<Rightarrow> filter (\<lambda>tc. list_ex (\<lambda>ot. strict_eq (opt_text ot) tc) opts) xs
      | _ \<Rightarrow> [])"

definition component_items :: "form_env \<Rightarrow> nat \<times> jsval \<Rightarrow> item list" where
  "component_items env e =
     (case e of (i, c) \<Rightarrow>
        fill_items Components [V c] (visible env (ListboxVisible Components i))
        @ [Say [Emoji ''check mark'', T '' Selected component: '', V c]])"

definition componentsStep :: "form_env \<Rightarrow> jsval \<Rightarrow> jsval \<Rightarrow> fstate \<Rightarrow> fstate" where
  "componentsStep env saved tmpl s =
     (if aborted s then s
      else
        (let s1 = emit [say (heading Components)] s
         in if visible env (FieldVisible Components) then
              (case obtain_options env saved Components s1 of
                 (None, s2) \<Rightarrow> s2
               | (Some opts, s2) \<Rightarrow>
                   if opts \<noteq> [] then
                     (case list_options Components opts s2 of
                        (False, s3) \<Rightarrow> throw s3
                      | (True, s3) \<Rightarrow>
                          (let fromTemplate = template_components tmpl opts;
                               s4 = (if fromTemplate \<noteq> [] then
                                       emit [say [Emoji ''clipboard'', T '' Using template components: '',
                                                  Joined fromTemplate '', '']] s3
                                     else
                                       emit [Prompt (AskField Components)
                                               [T ''\<newline>Select component (1-'', N (length opts),
                                                T '', or press Enter to skip): '']] s3);
                               chosen = (if fromTemplate \<noteq> [] then None
                                         else if js_trim (answer env (AskField Components)) \<noteq> []
                                         then Some (chosen_index (answer env (AskField Components))
                                                      (length opts))
                                         else None);
                               selected = (if fromTemplate \<noteq> [] then fromTemplate
                                           else (case chosen of
                                                   Some (Some i) \<Rightarrow> [opt_text (opts ! i)]
                                                 | _ \<Rightarrow> []));
                               s5 = (if chosen = Some None then
                                       emit [say [Emoji ''warning'',
                                                  T '' Invalid selection, skipping component'']] s4
                                     else s4)
                           in run_block env (FillOf Components)
                                (concat (map (component_items env) (enumerate 0 selected))) s5))
                   else emit [no_options Components] s2)
            else emit [not_found Components] s1))"

text \<open>
  Step 2, summary. \<^verbatim>\<open>summaryPrefix.trim()\<close> throws when the template's prefix is not a
  string.
\<close>

definition final_summary :: "jsval option \<Rightarrow> string \<Rightarrow> string \<Rightarrow> part list option outcome" where
  "final_summary prefix current answered =
     (if js_trim answered \<noteq> [] then
        Returns (Some (case prefix of
                         Some p \<Rightarrow> [V p, T '' '', T (js_trim answered)]
                       | None \<Rightarrow> [T (js_trim answered)]))
      else if current \<noteq> [] then Returns (Some [T current])
      else
        (case prefix of
           None \<Rightarrow> Returns None
         | Some (JStr p) \<Rightarrow> Returns (if js_trim p \<noteq> [] then Some [T (js_trim p)] else None)
         | Some v \<Rightarrow> Throws))"

definition summaryStep :: "form_env \<Rightarrow> jsval \<Rightarrow> fstate \<Rightarrow> fstate" where
  "summaryStep env tmpl s =
     (if aborted s then s
      else
        (let s1 = emit [say (heading Summary)] s
         in if visible env (FieldVisible Summary) then
              (let prefix = template_value tmpl Summary
               in if (case prefix of None \<Rightarrow> False | Some p \<Rightarrow> \<not> stringable p) then throw s1
                  else
                    (let s2 = emit
                           ((case prefix of
                               None \<Rightarrow> []
                             | Some p \<Rightarrow> [say [Emoji ''clipboard'', T '' Template summary prefix: '', V p]])
                            @ (if current_summary env \<noteq> []
                               then [say [T ''Current summary: '', T (current_summary env)]] else [])
                            @ [Prompt (AskField Summary)
                                 ([T ''Enter summary'']
                                  @ (case prefix of
                                       None \<Rightarrow> []
                                     | Some p \<Rightarrow> [T '' (prefix: '', V p, T '')''])
                                  @ [T '' (or press Enter to keep current): ''])]) s1
                     in case final_summary prefix (current_summary env) (answer env (AskField Summary)) of
                          Throws \<Rightarrow> throw s2
                        | Returns None \<Rightarrow> emit [say [Emoji ''check mark'', T '' Skipping summary'']] s2
                        | Returns (Some text) \<Rightarrow>
                            run_block env (FillOf Summary)
                              [Do (Click (Input Summary)), Do (Fill (Input Summary) [T '''']),
                               Do (Fill (Input Summary) text),
                               Say ([Emoji ''check mark'', T '' Summary updated: ''] @ text)] s2))
            else emit [not_found Summary] s1))"

text \<open>
  Steps 4 and 7, description for partner and story points.
\<close>

fun template_word :: "field \<Rightarrow> string" where
  "template_word PartnerDesc = ''description''"
| "template_word f = field_noun f"

definition textStep :: "form_env \<Rightarrow> jsval \<Rightarrow> field \<Rightarrow> fstate \<Rightarrow> fstate" where
  "textStep env tmpl f s =
     (if aborted s then s
      else
        (let s1 = emit [say (heading f)] s
         in if visible env (FieldVisible f) then
              (let fromTemplate = template_value tmpl f
               in if (case fromTemplate of None \<Rightarrow> False | Some p \<Rightarrow> \<not> stringable p) then throw s1
                  else
                    (let s2 = emit
                           ((case fromTemplate of
                               None \<Rightarrow> []
                             | Some p \<Rightarrow>
                                 [say [Emoji ''clipboard'',
                                       T ('' Using template '' @ template_word f @ '': ''), V p]])
                            @ [Prompt (AskField f)
                                 ([T (''Enter '' @ field_noun f)]
                                  @ (case fromTemplate of
                                       None \<Rightarrow> []
                                     | Some p \<Rightarrow> [T '' (template: '', V p, T '')''])
                                  @ [T '' (or press Enter to skip): ''])]) s1;
                         entered = (if js_trim (answer env (AskField f)) \<noteq> []
                                    then JStr (js_trim (answer env (AskField f)))
                                    else (case fromTemplate of None \<Rightarrow> JStr [] | Some p \<Rightarrow> p))
                     in if truthy entered then
                          run_block env (FillOf f)
                            [Do (Click (Input f)), Do (Fill (Input f) [V entered]),
                             Say (if f = StoryPoints
                                  then [Emoji ''check mark'', T '' Entered story points: '', V entered]
                                  else [Emoji ''check mark'', T ('' Entered '' @ field_noun f)])] s2
                        else emit [say [Emoji ''check mark'', T ('' Skipping '' @ field_noun f)]] s2))
            else emit [not_found f] s1))"

text \<open>
  Step 10, key stakeholder.
\<close>

definition defaultStakeholder :: "form_env \<Rightarrow> string" where
  "defaultStakeholder env =
     (case stakeholder_variable env of
        None \<Rightarrow> ''Oka Lwin''
      | Some v \<Rightarrow> if v \<noteq> [] then v else ''Oka Lwin'')"

definition keyStakeholderStep :: "form_env \<Rightarrow> jsval \<Rightarrow> fstate \<Rightarrow> fstate" where
  "keyStakeholderStep env tmpl s =
     (if aborted s then s
      else
        (let s1 = emit [say (heading KeyStakeholder)] s
         in if visible env (FieldVisible KeyStakeholder) then
              (let fromTemplate = template_value tmpl KeyStakeholder
               in if (case fromTemplate of None \<Rightarrow> False | Some p \<Rightarrow> \<not> stringable p) then throw s1
                  else
                    (let initial = (case fromTemplate of
                                      None \<Rightarrow> JStr (defaultStakeholder env)
                                    | Some p \<Rightarrow> p);
                         s2 = emit
                           [say (case fromTemplate of
                                   None \<Rightarrow> [Emoji ''clipboard'',
                                              T '' Using default stakeholder from .env: '', V initial]
                                 | Some p \<Rightarrow> [Emoji ''clipboard'',
                                               T '' Using template stakeholder: '', V initial]),
                            Prompt (AskField KeyStakeholder)
                              [T ''Enter key stakeholder name (default: '', V initial,
                               T '', or press Enter to use default): '']] s1;
                         name = (if js_trim (answer env (AskField KeyStakeholder)) \<noteq> []
                                 then JStr (js_trim (answer env (AskField KeyStakeholder)))
                                 else initial)
                     in if truthy name then
                          run_block env (FillOf KeyStakeholder)
                            ([Do (Click (Input KeyStakeholder)), Do (WaitTimeout 200),
                              Do (Fill (Input KeyStakeholder) [V name]), Do (WaitTimeout 500)]
                             @ (if visible env (ListboxVisible KeyStakeholder 0)
                                then [Do PressEnter, Do (WaitTimeout 300),
                                      Say [Emoji ''check mark'', T '' Set key stakeholder: '', V name]]
                                else [Say [Emoji ''check mark'', T '' Entered key stakeholder: '',
                                           V name]])) s2
                        else emit [say [Emoji ''check mark'', T '' Skipping key stakeholder'']] s2))
            else emit [not_found KeyStakeholder] s1))"

text \<open>
  The ten steps in order, with the line printed between steps 3 and 4.
\<close>

definition formFilledNote :: "fstate \<Rightarrow> fstate" where
  "formFilledNote s =
     (if aborted s then s
      else emit [say [T ''\<newline>'', Emoji ''check mark'',
                      T '' Form filled! Continuing with field entry...'']] s)"

definition fillFields :: "form_env \<Rightarrow> jsval \<Rightarrow> jsval \<Rightarrow> fstate \<Rightarrow> fstate" where
  "fillFields env saved tmpl s =
     keyStakeholderStep env tmpl
      (selectStep env saved tmpl TaskClassification
        (selectStep env saved tmpl TypeOfRequest
          (textStep env tmpl StoryPoints
            (selectStep env saved tmpl RiskAssessment
              (selectStep env saved tmpl CategoryReason
                (textStep env tmpl PartnerDesc
                  (formFilledNote
                    (componentsStep env saved tmpl
                      (summaryStep env tmpl
                        (workTypeStep env saved tmpl s))))))))))"

section \<open>The whole run\<close>

text \<open>
  The three files \<^verbatim>\<open>createJiraTicket\<close> reads: the session state, the option cache and the
  templates.
\<close>

record disk =
  stateFile :: disk_file
  optionsFile :: disk_file
  templatesFile :: disk_file

text \<open>
  From launching the browser to the open create dialog.
\<close>

definition preludeItems :: "config \<Rightarrow> form_env \<Rightarrow> jsval \<Rightarrow> item list" where
  "preludeItems cfg env savedState =
     [Do Launch, Do (NewContext savedState),
      Say [Emoji ''check mark'', T '' Restored session from saved state''],
      Do NewPage, Do SetViewport,
      Say [Emoji ''mobile phone'', T '' Navigating to Jira board...''],
      Do (Goto (dashboardUrl cfg)), Do (WaitTimeout 2000),
      Say [Emoji ''magnifying glass'', T '' Looking for create button...'']]
     @ (if visible env CreateButtonVisible then
          [Do (WaitVisible CreateButtonPrimary),
           Say [Emoji ''index pointing up'', T '' Clicking create button...''],
           Do (Click CreateButtonPrimary)]
        else
          [Say [Emoji ''warning'', T '' Primary create button not found, trying fallback...''],
           Do (WaitVisible CreateButtonFallback),
           Say [Emoji ''index pointing up'', T '' Clicking create button...''],
           Do (Click CreateButtonFallback)])
     @ [Say [Emoji ''hourglass'', T '' Waiting for create dialog to appear...''],
        Do (WaitTimeout 3000)]
     @ (if visible env FormVisible then []
        else [Say [Emoji ''warning'', T '' Create form not visible yet, waiting...''],
              Do (WaitTimeout 2000)])
     @ [Say [Emoji ''check mark'', T '' Create dialog opened successfully!'']]"

text \<open>
  The closing prompt and the click on Create, with its own \<^verbatim>\<open>try/catch\<close>.
\<close>

definition submitTicket :: "form_env \<Rightarrow> fstate \<Rightarrow> fstate" where
  "submitTicket env s =
     (let s1 = emit [say [T ''\<newline>'', Emoji ''direct hit'', T '' All fields have been filled!''],
                     Prompt AskCreate
                       [T ''Do you want to create the ticket now? (yes/no, default: no): '']] s;
          choice = toLowerCase (js_trim (answer env AskCreate))
      in if choice = ''yes'' \<or> choice = ''y'' then
           (case run_items (fail_at env SubmitBlock)
                   [Do (WaitVisible SubmitButton), Do (Click SubmitButton),
                    Say [Emoji ''check mark'', T '' Create button clicked!''],
                    Do (WaitTimeout 2000)] of
              (es, True) \<Rightarrow>
                emit (say [Emoji ''rocket'', T '' Creating ticket...''] # es
                      @ (if js_includes (url_after_submit env) ''/browse/'' then
                           [say [Emoji ''check mark'', T '' Ticket created successfully!''],
                            say [Emoji ''round pushpin'', T '' Ticket URL: '', T (url_after_submit env)]]
                         else
                           [say [Emoji ''warning'', T '' Ticket creation may still be processing...''],
                            say [Emoji ''light bulb'', T '' Browser will remain open for you to verify.'']]))
                  s1
            | (es, False) \<Rightarrow>
                emit (say [Emoji ''rocket'', T '' Creating ticket...''] # es
                      @ [Console (Print ConsoleError
                                    [Emoji ''cross mark'', T '' Error clicking Create button:'', ErrMessage]),
                         say [Emoji ''light bulb'',
                              T '' Browser will remain open for you to manually create the ticket.'']])
                  s1)
         else
           emit [say [Emoji ''pause'', T '' Ticket creation skipped.''],
                 say [Emoji ''light bulb'',
                      T '' Browser will remain open for you to review and create manually.'']] s1)"

text \<open>
  The \<^verbatim>\<open>try\<close> block after the saved state was found: the final state and the option
  cache file after the run.
\<close>

definition ticketBody :: "config \<Rightarrow> form_env \<Rightarrow> disk \<Rightarrow> jsval \<Rightarrow> fstate \<Rightarrow> fstate \<times> disk_file" where
  "ticketBody cfg env d savedState s =
     (let s0 = run_block env Prelude (preludeItems cfg env savedState) s
      in if aborted s0 then (s0, optionsFile d)
         else
           (case loadTemplates (templatesFile d) of
              (templates, es1) \<Rightarrow>
                (case selectTemplate env templates of
                   (Throws, es2) \<Rightarrow> (throw (emit (es1 @ es2) s0), optionsFile d)
                 | (Returns tmpl, es2) \<Rightarrow>
                     (case loadSavedOptions (optionsFile d) of
                        (saved, es3) \<Rightarrow>
                          (let s1 = fillFields env saved tmpl
                                      ((emit (es1 @ es2 @ es3) s0)\<lparr>toSave := js_spread saved\<rparr>)
                           in if aborted s1 then (s1, optionsFile d)
                              else
                                (case (if toSave s1 \<noteq> []
                                       then saveOptions (options_write env) (toSave s1) (optionsFile d)
                                       else (optionsFile d, [])) of
                                   (f', es4) \<Rightarrow>
                                     (emit [Act (Sleep 5000)] (submitTicket env (emit es4 s1)), f')))))))"

text \<open>
  The state at the start of the \<^verbatim>\<open>try\<close> block, the first line and those of
  \<^verbatim>\<open>loadBrowserState\<close> printed, and the \<^verbatim>\<open>try\<close> block run on the state it found.
\<close>

definition startState :: "config \<Rightarrow> disk \<Rightarrow> fstate" where
  "startState cfg d =
     \<lparr>events = say [Emoji ''rocket'', T '' Starting JIRA ticket creation...'']
                # map Console (snd (loadBrowserState cfg (stateFile d))),
      toSave = [], aborted = False\<rparr>"

definition tryBlock :: "config \<Rightarrow> form_env \<Rightarrow> disk \<Rightarrow> fstate \<times> disk_file" where
  "tryBlock cfg env d =
     ticketBody cfg env d (fst (loadBrowserState cfg (stateFile d))) (startState cfg d)"

text \<open>
  \<^verbatim>\<open>createJiraTicket()\<close>: the option cache file after the run, and the trace. Without a
  saved state the function returns at once. The \<^verbatim>\<open>catch\<close> takes a screenshot when a page
  exists; \<^verbatim>\<open>finally\<close> prints the closing line.
\<close>

definition createJiraTicket :: "config \<Rightarrow> form_env \<Rightarrow> disk \<Rightarrow> disk_file \<times> event list" where
  "createJiraTicket cfg env d =
     (let finish = [say [Emoji ''chequered flag'', T '' Ticket creation process completed.'']]
      in if \<not> truthy (fst (loadBrowserState cfg (stateFile d))) then
           (optionsFile d,
            events (startState cfg d)
            @ [Console (Print ConsoleError
                 [Emoji ''cross mark'',
                  T '' No saved browser state found. Please run 'npm run jira:login' first.''])]
            @ finish)
         else
           (case tryBlock cfg env d of
              (s, f') \<Rightarrow>
                (f',
                 events s
                 @ (if aborted s then
                      Console (Print ConsoleError
                        [Emoji ''cross mark'', T '' Error during ticket creation:'', ErrMessage])
                      # (if Act NewPage \<in> set (events s) then
                           (case run_items (fail_at env ScreenshotBlock)
                                   [Do TakeScreenshot,
                                    Say [Emoji ''camera'', T '' Error screenshot saved'']] of
                              (es, True) \<Rightarrow> es
                            | (es, False) \<Rightarrow>
                                es @ [warn [Emoji ''warning'', T '' Could not save screenshot:'',
                                            ErrMessage]])
                         else [])
                    else [])
                 @ finish)))"


section \<open>Observations on a run\<close>

text \<open>
  What the claims observe in a trace: the warnings, the questions put to the operator in
  order, and the texts typed into inputs in order.
\<close>

fun is_warning_event :: "event \<Rightarrow> bool" where
  "is_warning_event (Console l) = is_warning l"
| "is_warning_event e = False"

fun prompts :: "event list \<Rightarrow> question list" where
  "prompts [] = []"
| "prompts (Prompt q ps # es) = q # prompts es"
| "prompts (e # es) = prompts es"

fun fills :: "event list \<Rightarrow> (target \<times> part list) list" where
  "fills [] = []"
| "fills (Act (Fill t x) # es) = (t, x) # fills es"
| "fills (e # es) = fills es"

text \<open>The fields whose dropdown the run scraped (or tried to), in order.\<close>

fun scrapes :: "event list \<Rightarrow> field list" where
  "scrapes [] = []"
| "scrapes (Act (WaitForSelector (Selector f)) # es) = f # scrapes es"
| "scrapes (Threw (WaitForSelector (Selector f)) # es) = f # scrapes es"
| "scrapes (e # es) = scrapes es"

text \<open>
  Whether a dropdown's field is found; the list a fresh scrape of the field puts in the
  cache (\<open>None\<close> when the cached list is used, or the scrape finds no option or fails);
  and \<^verbatim>\<open>optionsToSave\<close> after the step of a field that is found.
\<close>

definition shown :: "form_env \<Rightarrow> field \<Rightarrow> bool" where
  "shown env f = (if f = WorkType then workTypeInputVisible env else visible env (FieldVisible f))"

definition scraped_entry :: "form_env \<Rightarrow> jsval \<Rightarrow> field \<Rightarrow> jsval option" where
  "scraped_entry env saved f =
     (if cached env saved (cache_key f) = CacheMiss \<and> fst (getAutocompleteOptions env f) \<noteq> []
      then Some (JArr (map opt_text (fst (getAutocompleteOptions env f))))
      else None)"

definition cache_put :: "form_env \<Rightarrow> jsval \<Rightarrow> field \<Rightarrow> (string \<times> jsval) list \<Rightarrow> (string \<times> jsval) list" where
  "cache_put env saved f al =
     (if shown env f then
        (case scraped_entry env saved f of
           None \<Rightarrow> al
         | Some v \<Rightarrow> AList.update (cache_key f) v al)
      else al)"

text \<open>
  None of the ten fields is found on the page.
\<close>

definition no_field_visible :: "form_env \<Rightarrow> bool" where
  "no_field_visible env =
     (\<not> workTypeInputVisible env
      \<and> list_all (\<lambda>f. \<not> visible env (FieldVisible f))
           [Summary, Components, PartnerDesc, CategoryReason, RiskAssessment, StoryPoints,
            TypeOfRequest, TaskClassification, KeyStakeholder])"

text \<open>
  The event a block's item leaves when its call returns.
\<close>

fun item_event :: "item \<Rightarrow> event" where
  "item_event (Do a) = Act a"
| "item_event (Say ps) = say ps"

text \<open>
  The dropdown of a field offers \<open>opts\<close>: the options come from the cache or from a
  scrape without an exception, there is at least one, and each can be printed.
\<close>

definition offers :: "form_env \<Rightarrow> jsval \<Rightarrow> field \<Rightarrow> fstate \<Rightarrow> opt list \<Rightarrow> bool" where
  "offers env saved f s opts =
     (fst (obtain_options env saved f (emit [say (heading f)] s)) = Some opts
      \<and> opts \<noteq> []
      \<and> list_all (\<lambda>ot. stringable (opt_text ot)) opts)"

text \<open>
  An outside world in which nothing is visible, nothing throws and the operator presses
  Enter at every prompt; and the state at the start of a run.
\<close>

definition quiet_env :: form_env where
  "quiet_env =
     \<lparr>visible = (\<lambda>p. False), label_for = None, current_summary = [], answer = (\<lambda>q. []),
      fail_at = (\<lambda>b. None), listbox = (\<lambda>f. None), numeric_gt_zero = (\<lambda>v. Returns False),
      options_write = Written, url_after_submit = [], stakeholder_variable = None\<rparr>"

definition fresh :: fstate where
  "fresh = \<lparr>events = [], toSave = [], aborted = False\<rparr>"

fun quiet_item :: "item \<Rightarrow> bool" where
  "quiet_item (Do (WaitForSelector (Selector f))) = False"
| "quiet_item i = True"

text \<open>The six fields with a dropdown.\<close>

definition dropdowns :: "field list" where
  "dropdowns = [WorkType, Components, CategoryReason, RiskAssessment, TypeOfRequest, TaskClassification]"

text \<open>
  A run on which only the category reason field is found: its dropdown shows one option
  element, "Bug"; the option cache holds the components; there is no template file.
\<close>

definition example_env :: form_env where
  "example_env =
     quiet_env\<lparr>visible := (\<lambda>p. p = FieldVisible CategoryReason),
               listbox := (\<lambda>f. if f = CategoryReason
                                then Some \<lparr>option_nodes = [(Some '' Bug '', None)], listbox_text = None\<rparr>
                                else None)\<rparr>"

definition example_disk :: disk where
  "example_disk =
     \<lparr>stateFile = Doc (JObj [(''cookies'', JArr [])]),
      optionsFile = Doc (JObj [(''components'', JArr [JStr ''UI''])]),
      templatesFile = Missing\<rparr>"

text \<open>
  The words of the claim on dropdown selection. The template supplies the value \<open>v\<close> for a
  field: there is a template, and its entry for the field is \<open>v\<close>, something other than
  \<^verbatim>\<open>undefined\<close>, \<^verbatim>\<open>null\<close>, \<^verbatim>\<open>false\<close>, \<^verbatim>\<open>0\<close> or the empty string. A value is on offer: it is
  the text of an option (\<^verbatim>\<open>===\<close>). The template fits the options: the value it supplies
  is on offer. The components a template names are the elements of its array
  \<^verbatim>\<open>components\<close>. An answer is out of range for \<open>n\<close> options: \<^verbatim>\<open>parseInt\<close> of it is no number
  from 1 to \<open>n\<close>.
\<close>

definition supplies :: "jsval \<Rightarrow> field \<Rightarrow> jsval \<Rightarrow> bool" where
  "supplies tmpl f v = (truthy tmpl \<and> js_field tmpl (template_key f) = v \<and> truthy v)"

definition on_offer :: "opt list \<Rightarrow> jsval \<Rightarrow> bool" where
  "on_offer opts v = list_ex (\<lambda>ot. strict_eq (opt_text ot) v) opts"

definition template_fits :: "jsval \<Rightarrow> field \<Rightarrow> opt list \<Rightarrow> bool" where
  "template_fits tmpl f opts =
     (supplies tmpl f (js_field tmpl (template_key f))
      \<and> on_offer opts (js_field tmpl (template_key f)))"

definition named_components :: "jsval \<Rightarrow> jsval list" where
  "named_components tmpl =
     (if truthy tmpl then (case js_field tmpl ''components'' of JArr xs \<Rightarrow> xs | _ \<Rightarrow> []) else [])"

definition out_of_range :: "string \<Rightarrow> nat \<Rightarrow> bool" where
  "out_of_range a n = (case parseInt a of None \<Rightarrow> True | Some k \<Rightarrow> k < 1 \<or> int n < k)"

text \<open>
  The words of the claim on the option cache. The cache file has no entry under a key: it
  is missing or cannot be read (the script then starts from an empty cache), or it holds
  an object without that key. The option texts a dropdown shows when it is opened: the
  trimmed non-empty texts of the option elements of its listbox, and for a listbox without
  option elements the words of its text.
\<close>

definition no_cache_entry :: "disk_file \<Rightarrow> string \<Rightarrow> bool" where
  "no_cache_entry file k =
     (case file of Doc (JObj kvs) \<Rightarrow> map_of kvs k = None | Doc v \<Rightarrow> False | _ \<Rightarrow> True)"

definition live_texts :: "listbox_dom \<Rightarrow> string list" where
  "live_texts lb =
     (if option_nodes lb \<noteq> [] then
        filter (\<lambda>t. t \<noteq> [])
          (map (\<lambda>n. case fst n of None \<Rightarrow> [] | Some t \<Rightarrow> js_trim t) (option_nodes lb))
      else
        filter (\<lambda>w. w \<noteq> [])
          (map js_trim (split_ws (case listbox_text lb of None \<Rightarrow> [] | Some t \<Rightarrow> js_trim t))))"

definition dropdown_texts :: "form_env \<Rightarrow> field \<Rightarrow> jsval list" where
  "dropdown_texts env f = (case listbox env f of None \<Rightarrow> [] | Some lb \<Rightarrow> map JStr (live_texts lb))"

text \<open>
  The run of \<open>example_env\<close> on a page that also shows the key stakeholder field, whose
  first browser call (the click on the input) throws.
\<close>

definition interrupted_env :: form_env where
  "interrupted_env =
     example_env\<lparr>visible := (\<lambda>p. p = FieldVisible CategoryReason \<or> p = FieldVisible KeyStakeholder),
                 fail_at := (\<lambda>b. if b = FillOf KeyStakeholder then Some 0 else None)\<rparr>"

section \<open>Logging in (src/jira-login.js)\<close>

text \<open>
  The awaited browser calls of \<^verbatim>\<open>jira-login.js\<close> that can throw, one name per place in
  the source (the call in the polling loop carries the number of the iteration, a call of
  \<^verbatim>\<open>ensureLoggedIn\<close> whether it belongs to the browser opened first or to the one
  opened after the second login); the places where the page is looked at; and what is seen
  there.
\<close>

datatype round = Restored | Relogin

datatype board_call =
    BoardLaunch | BoardContextSaved | BoardContextFresh | BoardPage | BoardViewport
  | BoardGoto | BoardWait | BoardPageClose | BoardContextClose | BoardBrowserClose

datatype site =
    GlobalLaunch | GlobalContextSaved | GlobalContextFresh | GlobalPage | GlobalViewport
  | FreshLaunch | FirstNewContext | ContextSaved | ContextFresh | FreshPage | FreshViewport
  | SavedGoto | SavedWait | DashboardGoto | DashboardWait
  | UsernameProbe | UsernameFill | EnterKey | AuthWait | EarlySettle | PollWait nat | Settle
  | PageClose | ContextClose | BrowserClose | Shot
  | Board round board_call

datatype view_site =
    AtSavedDashboard | AtDashboard | BeforeUsername | WithoutUsername | AtRestored | AtRelogin

record page_view =
  heading_visible :: bool
  heading_text :: "string option"
  create_visible :: bool
  fallback_visible :: bool
  view_url :: string

text \<open>
  Everything outside the script that one call of \<^verbatim>\<open>loginToJira\<close> (or the own code of
  \<^verbatim>\<open>ensureLoggedIn\<close>) meets: which calls throw, the object each creating call returns,
  \<^verbatim>\<open>browser.contexts()[0]\<close>, whether the browser info file gets written, the page as seen
  at each place, whether the username input appears and is visible, the page URL after
  the ten seconds left for the fingerprint, at each poll, and in the inner \<^verbatim>\<open>catch\<close>, the
  extra milliseconds each one-second wait of the polling loop takes, and what
  \<^verbatim>\<open>saveBrowserState\<close> meets (see \<open>save_env\<close>).
\<close>

record login_env =
  throws_at :: "site \<Rightarrow> bool"
  handle_of :: "site \<Rightarrow> nat"
  existing_context :: "nat option"
  info_write :: write_result
  view_at :: "view_site \<Rightarrow> page_view"
  username_appears :: bool
  username_visible :: bool
  url_after_auth :: string
  poll_url :: "nat \<Rightarrow> string"
  jitter :: "nat \<Rightarrow> nat"
  url_on_error :: string
  stored_state :: "(string \<times> jsval) list outcome option"
  url_at_save :: string
  clock_iso :: string
  session_write :: write_result

record login_options =
  saveState :: bool
  standalone :: bool
  useGlobalBrowser :: bool

text \<open>
  The state of the module: the trace, the three global variables, the session-state file,
  and the local variables of the running \<^verbatim>\<open>loginToJira\<close>, which its \<^verbatim>\<open>catch\<close> and
  \<^verbatim>\<open>finally\<close> read. Browsers, contexts and pages are numbers.
\<close>

record lstate =
  history :: "event list"
  globalBrowser :: "nat option"
  globalContext :: "nat option"
  globalPage :: "nat option"
  sessionFile :: disk_file
  vBrowser :: "nat option"
  vContext :: "nat option"
  vPage :: "nat option"
  shouldCloseBrowser :: bool

text \<open>
  \<^verbatim>\<open>{ success: true, browser, page, context }\<close> and \<^verbatim>\<open>{ success: false, error }\<close>.
\<close>

datatype login_result = Success "nat option" "nat option" "nat option" | Failure "part list"

fun succeeded :: "login_result outcome \<Rightarrow> bool" where
  "succeeded (Returns (Success b p c)) = True"
| "succeeded r = False"

text \<open>
  An asynchronous function is a function of the state that returns or throws, with the
  state after. \<open>andThen\<close> is \<^verbatim>\<open>await\<close> followed by the rest, \<open>catching\<close> is
  \<^verbatim>\<open>try { } catch { }\<close>, \<open>ending\<close> is \<^verbatim>\<open>try { } finally { }\<close>, \<open>reading\<close> gives the
  rest the state it starts in, \<open>attempt\<close> is one awaited browser call.
\<close>

type_synonym 'a prog = "lstate \<Rightarrow> 'a outcome \<times> lstate"

definition yield :: "'a \<Rightarrow> 'a prog" where
  "yield x s = (Returns x, s)"

definition raise :: "'a prog" where
  "raise s = (Throws, s)"

definition andThen :: "'a prog \<Rightarrow> ('a \<Rightarrow> 'b prog) \<Rightarrow> 'b prog" where
  "andThen m f s = (case m s of (Throws, s') \<Rightarrow> (Throws, s') | (Returns x, s') \<Rightarrow> f x s')"

definition before :: "unit prog \<Rightarrow> 'a prog \<Rightarrow> 'a prog" where
  "before m n = andThen m (\<lambda>u. n)"

definition catching :: "'a prog \<Rightarrow> 'a prog \<Rightarrow> 'a prog" where
  "catching m h s = (case m s of (Throws, s') \<Rightarrow> h s' | (Returns x, s') \<Rightarrow> (Returns x, s'))"

definition reading :: "(lstate \<Rightarrow> 'a prog) \<Rightarrow> 'a prog" where
  "reading f s = f s s"

definition ending :: "'a prog \<Rightarrow> unit prog \<Rightarrow> 'a prog" where
  "ending m f s =
     (case m s of (r, t) \<Rightarrow> (case f t of (Throws, u) \<Rightarrow> (Throws, u) | (Returns x, u) \<Rightarrow> (r, u)))"

definition tell :: "event list \<Rightarrow> unit prog" where
  "tell es s = (Returns (), s\<lparr>history := history s @ es\<rparr>)"

definition update :: "(lstate \<Rightarrow> lstate) \<Rightarrow> unit prog" where
  "update g s = (Returns (), g s)"

definition attempt :: "login_env \<Rightarrow> site \<Rightarrow> action \<Rightarrow> unit prog" where
  "attempt env c a s =
     (if throws_at env c then (Throws, s\<lparr>history := history s @ [Threw a]\<rparr>)
      else (Returns (), s\<lparr>history := history s @ [Act a]\<rparr>))"

primrec inOrder :: "unit prog list \<Rightarrow> unit prog" where
  "inOrder [] = yield ()"
| "inOrder (m # ms) = before m (inOrder ms)"

definition err :: "part list \<Rightarrow> event" where
  "err ps = Console (Print ConsoleError ps)"

text \<open>\<^verbatim>\<open>getGlobalBrowser()\<close>, \<^verbatim>\<open>getGlobalContext()\<close>, \<^verbatim>\<open>getGlobalPage()\<close>\<close>

definition getGlobalBrowser :: "login_env \<Rightarrow> nat prog" where
  "getGlobalBrowser env =
     reading (\<lambda>s.
       case globalBrowser s of
         Some b \<Rightarrow>
           before (tell [say [Emoji ''arrows'', T '' Reusing existing browser instance'']]) (yield b)
       | None \<Rightarrow>
           before (tell [say [Emoji ''rocket'', T '' Creating new browser instance...'']])
             (catching
                (before
                   (inOrder
                      [attempt env GlobalLaunch Launch,
                       update (\<lambda>t. t\<lparr>globalBrowser := Some (handle_of env GlobalLaunch)\<rparr>),
                       tell [if info_write env = Written
                             then say [Emoji ''floppy disk'', T '' Browser instance info saved'']
                             else warn [Emoji ''warning'', T '' Could not save browser info:'',
                                        ErrMessage]]])
                   (yield (handle_of env GlobalLaunch)))
                (before (tell [err [Emoji ''cross mark'', T '' Failed to create browser instance:'',
                                    ErrMessage]])
                   raise)))"

definition newGlobalContext :: "login_env \<Rightarrow> site \<Rightarrow> jsval \<Rightarrow> event list \<Rightarrow> nat prog" where
  "newGlobalContext env c storage announce =
     before
       (inOrder [attempt env c (NewContext storage),
               update (\<lambda>t. t\<lparr>globalContext := Some (handle_of env c)\<rparr>),
               tell announce])
       (yield (handle_of env c))"

definition getGlobalContext :: "login_env \<Rightarrow> config \<Rightarrow> nat prog" where
  "getGlobalContext env cfg =
     andThen (getGlobalBrowser env) (\<lambda>b. reading (\<lambda>s.
       case globalContext s of
         Some c \<Rightarrow>
           before (tell [say [Emoji ''arrows'', T '' Reusing existing browser context'']]) (yield c)
       | None \<Rightarrow>
           before (tell [say [Emoji ''arrows'', T '' Creating new browser context...'']])
             (catching
                (before (tell (map Console (snd (loadBrowserState cfg (sessionFile s)))))
                   (if truthy (fst (loadBrowserState cfg (sessionFile s))) then
                      catching
                        (newGlobalContext env GlobalContextSaved
                           (fst (loadBrowserState cfg (sessionFile s)))
                           [say [Emoji ''check mark'', T '' Restored context from saved state'']])
                        (before
                           (tell [warn [Emoji ''warning'',
                                        T '' Failed to restore context from saved state, creating fresh context'']])
                           (newGlobalContext env GlobalContextFresh JUndef []))
                    else newGlobalContext env GlobalContextFresh JUndef []))
                (before (tell [err [Emoji ''cross mark'', T '' Failed to create browser context:'',
                                    ErrMessage]])
                   raise))))"

definition getGlobalPage :: "login_env \<Rightarrow> config \<Rightarrow> nat prog" where
  "getGlobalPage env cfg =
     andThen (getGlobalContext env cfg) (\<lambda>c. reading (\<lambda>s.
       case globalPage s of
         Some p \<Rightarrow> before (tell [say [Emoji ''arrows'', T '' Reusing existing page'']]) (yield p)
       | None \<Rightarrow>
           before (tell [say [Emoji ''arrows'', T '' Creating new page...'']])
             (catching
                (before
                   (inOrder
                      [attempt env GlobalPage NewPage,
                       update (\<lambda>t. t\<lparr>globalPage := Some (handle_of env GlobalPage)\<rparr>),
                       attempt env GlobalViewport SetViewport])
                   (yield (handle_of env GlobalPage)))
                (before (tell [err [Emoji ''cross mark'', T '' Failed to create page:'', ErrMessage]])
                   raise))))"

text \<open>
  \<^verbatim>\<open>checkLoggedIn(page)\<close>: false when the heading "Log in to continue" shows, else true
  when the create button, or its fallback, is visible. Each probe swallows its own
  failure, so the \<^verbatim>\<open>catch\<close> of the function is never entered.
\<close>

definition login_prompt :: "page_view \<Rightarrow> bool" where
  "login_prompt v =
     (heading_visible v
      \<and> (case heading_text v of
            None \<Rightarrow> False
          | Some t \<Rightarrow> t \<noteq> [] \<and> js_includes t ''Log in to continue''))"

definition checkLoggedIn :: "page_view \<Rightarrow> bool \<times> event list" where
  "checkLoggedIn v =
     (if login_prompt v
      then (False, [say [Emoji ''warning'', T '' Login required: 'Log in to continue' heading found'']])
      else if create_visible v \<or> fallback_visible v
      then (True,
            [say [Emoji ''check mark'', T '' Already logged in! Create button is visible.''],
             say [Emoji ''round pushpin'', T '' Current URL: '', T (view_url v)]])
      else (False, []))"

text \<open>\<^verbatim>\<open>closeBrowserOnSuccess(browser, page, context, shouldCloseBrowser)\<close>\<close>

definition closeBrowserOnSuccess :: "login_env \<Rightarrow> unit prog" where
  "closeBrowserOnSuccess env =
     reading (\<lambda>s.
       catching
         (inOrder
            [tell [say [Emoji ''lock'', T '' Closing browser after successful login...'']],
             case vPage s of
               None \<Rightarrow> yield ()
             | Some p \<Rightarrow>
                 inOrder [attempt env PageClose ClosePage,
                        update (\<lambda>t. if globalPage t = Some p then t\<lparr>globalPage := None\<rparr> else t)],
             case vContext s of
               None \<Rightarrow> yield ()
             | Some c \<Rightarrow>
                 inOrder [attempt env ContextClose CloseContext,
                        update (\<lambda>t. if globalContext t = Some c then t\<lparr>globalContext := None\<rparr>
                                     else t)],
             case vBrowser s of
               None \<Rightarrow> yield ()
             | Some b \<Rightarrow>
                 if shouldCloseBrowser s then
                   inOrder [attempt env BrowserClose CloseBrowser,
                          update (\<lambda>t. if globalBrowser t = Some b then t\<lparr>globalBrowser := None\<rparr>
                                       else t)]
                 else yield (),
             tell [say [Emoji ''check mark'', T '' Browser closed successfully'']]])
         (tell [warn [Emoji ''warning'', T '' Error closing browser:'', ErrMessage]]))"

text \<open>\<^verbatim>\<open>if (saveState && context) { await saveBrowserState(browser, page); }\<close>\<close>

definition session_save :: "login_env \<Rightarrow> save_env" where
  "session_save env =
     \<lparr>first_context = stored_state env, page_url = Some (url_at_save env),
      now_iso = clock_iso env, state_write = session_write env\<rparr>"

definition saveIfAsked :: "login_env \<Rightarrow> config \<Rightarrow> login_options \<Rightarrow> unit prog" where
  "saveIfAsked env cfg opts =
     reading (\<lambda>s.
       if saveState opts \<and> vContext s \<noteq> None then
         inOrder [update (\<lambda>t. t\<lparr>sessionFile :=
                                 fst (saveBrowserState cfg (session_save env) (sessionFile s))\<rparr>),
                tell (map Console (snd (saveBrowserState cfg (session_save env) (sessionFile s))))]
       else yield ())"

text \<open>
  The polling loop,
  \<^verbatim>\<open>while (Date.now() - startTime < timeout && !loginSuccessful)\<close> with \<^verbatim>\<open>timeout = 60000\<close>.
  \<open>elapsed\<close> is \<^verbatim>\<open>Date.now() - startTime\<close> at the test, \<open>k\<close> the number of the iteration.
  Reading the URL takes no time; the wait of one second takes the second and
  \<open>jitter env k\<close> more. The result is the new URL when one containing the domain was
  seen, \<open>None\<close> when the loop ran out of time; the wait may throw.
\<close>

definition authenticated_domain :: string where
  "authenticated_domain = ''redventures.atlassian.net''"

function pollUrl :: "login_env \<Rightarrow> string \<Rightarrow> nat \<Rightarrow> nat \<Rightarrow> string option outcome \<times> event list" where
  "pollUrl env currentUrl elapsed k =
     (if elapsed < 60000 then
        (if poll_url env k \<noteq> currentUrl \<and> js_includes (poll_url env k) authenticated_domain
         then (Returns (Some (poll_url env k)), [])
         else if throws_at env (PollWait k) then (Throws, [Threw (WaitTimeout 1000)])
         else (case pollUrl env currentUrl (elapsed + 1000 + jitter env k) (Suc k) of
                 (r, es) \<Rightarrow> (r, Act (WaitTimeout 1000) # es)))
      else (Returns None, []))"
  by pat_completeness auto

termination
  by (relation "measure (\<lambda>(env, currentUrl, elapsed, k). 60000 - elapsed)") auto

text \<open>
  From the ten seconds left for the fingerprint to the result (lines 1495 to 1571 of the
  source): success at once when the URL already contains the domain, else the polling loop
  inside its own \<^verbatim>\<open>try/catch\<close>.
\<close>

definition finishLogin :: "login_env \<Rightarrow> config \<Rightarrow> login_options \<Rightarrow> site \<Rightarrow> login_result prog" where
  "finishLogin env cfg opts settle =
     before
       (inOrder [attempt env settle (WaitTimeout 2000), saveIfAsked env cfg opts,
               closeBrowserOnSuccess env])
       (yield (Success None None None))"

definition awaitLogin :: "login_env \<Rightarrow> config \<Rightarrow> login_options \<Rightarrow> login_result prog" where
  "awaitLogin env cfg opts =
     before
       (inOrder [tell [say [Emoji ''hourglass'', T '' Waiting 10 seconds for fingerprint authentication...'']],
               attempt env AuthWait (WaitTimeout 10000)])
       (if js_includes (url_after_auth env) authenticated_domain then
          before
            (tell [say [Emoji ''check mark'',
                        T '' Login successful! URL already contains redventures.atlassian.net''],
                   say [Emoji ''round pushpin'', T '' Current URL: '', T (url_after_auth env)]])
            (finishLogin env cfg opts EarlySettle)
        else
          before
            (tell [say [Emoji ''magnifying glass'',
                        T '' Waiting for URL to change to redventures.atlassian.net...'']])
            (catching
               (before (tell (snd (pollUrl env (url_after_auth env) 0 0)))
                  (case fst (pollUrl env (url_after_auth env) 0 0) of
                     Throws \<Rightarrow> raise
                   | Returns (Some u) \<Rightarrow>
                       before
                         (tell [say [Emoji ''check mark'',
                                     T '' Login successful! URL changed to redventures.atlassian.net''],
                                say [Emoji ''round pushpin'', T '' Current URL: '', T u]])
                         (finishLogin env cfg opts Settle)
                   | Returns None \<Rightarrow>
                       before
                         (tell [err [Emoji ''cross mark'',
                                     T '' URL did not change to redventures.atlassian.net within timeout''],
                                say [Emoji ''round pushpin'', T '' Current URL: '',
                                     T (url_after_auth env)]])
                         (yield (Failure [T ''URL did not change to redventures.atlassian.net - login may have failed'']))))
               (before
                  (tell [err [Emoji ''cross mark'', T '' Error waiting for URL change:'', ErrMessage],
                         say [Emoji ''round pushpin'', T '' Current URL: '', T (url_on_error env)]])
                  (yield (Failure [T ''Error waiting for URL change: '', ErrMessage])))))"

text \<open>
  From looking for the username input to the result (lines 1476 to 1585): fill the
  identity, press Enter and wait; without a visible username input, ask \<^verbatim>\<open>checkLoggedIn\<close>
  once more.
\<close>

definition loginCycle :: "login_env \<Rightarrow> config \<Rightarrow> login_options \<Rightarrow> login_result prog" where
  "loginCycle env cfg opts =
     before
       (inOrder
          [tell (say [Emoji ''magnifying glass'', T '' Looking for username input...'']
                 # (if username_appears env then []
                    else [say [Emoji ''warning'',
                               T '' Username input not found, checking if already logged in...'']])),
           attempt env UsernameProbe (IsVisible UsernameInput)])
       (if username_visible env then
          before
            (inOrder [tell [say [Emoji ''memo'', T '' Filling username...'']],
                    attempt env UsernameFill (Fill UsernameInput [T (email cfg)]),
                    tell [say [Emoji ''keyboard'', T '' Pressing Enter...'']],
                    attempt env EnterKey PressEnter])
            (awaitLogin env cfg opts)
        else
          before (tell (snd (checkLoggedIn (view_at env WithoutUsername))))
            (if fst (checkLoggedIn (view_at env WithoutUsername)) then
               before (tell [say [Emoji ''check mark'', T '' Already logged in!'']])
                 (reading (\<lambda>s. yield (Success (vBrowser s) (vPage s) (vContext s))))
             else
               before (tell [say [Emoji ''warning'', T '' Username input not found and not logged in'']])
                 (yield (Failure [T ''Could not find username input field'']))))"

text \<open>
  Lines 1360 to 1406: take the global browser, context and page when asked to (on a
  failure the three global variables are reset, while a local variable already assigned
  keeps its value), else launch a browser; without a page, take the browser's first context
  or a new one, replace it by one made from the saved state when there is one, and open a
  page.
\<close>

definition useGlobals :: "login_env \<Rightarrow> config \<Rightarrow> unit prog" where
  "useGlobals env cfg =
     catching
       (andThen (getGlobalBrowser env) (\<lambda>b.
          before (update (\<lambda>t. t\<lparr>vBrowser := Some b\<rparr>))
            (andThen (getGlobalContext env cfg) (\<lambda>c.
               before (update (\<lambda>t. t\<lparr>vContext := Some c\<rparr>))
                 (andThen (getGlobalPage env cfg) (\<lambda>p.
                    update (\<lambda>t. t\<lparr>vPage := Some p\<rparr>)))))))
       (inOrder
          [tell [warn [Emoji ''warning'',
                       T '' Global browser failed, falling back to fresh browser instance''],
                 warn [T ''Error:'', ErrMessage]],
           update (\<lambda>t. t\<lparr>globalBrowser := None, globalContext := None, globalPage := None\<rparr>)])"

definition newContext :: "login_env \<Rightarrow> site \<Rightarrow> jsval \<Rightarrow> unit prog" where
  "newContext env c storage =
     inOrder [attempt env c (NewContext storage),
            update (\<lambda>t. t\<lparr>vContext := Some (handle_of env c)\<rparr>)]"

definition openPage :: "login_env \<Rightarrow> config \<Rightarrow> unit prog" where
  "openPage env cfg =
     reading (\<lambda>s.
       inOrder
         [case existing_context env of
            Some c \<Rightarrow> update (\<lambda>t. t\<lparr>vContext := Some c\<rparr>)
          | None \<Rightarrow> newContext env FirstNewContext JUndef,
          tell (map Console (snd (loadBrowserState cfg (sessionFile s)))),
          if truthy (fst (loadBrowserState cfg (sessionFile s))) then
            catching
              (inOrder [newContext env ContextSaved (fst (loadBrowserState cfg (sessionFile s))),
                      tell [say [Emoji ''arrows'', T '' Using saved browser state'']]])
              (inOrder [tell [warn [Emoji ''warning'',
                                  T '' Failed to use saved state, creating fresh context'']],
                      newContext env ContextFresh JUndef])
          else yield (),
          attempt env FreshPage NewPage,
          update (\<lambda>t. t\<lparr>vPage := Some (handle_of env FreshPage)\<rparr>),
          attempt env FreshViewport SetViewport])"

definition acquire :: "login_env \<Rightarrow> config \<Rightarrow> login_options \<Rightarrow> unit prog" where
  "acquire env cfg opts =
     inOrder
       [if useGlobalBrowser opts then useGlobals env cfg else yield (),
        reading (\<lambda>s.
          if vBrowser s = None then
            inOrder [attempt env FreshLaunch Launch,
                   update (\<lambda>t. t\<lparr>vBrowser := Some (handle_of env FreshLaunch),
                                   shouldCloseBrowser := True\<rparr>)]
          else yield ()),
        reading (\<lambda>s. if vPage s = None then openPage env cfg else yield ())]"

text \<open>
  Lines 1408 to 1446: with a saved dashboard URL, go there, and return success when the
  create button (or its fallback) is visible. \<open>None\<close>: the function goes on.
\<close>

definition savedDashboard :: "config \<Rightarrow> disk_file \<Rightarrow> jsval option" where
  "savedDashboard cfg f =
     (let saved = fst (loadBrowserState cfg f) in
      if truthy saved \<and> truthy (js_field saved ''metadata'')
         \<and> truthy (js_field (js_field saved ''metadata'') ''dashboardUrl'')
      then Some (js_field (js_field saved ''metadata'') ''dashboardUrl'')
      else None)"

definition resume :: "login_env \<Rightarrow> config \<Rightarrow> login_result option prog" where
  "resume env cfg =
     reading (\<lambda>s.
       before (tell (map Console (snd (loadBrowserState cfg (sessionFile s)))))
         (case savedDashboard cfg (sessionFile s) of
            None \<Rightarrow> yield None
          | Some savedUrl \<Rightarrow>
              before (tell [say [Emoji ''arrows'', T '' Attempting to resume from saved dashboard...'']])
                (catching
                   (before
                      (inOrder [attempt env SavedGoto (GotoSaved savedUrl),
                              attempt env SavedWait (WaitTimeout 2000)])
                      (if create_visible (view_at env AtSavedDashboard)
                          \<or> fallback_visible (view_at env AtSavedDashboard)
                       then
                         before
                           (tell [say [Emoji ''check mark'',
                                       T '' Successfully resumed from saved state! Create button is visible.'']])
                           (reading (\<lambda>t. yield (Some (Success (vBrowser t) (vPage t) (vContext t)))))
                       else
                         before
                           (tell [say [Emoji ''warning'',
                                       T '' Saved state expired - create button not found, proceeding with fresh login'']])
                           (yield None)))
                   (before
                      (tell [say [Emoji ''warning'',
                                  T '' Could not resume from saved state, proceeding with fresh login'']])
                      (yield None)))))"

text \<open>
  Lines 1448 to 1474 and on: go to the dashboard; when \<^verbatim>\<open>checkLoggedIn\<close> says so, return
  success with the browser, page and context; else start the login cycle.
\<close>

definition fromDashboard :: "login_env \<Rightarrow> config \<Rightarrow> login_options \<Rightarrow> login_result prog" where
  "fromDashboard env cfg opts =
     before
       (inOrder [tell [say [Emoji ''mobile phone'', T '' Navigating to Jira board...'']],
               attempt env DashboardGoto (Goto (dashboardUrl cfg)),
               attempt env DashboardWait (WaitTimeout 2000),
               tell (snd (checkLoggedIn (view_at env AtDashboard)))])
       (if fst (checkLoggedIn (view_at env AtDashboard)) then
          before (tell [say [Emoji ''check mark'', T '' Already logged in!'']])
            (reading (\<lambda>t. yield (Success (vBrowser t) (vPage t) (vContext t))))
        else
          before
            (tell (if login_prompt (view_at env BeforeUsername)
                   then [say [Emoji ''locked with key'',
                              T '' Login prompt detected, proceeding with login...'']]
                   else []))
            (loginCycle env cfg opts))"

text \<open>
  \<^verbatim>\<open>loginToJira(options)\<close>. \<^verbatim>\<open>validateConfig()\<close> has an empty body, so its \<^verbatim>\<open>catch\<close> is
  never entered. The outer \<^verbatim>\<open>catch\<close> takes a screenshot (into the directory
  \<^verbatim>\<open>screenshots\<close> of the working directory) when a page exists and returns a failure;
  \<^verbatim>\<open>finally\<close> prints one line for a standalone run that launched its own browser.
\<close>

definition onLoginError :: "login_env \<Rightarrow> login_result prog" where
  "onLoginError env =
     before
       (inOrder
          [tell [err [Emoji ''cross mark'', T '' Error during login:'', ErrMessage]],
           reading (\<lambda>t.
             if vPage t \<noteq> None then
               catching
                 (inOrder [attempt env Shot TakeScreenshot,
                         tell [say [Emoji ''camera'', T '' Screenshot saved as '',
                                    T ''screenshots/login-error-screenshot.png'']]])
                 (tell [warn [Emoji ''warning'', T '' Could not save screenshot:'', ErrMessage]])
             else yield ())])
       (yield (Failure [ErrMessage]))"

definition loginToJira :: "login_env \<Rightarrow> config \<Rightarrow> login_options \<Rightarrow> login_result prog" where
  "loginToJira env cfg opts =
     before
       (inOrder
          [tell [say [Emoji ''closed lock with key'', T '' Attempting to login to Jira...''],
                 say [Emoji ''e-mail'', T '' Email: '', T (email cfg)],
                 say [Emoji ''globe'', T '' URL: '', T (dashboardUrl cfg)]],
           update (\<lambda>t. t\<lparr>vBrowser := None, vContext := None, vPage := None,
                           shouldCloseBrowser := False\<rparr>)])
       (ending
          (catching
             (before (acquire env cfg opts)
                (andThen (resume env cfg) (\<lambda>r.
                   case r of
                     Some res \<Rightarrow> yield res
                   | None \<Rightarrow> fromDashboard env cfg opts)))
             (onLoginError env))
          (reading (\<lambda>t.
             if standalone opts \<and> shouldCloseBrowser t
             then tell [say [Emoji ''chequered flag'',
                             T '' Login test completed. Browser will remain open for inspection.'']]
             else yield ())))"

text \<open>
  \<^verbatim>\<open>ensureLoggedIn(options)\<close> has no \<^verbatim>\<open>try\<close>: an exception of its own browser calls
  reaches the caller. It calls \<^verbatim>\<open>loginToJira\<close> when no session is saved, and calls it
  (again) when the page opened with the saved session is not logged in. The two calls and
  the code of the function itself each meet their own part of the world.
\<close>

record ensure_env =
  own :: login_env
  first_login :: login_env
  second_login :: login_env

definition freshLogin :: login_options where
  "freshLogin = \<lparr>saveState = True, standalone = False, useGlobalBrowser = False\<rparr>"

text \<open>
  Launch a browser, make a context (from the saved state when there is one) and a page, and
  go to the board. The result is the browser, the page and the context.
\<close>

definition openBoard :: "login_env \<Rightarrow> config \<Rightarrow> round \<Rightarrow> (nat \<times> nat \<times> nat) prog" where
  "openBoard env cfg r =
     reading (\<lambda>s.
       before
         (inOrder
            [attempt env (Board r BoardLaunch) Launch,
             tell (map Console (snd (loadBrowserState cfg (sessionFile s)))),
             if truthy (fst (loadBrowserState cfg (sessionFile s))) then
               inOrder [attempt env (Board r BoardContextSaved)
                        (NewContext (fst (loadBrowserState cfg (sessionFile s)))),
                      tell (if r = Restored
                            then [say [Emoji ''check mark'', T '' Restored session from saved state'']]
                            else [])]
             else attempt env (Board r BoardContextFresh) (NewContext JUndef),
             attempt env (Board r BoardPage) NewPage,
             attempt env (Board r BoardViewport) SetViewport,
             tell [say (if r = Restored
                        then [Emoji ''mobile phone'', T '' Navigating to Jira board...'']
                        else [Emoji ''mobile phone'', T '' Navigating to Jira board after login...''])],
             attempt env (Board r BoardGoto) (Goto (dashboardUrl cfg)),
             attempt env (Board r BoardWait) (WaitTimeout 2000)])
         (yield (handle_of env (Board r BoardLaunch),
                 handle_of env (Board r BoardPage),
                 handle_of env (Board r (if truthy (fst (loadBrowserState cfg (sessionFile s)))
                                         then BoardContextSaved else BoardContextFresh)))))"

definition closeBoard :: "login_env \<Rightarrow> round \<Rightarrow> unit prog" where
  "closeBoard env r =
     inOrder [attempt env (Board r BoardPageClose) ClosePage,
            attempt env (Board r BoardContextClose) CloseContext,
            attempt env (Board r BoardBrowserClose) CloseBrowser]"

text \<open>Lines 1699 to 1736: after the second login.\<close>

definition afterRelogin :: "ensure_env \<Rightarrow> config \<Rightarrow> login_result prog" where
  "afterRelogin env cfg =
     andThen (openBoard (own env) cfg Relogin) (\<lambda>(b, p, c).
       before (tell (snd (checkLoggedIn (view_at (own env) AtRelogin))))
         (if fst (checkLoggedIn (view_at (own env) AtRelogin)) then
            yield (Success (Some b) (Some p) (Some c))
          else
            before (closeBoard (own env) Relogin)
              (yield (Failure [T ''Still not logged in after login attempt'']))))"

text \<open>Lines 1650 to 1739: from the launch of the browser that gets the saved session.\<close>

definition withSavedSession :: "ensure_env \<Rightarrow> config \<Rightarrow> login_result prog" where
  "withSavedSession env cfg =
     andThen (openBoard (own env) cfg Restored) (\<lambda>(b, p, c).
       before (tell (snd (checkLoggedIn (view_at (own env) AtRestored))))
         (if fst (checkLoggedIn (view_at (own env) AtRestored)) then
            yield (Success (Some b) (Some p) (Some c))
          else
            before
              (inOrder [tell [say [Emoji ''closed lock with key'',
                                 T '' Not logged in. Attempting to login...'']],
                      closeBoard (own env) Restored])
              (andThen (loginToJira (second_login env) cfg freshLogin) (\<lambda>r.
                 case r of
                   Failure e \<Rightarrow> yield (Failure e)
                 | Success b' p' c' \<Rightarrow> afterRelogin env cfg))))"

definition ensureLoggedIn :: "ensure_env \<Rightarrow> config \<Rightarrow> login_result prog" where
  "ensureLoggedIn env cfg =
     reading (\<lambda>s.
       before (tell (map Console (snd (loadBrowserState cfg (sessionFile s)))))
         (if \<not> truthy (fst (loadBrowserState cfg (sessionFile s))) then
            before (tell [say [Emoji ''closed lock with key'',
                               T '' No saved session found. Logging in first...'']])
              (andThen (loginToJira (first_login env) cfg freshLogin) (\<lambda>r.
                 case r of
                   Failure e \<Rightarrow> yield (Failure e)
                 | Success b p c \<Rightarrow>
                     before
                       (tell [say [Emoji ''arrows'',
                                   T '' Creating new browser session with saved state...'']])
                       (withSavedSession env cfg)))
          else withSavedSession env cfg))"

section \<open>Observations on logging in\<close>

text \<open>
  What a part of the login code adds to the trace, and whether it returns: \<open>adds P n m\<close>
  says that \<open>m\<close> only appends to the trace, and at most \<open>n\<close> events that satisfy \<open>P\<close>;
  \<open>yields R m\<close> says that \<open>m\<close> returns, a value that satisfies \<open>R\<close>.
\<close>

definition added :: "'a prog \<Rightarrow> lstate \<Rightarrow> event list" where
  "added m s = drop (length (history s)) (history (snd (m s)))"

definition adds :: "(event \<Rightarrow> bool) \<Rightarrow> nat \<Rightarrow> 'a prog \<Rightarrow> bool" where
  "adds P n m =
     (\<forall>s. history (snd (m s)) = history s @ added m s \<and> length (filter P (added m s)) \<le> n)"

definition yields :: "('a \<Rightarrow> bool) \<Rightarrow> 'a prog \<Rightarrow> bool" where
  "yields R m = (\<forall>s. \<exists>x. fst (m s) = Returns x \<and> R x)"

definition anything :: "'a \<Rightarrow> bool" where
  "anything x = True"

text \<open>
  The marker of a session that is already authenticated, as \<^verbatim>\<open>checkLoggedIn\<close> tests it:
  the create button (or its fallback) is visible and the heading does not ask to log in.
\<close>

definition authenticated_marker :: "page_view \<Rightarrow> bool" where
  "authenticated_marker v = (\<not> login_prompt v \<and> (create_visible v \<or> fallback_visible v))"

text \<open>
  The events of a login cycle: filling the username, pressing Enter, the ten seconds left
  for the fingerprint, and the polling loop, which prints a line when it is entered and
  waits one second in each iteration.
\<close>

definition polling_line :: event where
  "polling_line =
     say [Emoji ''magnifying glass'', T '' Waiting for URL to change to redventures.atlassian.net...'']"

fun login_action :: "action \<Rightarrow> bool" where
  "login_action (Fill t ps) = (t = UsernameInput)"
| "login_action PressEnter = True"
| "login_action (WaitTimeout n) = (n = 10000 \<or> n = 1000)"
| "login_action a = False"

fun cycle_event :: "event \<Rightarrow> bool" where
  "cycle_event (Act a) = login_action a"
| "cycle_event (Threw a) = login_action a"
| "cycle_event e = (e = polling_line)"

text \<open>
  The browser calls of \<^verbatim>\<open>loginToJira\<close> up to the first look at the dashboard that are
  outside every inner \<^verbatim>\<open>try\<close>: when one of them throws, the function returns a failure.
\<close>

definition opening_sites :: "site list" where
  "opening_sites =
     [FreshLaunch, FirstNewContext, ContextFresh, FreshPage, FreshViewport, DashboardGoto,
      DashboardWait]"

definition is_success :: "login_result \<Rightarrow> bool" where
  "is_success r = (case r of Success b p c \<Rightarrow> True | Failure e \<Rightarrow> False)"

text \<open>Examples: a page that asks to log in, the board, and a world where nothing throws.\<close>

definition login_page :: page_view where
  "login_page =
     \<lparr>heading_visible = True, heading_text = Some ''Log in to continue'', create_visible = False,
      fallback_visible = False, view_url = ''https://id.atlassian.com/login''\<rparr>"

definition board_page :: page_view where
  "board_page =
     \<lparr>heading_visible = False, heading_text = None, create_visible = True,
      fallback_visible = False, view_url = ''https://redventures.atlassian.net/jira/software''\<rparr>"

definition calm_env :: login_env where
  "calm_env =
     \<lparr>throws_at = (\<lambda>c. False), handle_of = (\<lambda>c. 1), existing_context = None,
      info_write = Written, view_at = (\<lambda>v. login_page), username_appears = True,
      username_visible = True, url_after_auth = ''https://id.atlassian.com/login'',
      poll_url = (\<lambda>k. if k < 3 then ''https://id.atlassian.com/login''
                         else ''https://redventures.atlassian.net/jira/software''),
      jitter = (\<lambda>k. 7), url_on_error = ''https://id.atlassian.com/login'',
      stored_state = Some (Returns [(''cookies'', JArr []), (''origins'', JArr [])]),
      url_at_save = ''https://redventures.atlassian.net/jira/software'',
      clock_iso = ''2025-01-01T00:00:00.000Z'', session_write = Written\<rparr>"

definition first_state :: lstate where
  "first_state =
     \<lparr>history = [], globalBrowser = None, globalContext = None, globalPage = None,
      sessionFile = Missing, vBrowser = None, vContext = None, vPage = None,
      shouldCloseBrowser = False\<rparr>"

text \<open>
  The polling loop seen from outside. \<open>time_at env k\<close> is the time since the start of the
  loop at its \<open>k\<close>-th look at the URL (counting from 0), \<open>polled env k\<close> says that the loop
  gets to that look: the 60 seconds are not over, no earlier look found the domain and no
  earlier wait threw. \<open>observed env\<close>: some look of the loop finds the domain (each wait
  takes a second at least, so the loop has fewer than 60 looks).
\<close>

definition at_domain :: "string \<Rightarrow> bool" where
  "at_domain u = js_includes u authenticated_domain"

primrec time_at :: "login_env \<Rightarrow> nat \<Rightarrow> nat" where
  "time_at env 0 = 0"
| "time_at env (Suc k) = time_at env k + 1000 + jitter env k"

definition polled :: "login_env \<Rightarrow> nat \<Rightarrow> bool" where
  "polled env k =
     (time_at env k < 60000
      \<and> (\<forall>j<k. \<not> at_domain (poll_url env j) \<and> \<not> throws_at env (PollWait j)))"

definition observed :: "login_env \<Rightarrow> bool" where
  "observed env = (\<exists>k<60. polled env k \<and> at_domain (poll_url env k))"

definition poll_wait :: "event \<Rightarrow> bool" where
  "poll_wait e = (e = Act (WaitTimeout 1000) \<or> e = Threw (WaitTimeout 1000))"


text \<open>
  The host of a URL: what stands between \<^verbatim>\<open>//\<close> and the next \<^verbatim>\<open>/\<close>, \<^verbatim>\<open>?\<close>, \<^verbatim>\<open>#\<close> or
  \<^verbatim>\<open>:\<close>. The location is at the authenticated domain when this is the domain.
\<close>

fun after_slashes :: "string \<Rightarrow> string" where
  "after_slashes (a # b # cs) =
     (if a = CHR ''/'' \<and> b = CHR ''/'' then cs else after_slashes (b # cs))"
| "after_slashes cs = []"

definition host_of :: "string \<Rightarrow> string" where
  "host_of u = takeWhile (\<lambda>c. c \<notin> set ''/?#:'') (after_slashes u)"

text \<open>
  Two more examples: the world of \<open>calm_env\<close> where the two-second wait after the polling
  loop throws; and one where the login page, which names the site to continue to in its
  query, is still shown after the ten seconds.
\<close>

definition settle_env :: login_env where
  "settle_env = calm_env\<lparr>throws_at := (\<lambda>c. c = Settle)\<rparr>"

definition redirect_env :: login_env where
  "redirect_env =
     calm_env\<lparr>url_after_auth :=
       ''https://id.atlassian.com/login?continue=https%3A%2F%2Fredventures.atlassian.net%2Fjira''\<rparr>"

section \<open>Properties of the session-state store\<close>

lemma loadBrowserState_result:
  "fst (loadBrowserState cfg f) = JNull
   \<or> (\<exists>state. f = Doc state \<and> fst (loadBrowserState cfg f) = state)"
  by (auto simp: loadBrowserState_def Let_def split: disk_file.splits outcome.splits)

lemma loadBrowserState_Doc_matches:
  assumes "fst (loadBrowserState cfg (Doc state)) \<noteq> JNull"
      and "js_get state ''metadata'' = Returns md" and "truthy md"
  shows "js_field md ''baseUrl'' = JStr (baseUrl cfg) \<and> js_field md ''userEmail'' = JStr (email cfg)"
  using assms by (auto simp: loadBrowserState_def Let_def split: if_splits)

text \<open>
  C1, as the specification states it, has \<^verbatim>\<open>loadBrowserState\<close> log a warning in each of
  the three failing cases. With the default configuration and no session-state file the
  function returns \<^verbatim>\<open>null\<close> and prints nothing at all: the \<^verbatim>\<open>existsSync\<close> guard has no
  \<^verbatim>\<open>else\<close> branch.
\<close>

theorem loadBrowserState_missing_file_is_silent:
  "loadBrowserState default_config Missing = (JNull, [])"
  by (simp add: loadBrowserState_def)

text \<open>
  C1, amended: \<^verbatim>\<open>loadBrowserState\<close> returns \<^verbatim>\<open>null\<close> without any console output when the
  file is missing; it returns \<^verbatim>\<open>null\<close> and prints a \<^verbatim>\<open>console.warn\<close> line when the file
  cannot be read or parsed; it returns \<^verbatim>\<open>null\<close> and prints a line marked with the warning
  sign when the stored metadata's base URL or account email differs from the configured
  one; and whatever it returns other than \<^verbatim>\<open>null\<close> is the stored document, whose
  metadata (when it has any) carries the configured base URL and account email.
\<close>

theorem loadBrowserState_contract:
  "loadBrowserState cfg Missing = (JNull, [])
   \<and> loadBrowserState cfg Unreadable = (JNull, [warn_could_not_load])
   \<and> loadBrowserState cfg Malformed = (JNull, [warn_could_not_load])
   \<and> is_warning warn_could_not_load
   \<and> is_warning log_different_instance
   \<and> (js_get state ''metadata'' = Returns md \<longrightarrow> truthy md \<longrightarrow>
        js_field md ''baseUrl'' \<noteq> JStr (baseUrl cfg) \<or> js_field md ''userEmail'' \<noteq> JStr (email cfg) \<longrightarrow>
        loadBrowserState cfg (Doc state) = (JNull, [log_different_instance]))
   \<and> (fst (loadBrowserState cfg f) = v \<longrightarrow> v \<noteq> JNull \<longrightarrow>
        js_get v ''metadata'' = Returns md' \<longrightarrow> truthy md' \<longrightarrow>
        f = Doc v \<and> js_field md' ''baseUrl'' = JStr (baseUrl cfg)
        \<and> js_field md' ''userEmail'' = JStr (email cfg))"
proof -
  have mismatch: "loadBrowserState cfg (Doc state) = (JNull, [log_different_instance])"
    if "js_get state ''metadata'' = Returns md" "truthy md"
       "js_field md ''baseUrl'' \<noteq> JStr (baseUrl cfg) \<or> js_field md ''userEmail'' \<noteq> JStr (email cfg)"
    using that by (auto simp: loadBrowserState_def Let_def)
  have never: "f = Doc v \<and> js_field md' ''baseUrl'' = JStr (baseUrl cfg)
      \<and> js_field md' ''userEmail'' = JStr (email cfg)"
    if "fst (loadBrowserState cfg f) = v" "v \<noteq> JNull"
       "js_get v ''metadata'' = Returns md'" "truthy md'"
  proof -
    from that(1,2) loadBrowserState_result [of cfg f] have "f = Doc v" by auto
    with that loadBrowserState_Doc_matches [of cfg v md'] show ?thesis by simp
  qed
  show ?thesis
    using mismatch never
    by (simp add: loadBrowserState_def warn_could_not_load_def log_different_instance_def)
qed

theorem loadBrowserState_contract_witness:
  "loadBrowserState default_config
     (Doc (JObj [(''cookies'', JArr []),
                 (''metadata'', JObj [(''baseUrl'', JStr ''https://example.atlassian.net''),
                                      (''userEmail'', JStr ''olwin@redventures.com'')])]))
     = (JNull, [log_different_instance])
   \<and> fst (loadBrowserState default_config
       (Doc (JObj [(''cookies'', JArr []),
                   (''metadata'', JObj [(''baseUrl'', JStr ''https://redventures.atlassian.net''),
                                        (''userEmail'', JStr ''olwin@redventures.com'')])])))
     \<noteq> JNull
   \<and> js_field (JObj [(''baseUrl'', JStr ''https://redventures.atlassian.net''),
                     (''userEmail'', JStr ''olwin@redventures.com'')]) ''userEmail''
     = JStr (email default_config)"
  using loadBrowserState_contract
    [of default_config
        "JObj [(''cookies'', JArr []),
               (''metadata'', JObj [(''baseUrl'', JStr ''https://example.atlassian.net''),
                                    (''userEmail'', JStr ''olwin@redventures.com'')])]"
        "JObj [(''baseUrl'', JStr ''https://example.atlassian.net''),
               (''userEmail'', JStr ''olwin@redventures.com'')]"
        "Doc (JObj [(''cookies'', JArr []),
                    (''metadata'', JObj [(''baseUrl'', JStr ''https://redventures.atlassian.net''),
                                         (''userEmail'', JStr ''olwin@redventures.com'')])])"
        "JObj [(''cookies'', JArr []),
               (''metadata'', JObj [(''baseUrl'', JStr ''https://redventures.atlassian.net''),
                                    (''userEmail'', JStr ''olwin@redventures.com'')])]"
        "JObj [(''baseUrl'', JStr ''https://redventures.atlassian.net''),
               (''userEmail'', JStr ''olwin@redventures.com'')]"]
  by (simp add: default_config_def loadBrowserState_def js_field_def js_or_def)

text \<open>
  C2: saving a session state \<open>s\<close> with \<^verbatim>\<open>saveBrowserState\<close> (the browser has a context
  whose \<^verbatim>\<open>storageState()\<close> is \<open>s\<close>, and the file is written) and then loading it with
  \<^verbatim>\<open>loadBrowserState\<close> under the same configuration returns the saved document: every
  entry of \<open>s\<close> other than \<^verbatim>\<open>metadata\<close> reads as it does in \<open>s\<close>, and the added metadata
  carries the configured account email and base URL.
\<close>

theorem save_then_load_roundtrip:
  assumes "first_context env = Some (Returns s)" and "state_write env = Written"
  shows "fst (loadBrowserState cfg (fst (saveBrowserState cfg env f))) = enhancedState cfg env s
       \<and> (\<forall>k. k \<noteq> ''metadata'' \<longrightarrow> js_get (enhancedState cfg env s) k = js_get (JObj s) k)
       \<and> js_field (js_field (enhancedState cfg env s) ''metadata'') ''userEmail'' = JStr (email cfg)
       \<and> js_field (js_field (enhancedState cfg env s) ''metadata'') ''baseUrl'' = JStr (baseUrl cfg)"
  using assms
  by (auto simp: loadBrowserState_def saveBrowserState_def enhancedState_def Let_def js_field_def
      js_or_def update_conv' split: option.splits)

theorem save_then_load_roundtrip_witness:
  "fst (loadBrowserState default_config
     (fst (saveBrowserState default_config
        \<lparr>first_context = Some (Returns [(''cookies'', JArr [JObj [(''name'', JStr ''sid'')]]),
                                        (''origins'', JArr [])]),
         page_url = Some ''https://redventures.atlassian.net/jira'',
         now_iso = ''2025-01-01T00:00:00.000Z'',
         state_write = Written\<rparr>
        Missing)))
   = JObj [(''cookies'', JArr [JObj [(''name'', JStr ''sid'')]]),
           (''origins'', JArr []),
           (''metadata'',
            JObj [(''savedAt'', JStr ''2025-01-01T00:00:00.000Z''),
                  (''dashboardUrl'', JStr ''https://redventures.atlassian.net/jira''),
                  (''baseUrl'', JStr ''https://redventures.atlassian.net''),
                  (''userEmail'', JStr ''olwin@redventures.com'')])]"
  using save_then_load_roundtrip
    [of "\<lparr>first_context = Some (Returns [(''cookies'', JArr [JObj [(''name'', JStr ''sid'')]]),
                                          (''origins'', JArr [])]),
           page_url = Some ''https://redventures.atlassian.net/jira'',
           now_iso = ''2025-01-01T00:00:00.000Z'',
           state_write = Written\<rparr>"
        "[(''cookies'', JArr [JObj [(''name'', JStr ''sid'')]]), (''origins'', JArr [])]"
        default_config Missing]
  by (simp add: enhancedState_def default_config_def)

text \<open>
  C9: a session-state file that parses and has no metadata (the property is absent, or
  holds a falsy value; the legacy format) is returned as it is, whatever the configured
  account email and base URL are: nothing of the configuration is compared.
\<close>

theorem loadBrowserState_legacy:
  assumes "js_get state ''metadata'' = Returns md" and "\<not> truthy md"
  shows "loadBrowserState cfg (Doc state) = (state, [log_legacy])"
  using assms by (simp add: loadBrowserState_def)

theorem loadBrowserState_legacy_witness:
  "loadBrowserState
     \<lparr>baseUrl = ''https://other.example'', dashboardUrl = ''https://other.example/board'',
      email = ''someone@other.example''\<rparr>
     (Doc (JObj [(''cookies'', JArr [JObj [(''name'', JStr ''sid'')]]), (''origins'', JArr [])]))
   = (JObj [(''cookies'', JArr [JObj [(''name'', JStr ''sid'')]]), (''origins'', JArr [])],
      [log_legacy])"
  using loadBrowserState_legacy
    [of "JObj [(''cookies'', JArr [JObj [(''name'', JStr ''sid'')]]), (''origins'', JArr [])]"
        JUndef
        "\<lparr>baseUrl = ''https://other.example'', dashboardUrl = ''https://other.example/board'',
          email = ''someone@other.example''\<rparr>"]
  by simp

section \<open>Properties of ticket creation\<close>

lemma aborted_emit [simp]: "aborted (emit es s) = aborted s"
  by (simp add: emit_def)

lemma toSave_emit [simp]: "toSave (emit es s) = toSave s"
  by (simp add: emit_def)

lemma events_emit [simp]: "events (emit es s) = events s @ es"
  by (simp add: emit_def)

lemma aborted_throw [simp]: "aborted (throw s)"
  by (simp add: throw_def)

lemma toSave_throw [simp]: "toSave (throw s) = toSave s"
  by (simp add: throw_def)

lemma events_throw [simp]: "events (throw s) = events s"
  by (simp add: throw_def)

lemma emit_emit: "emit es (emit es' s) = emit (es' @ es) s"
  by (simp add: emit_def)

lemma not_found_is_warning: "is_warning_event (not_found f)"
  by (simp add: not_found_def say_def)

lemma fillFields_nothing_visible:
  assumes "\<not> aborted s" and "no_field_visible env"
  shows "\<not> aborted (fillFields env saved tmpl s) \<and> toSave (fillFields env saved tmpl s) = toSave s"
  using assms
  by (simp add: fillFields_def no_field_visible_def workTypeStep_def summaryStep_def
      componentsStep_def selectStep_def textStep_def keyStakeholderStep_def formFilledNote_def Let_def)

text \<open>
  C8: a field-filling step whose field is not visible (for the work type: neither the input
  found through the label nor the one found by the fallback selectors) prints its heading
  and a warning that the field was not found, touches neither the page nor
  \<^verbatim>\<open>optionsToSave\<close>, and raises no exception, so the next step runs; with all ten fields
  missing the ten steps run to the end without an exception.
\<close>

theorem missing_field_is_skipped:
  assumes "\<not> aborted s"
  shows "(\<not> workTypeInputVisible env \<longrightarrow>
           workTypeStep env saved tmpl s = emit [say (heading WorkType), not_found WorkType] s)
       \<and> (\<not> visible env (FieldVisible Summary) \<longrightarrow>
           summaryStep env tmpl s = emit [say (heading Summary), not_found Summary] s)
       \<and> (\<not> visible env (FieldVisible Components) \<longrightarrow>
           componentsStep env saved tmpl s = emit [say (heading Components), not_found Components] s)
       \<and> (\<not> visible env (FieldVisible f) \<longrightarrow>
           selectStep env saved tmpl f s = emit [say (heading f), not_found f] s
           \<and> textStep env tmpl f s = emit [say (heading f), not_found f] s)
       \<and> (\<not> visible env (FieldVisible KeyStakeholder) \<longrightarrow>
           keyStakeholderStep env tmpl s
           = emit [say (heading KeyStakeholder), not_found KeyStakeholder] s)
       \<and> is_warning_event (not_found f)
       \<and> \<not> aborted (emit [say (heading f), not_found f] s)
       \<and> toSave (emit [say (heading f), not_found f] s) = toSave s
       \<and> (no_field_visible env \<longrightarrow>
           \<not> aborted (fillFields env saved tmpl s)
           \<and> toSave (fillFields env saved tmpl s) = toSave s)"
  using assms fillFields_nothing_visible [of s env saved tmpl]
  by (simp add: workTypeStep_def summaryStep_def componentsStep_def selectStep_def textStep_def
      keyStakeholderStep_def Let_def emit_emit not_found_is_warning)

theorem missing_field_is_skipped_witness:
  "selectStep quiet_env JNull JNull RiskAssessment fresh
     = emit [say (heading RiskAssessment), not_found RiskAssessment] fresh
   \<and> workTypeStep quiet_env JNull JNull fresh
     = emit [say (heading WorkType), not_found WorkType] fresh
   \<and> \<not> aborted (fillFields quiet_env JNull JNull fresh)
   \<and> toSave (fillFields quiet_env JNull JNull fresh) = []"
proof -
  have na: "\<not> aborted fresh" by (simp add: fresh_def)
  have unseen: "no_field_visible quiet_env"
    by (simp add: no_field_visible_def workTypeInputVisible_def quiet_env_def)
  have hidden: "\<not> visible quiet_env (FieldVisible RiskAssessment)" "\<not> workTypeInputVisible quiet_env"
    by (simp_all add: workTypeInputVisible_def quiet_env_def)
  note skipped = missing_field_is_skipped [OF na, of quiet_env JNull JNull RiskAssessment]
  from skipped hidden
  have steps: "selectStep quiet_env JNull JNull RiskAssessment fresh
      = emit [say (heading RiskAssessment), not_found RiskAssessment] fresh"
    "workTypeStep quiet_env JNull JNull fresh = emit [say (heading WorkType), not_found WorkType] fresh"
    by blast+
  from skipped unseen
  have "\<not> aborted (fillFields quiet_env JNull JNull fresh)
      \<and> toSave (fillFields quiet_env JNull JNull fresh) = toSave fresh" by blast
  with steps show ?thesis by (simp add: fresh_def)
qed

lemma prompts_append [simp]: "prompts (xs @ ys) = prompts xs @ prompts ys"
  by (induction xs rule: prompts.induct) auto

lemma fills_append [simp]: "fills (xs @ ys) = fills xs @ fills ys"
  by (induction xs rule: fills.induct) auto

lemma prompts_say [simp]: "prompts (say ps # es) = prompts es"
  by (simp add: say_def)

lemma fills_say [simp]: "fills (say ps # es) = fills es"
  by (simp add: say_def)

lemma prompts_warn [simp]: "prompts (warn ps # es) = prompts es"
  by (simp add: warn_def)

lemma fills_warn [simp]: "fills (warn ps # es) = fills es"
  by (simp add: warn_def)

lemma run_items_None: "run_items None items = (map item_event items, True)"
proof (induction items)
  case Nil
  then show ?case by simp
next
  case (Cons a items)
  then show ?case by (cases a) auto
qed

lemma prompts_run_items [simp]: "prompts (fst (run_items fa items)) = []"
  by (induction fa items rule: run_items.induct) (auto split: prod.splits)

lemma fills_run_items_none:
  "list_all (\<lambda>i. case i of Do (Fill t x) \<Rightarrow> False | _ \<Rightarrow> True) items \<Longrightarrow>
   fills (fst (run_items fa items)) = []"
  by (induction fa items rule: run_items.induct) (auto split: prod.splits action.splits)

lemma prompts_print_while [simp]: "prompts (fst (print_while ok f xs)) = []"
  by (induction xs) (auto split: prod.splits)

lemma fills_print_while [simp]: "fills (fst (print_while ok f xs)) = []"
  by (induction xs) (auto split: prod.splits)

lemma print_while_all: "list_all ok xs \<Longrightarrow> snd (print_while ok f xs) = True"
  by (induction xs) (auto split: prod.splits)

lemma getAutocompleteOptions_quiet:
  "prompts (snd (getAutocompleteOptions env f)) = []
   \<and> fills (snd (getAutocompleteOptions env f)) = []"
proof -
  let ?items = "[Do (WaitForSelector (Selector f)), Do (Click (Selector f)), Do (WaitTimeout 500),
              Do (WaitTimeout 500), Do (Evaluate (Listbox f))]"
  have "fills (fst (run_items (fail_at env (ScrapeOf f)) ?items)) = []"
    by (rule fills_run_items_none) simp
  moreover have "prompts (fst (run_items (fail_at env (ScrapeOf f)) ?items)) = []" by simp
  ultimately show ?thesis
    by (auto simp: getAutocompleteOptions_def split_beta split: bool.splits)
qed

lemma obtain_options_quiet:
  assumes "obtain_options env saved f s = (r, s')"
  shows "prompts (events s') = prompts (events s) \<and> fills (events s') = fills (events s)"
  using assms getAutocompleteOptions_quiet [of env f]
  by (auto simp: obtain_options_def split_beta split: cache_lookup.splits)

lemma obtain_options_Some_aborted:
  assumes "obtain_options env saved f s = (Some opts, s')"
  shows "aborted s' = aborted s"
  using assms
  by (auto simp: obtain_options_def split_beta split: cache_lookup.splits)

lemma list_options_quiet:
  "prompts (events (snd (list_options f opts s))) = prompts (events s)
   \<and> fills (events (snd (list_options f opts s))) = fills (events s)"
  by (simp add: list_options_def split_beta)

lemma list_options_ok:
  "list_all (\<lambda>ot. stringable (opt_text ot)) opts \<Longrightarrow> fst (list_options f opts s) = True"
  using print_while_all [of "\<lambda>ot. stringable (opt_text ot)" opts option_line]
  by (simp add: list_options_def split_beta)

lemma strict_eq_eq: "strict_eq a b \<Longrightarrow> a = b"
  by (induction a b rule: strict_eq.induct) auto

lemma fill_single_smooth:
  assumes "fail_at env (FillOf f) = None"
  shows "prompts (events (fill_single env f ot s)) = prompts (events s)
       \<and> fills (events (fill_single env f ot s)) = fills (events s) @ [(Input f, [V (opt_text ot)])]"
  using assms
  by (simp add: fill_single_def run_block_def run_items_None fill_items_def)

lemma js_trim_empty_parseInt: "js_trim s = [] \<Longrightarrow> parseInt s = None"
proof -
  assume "js_trim s = []"
  then have *: "dropWhile is_space (rev (dropWhile is_space s)) = []" by (simp add: js_trim_def)
  have "dropWhile is_space s = []"
  proof (rule ccontr)
    assume ne: "dropWhile is_space s \<noteq> []"
    then obtain c cs where c: "dropWhile is_space s = c # cs" by (cases "dropWhile is_space s") auto
    then have "\<not> is_space c" by (metis dropWhile_eq_Cons_conv)
    moreover from * have "\<forall>x\<in>set (rev (dropWhile is_space s)). is_space x"
      by (simp add: dropWhile_eq_Nil_conv)
    ultimately show False using c by simp
  qed
  then have "takeWhile (is_digit_in 10) (dropWhile is_space s) = []" by (simp only: takeWhile.simps)
  with \<open>dropWhile is_space s = []\<close> show ?thesis
    unfolding parseInt_def by (simp only: Let_def list.case if_True if_False refl)
qed

lemma js_trim_empty_chosen_index: "js_trim s = [] \<Longrightarrow> chosen_index s n = None"
  by (simp add: chosen_index_def js_trim_empty_parseInt)

lemma find_strict_eq:
  assumes "list_ex (\<lambda>ot. strict_eq (opt_text ot) v) opts"
  shows "\<exists>ot. find (\<lambda>ot. strict_eq (opt_text ot) v) opts = Some ot \<and> opt_text ot = v"
proof -
  from assms have "find (\<lambda>ot. strict_eq (opt_text ot) v) opts \<noteq> None"
    by (auto simp: find_None_iff list_ex_iff)
  then obtain ot where f: "find (\<lambda>ot. strict_eq (opt_text ot) v) opts = Some ot" by auto
  then have "strict_eq (opt_text ot) v" by (auto simp: find_Some_iff)
  with f show ?thesis by (auto dest: strict_eq_eq)
qed

lemma from_template_present:
  assumes "template_value tmpl f = Some v" and "list_ex (\<lambda>ot. strict_eq (opt_text ot) v) opts"
  shows "\<exists>ot. from_template tmpl f opts = Some ot \<and> opt_text ot = v"
  using find_strict_eq [OF assms(2)] assms(1) by (simp add: from_template_def)

lemma list_options_listed:
  assumes "list_all (\<lambda>ot. stringable (opt_text ot)) opts"
  shows "\<exists>s3. list_options f opts s = (True, s3) \<and> prompts (events s3) = prompts (events s)
           \<and> fills (events s3) = fills (events s)"
  using list_options_ok [OF assms, of f s] list_options_quiet [of f opts s]
  by (cases "list_options f opts s") auto

lemma selectStep_choice:
  assumes na: "\<not> aborted s" and vis: "visible env (FieldVisible f)"
      and oo: "obtain_options env saved f (emit [say (heading f)] s) = (Some opts, s2)"
      and ne: "opts \<noteq> []" and str: "list_all (\<lambda>ot. stringable (opt_text ot)) opts"
      and ok: "fail_at env (FillOf f) = None"
  shows "(template_value tmpl f = Some v \<longrightarrow> list_ex (\<lambda>ot. strict_eq (opt_text ot) v) opts \<longrightarrow>
            prompts (events (selectStep env saved tmpl f s)) = prompts (events s)
            \<and> fills (events (selectStep env saved tmpl f s)) = fills (events s) @ [(Input f, [V v])])
       \<and> (from_template tmpl f opts = None \<longrightarrow>
            prompts (events (selectStep env saved tmpl f s)) = prompts (events s) @ [AskField f])
       \<and> (from_template tmpl f opts = None \<longrightarrow>
            js_trim (answer env (AskField f)) = []
            \<or> chosen_index (answer env (AskField f)) (length opts) = None \<longrightarrow>
            fills (events (selectStep env saved tmpl f s)) = fills (events s))"
proof -
  from obtain_options_quiet [OF oo]
  have q2: "prompts (events s2) = prompts (events s)" "fills (events s2) = fills (events s)"
    by simp_all
  from list_options_listed [OF str, of f s2] obtain s3
    where lo: "list_options f opts s2 = (True, s3)"
      and q3: "prompts (events s3) = prompts (events s2)" "fills (events s3) = fills (events s2)"
    by auto
  have step: "selectStep env saved tmpl f s =
      (case from_template tmpl f opts of
         Some ot \<Rightarrow>
           fill_single env f ot
             (emit [say [Emoji ''clipboard'', T ('' Using template '' @ field_noun f @ '': ''),
                         V (opt_text ot)]] s3)
       | None \<Rightarrow>
           (let s4 = emit [Prompt (AskField f)
                             [T (''\<newline>Select '' @ field_noun f @ '' (1-''), N (length opts),
                              T '', or press Enter to skip): '']] s3
            in case (if js_trim (answer env (AskField f)) \<noteq> []
                     then chosen_index (answer env (AskField f)) (length opts) else None) of
                 Some i \<Rightarrow> fill_single env f (opts ! i) s4
               | None \<Rightarrow> emit [say [Emoji ''check mark'', T ('' Skipping '' @ field_noun f)]] s4))"
    using na vis oo ne lo by (simp add: selectStep_def Let_def)
  have a: "prompts (events (selectStep env saved tmpl f s)) = prompts (events s)
        \<and> fills (events (selectStep env saved tmpl f s)) = fills (events s) @ [(Input f, [V v])]"
    if "template_value tmpl f = Some v" "list_ex (\<lambda>ot. strict_eq (opt_text ot) v) opts"
  proof -
    from from_template_present [OF that] obtain ot
      where "from_template tmpl f opts = Some ot" "opt_text ot = v" by auto
    then show ?thesis
      using step fill_single_smooth [OF ok] q2 q3 by simp
  qed
  have b: "prompts (events (selectStep env saved tmpl f s)) = prompts (events s) @ [AskField f]"
    if "from_template tmpl f opts = None"
    using that step fill_single_smooth [OF ok] q2 q3
    by (auto simp: Let_def split: option.splits)
  have c: "fills (events (selectStep env saved tmpl f s)) = fills (events s)"
    if "from_template tmpl f opts = None"
       "js_trim (answer env (AskField f)) = []
        \<or> chosen_index (answer env (AskField f)) (length opts) = None"
    using that step q2 q3 by (auto simp: Let_def)
  from a b c show ?thesis by blast
qed

lemma workTypeStep_choice:
  assumes na: "\<not> aborted s" and vis: "workTypeInputVisible env"
      and oo: "obtain_options env saved WorkType (emit [say (heading WorkType)] s) = (Some opts, s2)"
      and ne: "opts \<noteq> []" and str: "list_all (\<lambda>ot. stringable (opt_text ot)) opts"
      and ok: "fail_at env (FillOf WorkType) = None"
  shows "(template_value tmpl WorkType = Some v \<longrightarrow> list_ex (\<lambda>ot. strict_eq (opt_text ot) v) opts \<longrightarrow>
            prompts (events (workTypeStep env saved tmpl s)) = prompts (events s)
            \<and> fills (events (workTypeStep env saved tmpl s))
              = fills (events s) @ [(Input WorkType, [V v])])
       \<and> (from_template tmpl WorkType opts = None \<longrightarrow>
            prompts (events (workTypeStep env saved tmpl s)) = prompts (events s) @ [AskField WorkType])
       \<and> (from_template tmpl WorkType opts = None \<longrightarrow>
            js_trim (answer env (AskField WorkType)) = []
            \<or> chosen_index (answer env (AskField WorkType)) (length opts) = None \<longrightarrow>
            fills (events (workTypeStep env saved tmpl s)) = fills (events s))"
proof -
  from obtain_options_quiet [OF oo]
  have q2: "prompts (events s2) = prompts (events s)" "fills (events s2) = fills (events s)"
    by simp_all
  from list_options_listed [OF str, of WorkType s2] obtain s3
    where lo: "list_options WorkType opts s2 = (True, s3)"
      and q3: "prompts (events s3) = prompts (events s2)" "fills (events s3) = fills (events s2)"
    by auto
  have step: "workTypeStep env saved tmpl s =
      (case from_template tmpl WorkType opts of
         Some ot \<Rightarrow>
           fill_single env WorkType ot
             (emit [say [Emoji ''clipboard'', T '' Using template work type: '', V (opt_text ot)]] s3)
       | None \<Rightarrow>
           (let s4 = emit [Prompt (AskField WorkType)
                             [T ''\<newline>Select work type (1-'', N (length opts), T ''): '']] s3
            in case chosen_index (answer env (AskField WorkType)) (length opts) of
                 Some i \<Rightarrow> fill_single env WorkType (opts ! i) s4
               | None \<Rightarrow>
                   emit [say [Emoji ''warning'', T '' Invalid selection, skipping work type'']] s4))"
    using na vis oo ne lo by (simp add: workTypeStep_def Let_def)
  have a: "prompts (events (workTypeStep env saved tmpl s)) = prompts (events s)
        \<and> fills (events (workTypeStep env saved tmpl s)) = fills (events s) @ [(Input WorkType, [V v])]"
    if "template_value tmpl WorkType = Some v" "list_ex (\<lambda>ot. strict_eq (opt_text ot) v) opts"
  proof -
    from from_template_present [OF that] obtain ot
      where "from_template tmpl WorkType opts = Some ot" "opt_text ot = v" by auto
    then show ?thesis
      using step fill_single_smooth [OF ok] q2 q3 by simp
  qed
  have b: "prompts (events (workTypeStep env saved tmpl s)) = prompts (events s) @ [AskField WorkType]"
    if "from_template tmpl WorkType opts = None"
    using that step fill_single_smooth [OF ok] q2 q3
    by (auto simp: Let_def split: option.splits)
  have c: "fills (events (workTypeStep env saved tmpl s)) = fills (events s)"
    if "from_template tmpl WorkType opts = None"
       "js_trim (answer env (AskField WorkType)) = []
        \<or> chosen_index (answer env (AskField WorkType)) (length opts) = None"
    using that step q2 q3 js_trim_empty_chosen_index [of "answer env (AskField WorkType)" "length opts"]
    by (auto simp: Let_def)
  from a b c show ?thesis by blast
qed

lemma component_items_events:
  "prompts (map item_event (concat (map (component_items env) (enumerate n cs)))) = []
   \<and> fills (map item_event (concat (map (component_items env) (enumerate n cs))))
     = map (\<lambda>c. (Input Components, [V c])) cs"
  by (induction cs arbitrary: n) (auto simp: component_items_def fill_items_def)

lemma componentsStep_choice:
  assumes na: "\<not> aborted s" and vis: "visible env (FieldVisible Components)"
      and oo: "obtain_options env saved Components (emit [say (heading Components)] s) = (Some opts, s2)"
      and ne: "opts \<noteq> []" and str: "list_all (\<lambda>ot. stringable (opt_text ot)) opts"
      and ok: "fail_at env (FillOf Components) = None"
  shows "(template_components tmpl opts \<noteq> [] \<longrightarrow>
            prompts (events (componentsStep env saved tmpl s)) = prompts (events s)
            \<and> fills (events (componentsStep env saved tmpl s))
              = fills (events s) @ map (\<lambda>c. (Input Components, [V c])) (template_components tmpl opts))
       \<and> (template_components tmpl opts = [] \<longrightarrow>
            prompts (events (componentsStep env saved tmpl s)) = prompts (events s) @ [AskField Components])
       \<and> (template_components tmpl opts = [] \<longrightarrow>
            js_trim (answer env (AskField Components)) = []
            \<or> chosen_index (answer env (AskField Components)) (length opts) = None \<longrightarrow>
            fills (events (componentsStep env saved tmpl s)) = fills (events s))"
proof -
  from obtain_options_quiet [OF oo]
  have q2: "prompts (events s2) = prompts (events s)" "fills (events s2) = fills (events s)"
    by simp_all
  from list_options_listed [OF str, of Components s2] obtain s3
    where lo: "list_options Components opts s2 = (True, s3)"
      and q3: "prompts (events s3) = prompts (events s2)" "fills (events s3) = fills (events s2)"
    by auto
  show ?thesis
    using na vis oo ne lo ok q2 q3 component_items_events [of env 0]
    by (auto simp: componentsStep_def Let_def run_block_def run_items_None split: option.splits)
qed

lemma template_value_supplies: "template_value tmpl f = Some v \<longleftrightarrow> supplies tmpl f v"
  by (auto simp: template_value_def supplies_def)

lemma from_template_None: "from_template tmpl f opts = None \<longleftrightarrow> \<not> template_fits tmpl f opts"
proof (cases "truthy tmpl \<and> truthy (js_field tmpl (template_key f))")
  case False
  then show ?thesis
    by (auto simp: from_template_def template_value_def template_fits_def supplies_def)
next
  case True
  then have "from_template tmpl f opts
      = find (\<lambda>ot. strict_eq (opt_text ot) (js_field tmpl (template_key f))) opts"
    by (simp add: from_template_def template_value_def)
  moreover from True have "template_fits tmpl f opts
      = list_ex (\<lambda>ot. strict_eq (opt_text ot) (js_field tmpl (template_key f))) opts"
    by (simp add: template_fits_def supplies_def on_offer_def)
  ultimately show ?thesis
    by (auto simp: find_None_iff list_ex_iff)
qed

lemma template_components_named:
  "template_components tmpl opts = filter (on_offer opts) (named_components tmpl)"
proof (cases "truthy tmpl")
  case False
  then show ?thesis
    by (simp add: template_components_def template_value_def named_components_def)
next
  case True
  have "on_offer opts = (\<lambda>tc. list_ex (\<lambda>ot. strict_eq (opt_text ot) tc) opts)"
    by (rule ext) (simp add: on_offer_def)
  with True show ?thesis
    by (cases "js_field tmpl ''components''")
       (simp_all add: template_components_def template_value_def named_components_def)
qed

lemma chosen_index_None: "chosen_index a n = None \<longleftrightarrow> out_of_range a n"
  by (auto simp: chosen_index_def out_of_range_def split: option.splits)

text \<open>
  C5: for each dropdown step whose field is visible and offers options (the four
  single-choice steps, the work type, the components), with no browser call of the fill
  block throwing: when the template supplies a value that is on offer, that value is typed
  into the field and the operator is not asked; when the template does not fit (it
  supplies no value, or one that is not on offer) the operator is asked; and when then the
  answer is empty or out of range nothing is typed. For the components, the components
  that the template names and that are on offer take the place of the one value: all of
  them are typed, in the template's order, and the operator is asked when there is none.
\<close>

theorem dropdown_selection_precedence:
  assumes "\<not> aborted s"
  shows "(visible env (FieldVisible f) \<and> offers env saved f s opts \<and> fail_at env (FillOf f) = None \<longrightarrow>
           (supplies tmpl f v \<and> on_offer opts v \<longrightarrow>
              prompts (events (selectStep env saved tmpl f s)) = prompts (events s)
              \<and> fills (events (selectStep env saved tmpl f s)) = fills (events s) @ [(Input f, [V v])])
           \<and> (\<not> template_fits tmpl f opts \<longrightarrow>
              prompts (events (selectStep env saved tmpl f s)) = prompts (events s) @ [AskField f])
           \<and> (\<not> template_fits tmpl f opts
              \<and> (js_trim (answer env (AskField f)) = []
                 \<or> out_of_range (answer env (AskField f)) (length opts)) \<longrightarrow>
              fills (events (selectStep env saved tmpl f s)) = fills (events s)))
       \<and> (workTypeInputVisible env \<and> offers env saved WorkType s wopts
          \<and> fail_at env (FillOf WorkType) = None \<longrightarrow>
           (supplies tmpl WorkType w \<and> on_offer wopts w \<longrightarrow>
              prompts (events (workTypeStep env saved tmpl s)) = prompts (events s)
              \<and> fills (events (workTypeStep env saved tmpl s))
                = fills (events s) @ [(Input WorkType, [V w])])
           \<and> (\<not> template_fits tmpl WorkType wopts \<longrightarrow>
              prompts (events (workTypeStep env saved tmpl s)) = prompts (events s) @ [AskField WorkType])
           \<and> (\<not> template_fits tmpl WorkType wopts
              \<and> (js_trim (answer env (AskField WorkType)) = []
                 \<or> out_of_range (answer env (AskField WorkType)) (length wopts)) \<longrightarrow>
              fills (events (workTypeStep env saved tmpl s)) = fills (events s)))
       \<and> (visible env (FieldVisible Components) \<and> offers env saved Components s copts
          \<and> fail_at env (FillOf Components) = None \<longrightarrow>
           (filter (on_offer copts) (named_components tmpl) \<noteq> [] \<longrightarrow>
              prompts (events (componentsStep env saved tmpl s)) = prompts (events s)
              \<and> fills (events (componentsStep env saved tmpl s))
                = fills (events s)
                  @ map (\<lambda>c. (Input Components, [V c]))
                      (filter (on_offer copts) (named_components tmpl)))
           \<and> (filter (on_offer copts) (named_components tmpl) = [] \<longrightarrow>
              prompts (events (componentsStep env saved tmpl s))
              = prompts (events s) @ [AskField Components])
           \<and> (filter (on_offer copts) (named_components tmpl) = []
              \<and> (js_trim (answer env (AskField Components)) = []
                 \<or> out_of_range (answer env (AskField Components)) (length copts)) \<longrightarrow>
              fills (events (componentsStep env saved tmpl s)) = fills (events s)))"
proof -
  have offered: "\<exists>s2. obtain_options env saved g (emit [say (heading g)] s) = (Some os, s2)
      \<and> os \<noteq> [] \<and> list_all (\<lambda>ot. stringable (opt_text ot)) os"
    if "offers env saved g s os" for g os
    using that by (cases "obtain_options env saved g (emit [say (heading g)] s)") (auto simp: offers_def)
  have single: "(supplies tmpl f v \<and> on_offer opts v \<longrightarrow>
              prompts (events (selectStep env saved tmpl f s)) = prompts (events s)
              \<and> fills (events (selectStep env saved tmpl f s)) = fills (events s) @ [(Input f, [V v])])
           \<and> (\<not> template_fits tmpl f opts \<longrightarrow>
              prompts (events (selectStep env saved tmpl f s)) = prompts (events s) @ [AskField f])
           \<and> (\<not> template_fits tmpl f opts
              \<and> (js_trim (answer env (AskField f)) = []
                 \<or> out_of_range (answer env (AskField f)) (length opts)) \<longrightarrow>
              fills (events (selectStep env saved tmpl f s)) = fills (events s))"
    if h: "visible env (FieldVisible f)" "offers env saved f s opts" "fail_at env (FillOf f) = None"
  proof -
    from offered [OF h(2)] obtain s2
      where "obtain_options env saved f (emit [say (heading f)] s) = (Some opts, s2)"
        "opts \<noteq> []" "list_all (\<lambda>ot. stringable (opt_text ot)) opts" by auto
    from selectStep_choice [OF assms h(1) this h(3), of tmpl v] show ?thesis
      unfolding template_value_supplies from_template_None chosen_index_None on_offer_def by blast
  qed
  have work: "(supplies tmpl WorkType w \<and> on_offer wopts w \<longrightarrow>
              prompts (events (workTypeStep env saved tmpl s)) = prompts (events s)
              \<and> fills (events (workTypeStep env saved tmpl s))
                = fills (events s) @ [(Input WorkType, [V w])])
           \<and> (\<not> template_fits tmpl WorkType wopts \<longrightarrow>
              prompts (events (workTypeStep env saved tmpl s)) = prompts (events s) @ [AskField WorkType])
           \<and> (\<not> template_fits tmpl WorkType wopts
              \<and> (js_trim (answer env (AskField WorkType)) = []
                 \<or> out_of_range (answer env (AskField WorkType)) (length wopts)) \<longrightarrow>
              fills (events (workTypeStep env saved tmpl s)) = fills (events s))"
    if h: "workTypeInputVisible env" "offers env saved WorkType s wopts"
          "fail_at env (FillOf WorkType) = None"
  proof -
    from offered [OF h(2)] obtain s2
      where "obtain_options env saved WorkType (emit [say (heading WorkType)] s) = (Some wopts, s2)"
        "wopts \<noteq> []" "list_all (\<lambda>ot. stringable (opt_text ot)) wopts" by auto
    from workTypeStep_choice [OF assms h(1) this h(3), of tmpl w] show ?thesis
      unfolding template_value_supplies from_template_None chosen_index_None on_offer_def by blast
  qed
  have multi: "(filter (on_offer copts) (named_components tmpl) \<noteq> [] \<longrightarrow>
              prompts (events (componentsStep env saved tmpl s)) = prompts (events s)
              \<and> fills (events (componentsStep env saved tmpl s))
                = fills (events s)
                  @ map (\<lambda>c. (Input Components, [V c]))
                      (filter (on_offer copts) (named_components tmpl)))
           \<and> (filter (on_offer copts) (named_components tmpl) = [] \<longrightarrow>
              prompts (events (componentsStep env saved tmpl s))
              = prompts (events s) @ [AskField Components])
           \<and> (filter (on_offer copts) (named_components tmpl) = []
              \<and> (js_trim (answer env (AskField Components)) = []
                 \<or> out_of_range (answer env (AskField Components)) (length copts)) \<longrightarrow>
              fills (events (componentsStep env saved tmpl s)) = fills (events s))"
    if h: "visible env (FieldVisible Components)" "offers env saved Components s copts"
          "fail_at env (FillOf Components) = None"
  proof -
    from offered [OF h(2)] obtain s2
      where "obtain_options env saved Components (emit [say (heading Components)] s) = (Some copts, s2)"
        "copts \<noteq> []" "list_all (\<lambda>ot. stringable (opt_text ot)) copts" by auto
    from componentsStep_choice [OF assms h(1) this h(3), of tmpl] show ?thesis
      unfolding template_components_named chosen_index_None by blast
  qed
  from single work multi show ?thesis by blast
qed

theorem dropdown_selection_precedence_witness:
  "prompts (events (selectStep
      (quiet_env\<lparr>visible := (\<lambda>p. p = FieldVisible CategoryReason)\<rparr>)
      (JObj [(''categoryReasons'', JArr [JStr ''Bug'', JStr ''Debt''])])
      (JObj [(''name'', JStr ''chore''), (''categoryReason'', JStr ''Debt'')])
      CategoryReason fresh)) = []
   \<and> fills (events (selectStep
      (quiet_env\<lparr>visible := (\<lambda>p. p = FieldVisible CategoryReason)\<rparr>)
      (JObj [(''categoryReasons'', JArr [JStr ''Bug'', JStr ''Debt''])])
      (JObj [(''name'', JStr ''chore''), (''categoryReason'', JStr ''Debt'')])
      CategoryReason fresh)) = [(Input CategoryReason, [V (JStr ''Debt'')])]
   \<and> prompts (events (selectStep
      (quiet_env\<lparr>visible := (\<lambda>p. p = FieldVisible CategoryReason)\<rparr>)
      (JObj [(''categoryReasons'', JArr [JStr ''Bug'', JStr ''Debt''])])
      (JObj [(''name'', JStr ''chore''), (''categoryReason'', JStr ''Chore'')])
      CategoryReason fresh)) = [AskField CategoryReason]
   \<and> fills (events (selectStep
      (quiet_env\<lparr>visible := (\<lambda>p. p = FieldVisible CategoryReason)\<rparr>)
      (JObj [(''categoryReasons'', JArr [JStr ''Bug'', JStr ''Debt''])])
      (JObj [(''name'', JStr ''chore''), (''categoryReason'', JStr ''Chore'')])
      CategoryReason fresh)) = []
   \<and> prompts (events (componentsStep
      (quiet_env\<lparr>visible := (\<lambda>p. p = FieldVisible Components)\<rparr>)
      (JObj [(''components'', JArr [JStr ''UI'', JStr ''API''])])
      (JObj [(''name'', JStr ''chore''), (''components'', JArr [JStr ''Ghost'', JStr ''API''])])
      fresh)) = []
   \<and> fills (events (componentsStep
      (quiet_env\<lparr>visible := (\<lambda>p. p = FieldVisible Components)\<rparr>)
      (JObj [(''components'', JArr [JStr ''UI'', JStr ''API''])])
      (JObj [(''name'', JStr ''chore''), (''components'', JArr [JStr ''Ghost'', JStr ''API''])])
      fresh)) = [(Input Components, [V (JStr ''API'')])]"
proof -
  let ?env = "quiet_env\<lparr>visible := (\<lambda>p. p = FieldVisible CategoryReason)\<rparr>"
  let ?saved = "JObj [(''categoryReasons'', JArr [JStr ''Bug'', JStr ''Debt''])]"
  let ?tmpl = "JObj [(''name'', JStr ''chore''), (''categoryReason'', JStr ''Debt'')]"
  let ?other = "JObj [(''name'', JStr ''chore''), (''categoryReason'', JStr ''Chore'')]"
  let ?opts = "[\<lparr>opt_index = 1, opt_text = JStr ''Bug'', opt_value = JStr ''Bug''\<rparr>,
                \<lparr>opt_index = 2, opt_text = JStr ''Debt'', opt_value = JStr ''Debt''\<rparr>]"
  let ?cenv = "quiet_env\<lparr>visible := (\<lambda>p. p = FieldVisible Components)\<rparr>"
  let ?csaved = "JObj [(''components'', JArr [JStr ''UI'', JStr ''API''])]"
  let ?ctmpl = "JObj [(''name'', JStr ''chore''), (''components'', JArr [JStr ''Ghost'', JStr ''API''])]"
  let ?copts = "[\<lparr>opt_index = 1, opt_text = JStr ''UI'', opt_value = JStr ''UI''\<rparr>,
                 \<lparr>opt_index = 2, opt_text = JStr ''API'', opt_value = JStr ''API''\<rparr>]"
  have na: "\<not> aborted fresh" by (simp add: fresh_def)
  have vis: "visible ?env (FieldVisible CategoryReason)" by simp
  have off: "offers ?env ?saved CategoryReason fresh ?opts"
    by (simp add: offers_def obtain_options_def cached_def cached_option_def enumerate_eq_zip
        upt_rec)
  have ok: "fail_at ?env (FillOf CategoryReason) = None" by (simp add: quiet_env_def)
  have tv: "supplies ?tmpl CategoryReason (JStr ''Debt'')"
    by (simp add: supplies_def js_field_def)
  have present: "on_offer ?opts (JStr ''Debt'')" by (simp add: on_offer_def)
  have none: "\<not> template_fits ?other CategoryReason ?opts"
    by (simp add: template_fits_def supplies_def on_offer_def js_field_def)
  have empty: "js_trim (answer ?env (AskField CategoryReason)) = []"
    by (simp add: quiet_env_def js_trim_def)
  have cvis: "visible ?cenv (FieldVisible Components)" by simp
  have coff: "offers ?cenv ?csaved Components fresh ?copts"
    by (simp add: offers_def obtain_options_def cached_def cached_option_def enumerate_eq_zip
        upt_rec)
  have cok: "fail_at ?cenv (FillOf Components) = None" by (simp add: quiet_env_def)
  have named: "filter (on_offer ?copts) (named_components ?ctmpl) = [JStr ''API'']"
    by (simp add: named_components_def on_offer_def js_field_def)
  from dropdown_selection_precedence
         [OF na, of ?env CategoryReason ?saved ?opts ?tmpl "JStr ''Debt''"]
       dropdown_selection_precedence [OF na, of ?env CategoryReason ?saved ?opts ?other]
       vis off ok tv present none empty
  have single: "prompts (events (selectStep ?env ?saved ?tmpl CategoryReason fresh)) = []"
    "fills (events (selectStep ?env ?saved ?tmpl CategoryReason fresh))
       = [(Input CategoryReason, [V (JStr ''Debt'')])]"
    "prompts (events (selectStep ?env ?saved ?other CategoryReason fresh)) = [AskField CategoryReason]"
    "fills (events (selectStep ?env ?saved ?other CategoryReason fresh)) = []"
    by (simp_all add: fresh_def)
  from dropdown_selection_precedence
         [OF na, where env = ?cenv and saved = ?csaved and tmpl = ?ctmpl and copts = ?copts]
       cvis coff cok named
  have multi: "prompts (events (componentsStep ?cenv ?csaved ?ctmpl fresh)) = []"
    "fills (events (componentsStep ?cenv ?csaved ?ctmpl fresh)) = [(Input Components, [V (JStr ''API'')])]"
    by (simp_all add: fresh_def)
  from single multi show ?thesis by (intro conjI)
qed

lemma scrapes_append [simp]: "scrapes (xs @ ys) = scrapes xs @ scrapes ys"
  by (induction xs rule: scrapes.induct) auto

lemma scrapes_say [simp]: "scrapes (say ps # es) = scrapes es"
  by (simp add: say_def)

lemma scrapes_warn [simp]: "scrapes (warn ps # es) = scrapes es"
  by (simp add: warn_def)

lemma scrapes_run_items:
  "list_all quiet_item items \<Longrightarrow> scrapes (fst (run_items fa items)) = []"
proof (induction fa items rule: run_items.induct)
  case (3 a "is")
  then show ?case by (cases "Do a" rule: quiet_item.cases) (auto simp: split_beta)
next
  case (4 a "is")
  then show ?case by (cases "Do a" rule: quiet_item.cases) auto
next
  case (5 n a "is")
  then show ?case by (cases "Do a" rule: quiet_item.cases) (auto simp: split_beta)
qed (auto simp: split_beta)

lemma scrapes_print_while [simp]: "scrapes (fst (print_while ok f xs)) = []"
  by (induction xs) (auto simp: split_beta)

lemma toSave_run_block [simp]: "toSave (run_block env b items s) = toSave s"
  by (simp add: run_block_def split_beta split: bool.splits)

lemma scrapes_run_block:
  "list_all quiet_item items \<Longrightarrow> scrapes (events (run_block env b items s)) = scrapes (events s)"
  using scrapes_run_items [of items "fail_at env b"]
  by (simp add: run_block_def split_beta split: bool.splits)

lemma scrapes_getAutocompleteOptions: "scrapes (snd (getAutocompleteOptions env f)) = [f]"
proof -
  let ?rest = "[Do (Click (Selector f)), Do (WaitTimeout 500), Do (WaitTimeout 500),
                Do (Evaluate (Listbox f))]"
  have rest: "scrapes (fst (run_items fa ?rest)) = []" for fa
    by (rule scrapes_run_items) simp
  show ?thesis
  proof (cases "fail_at env (ScrapeOf f)")
    case None
    then show ?thesis using rest [of None]
      by (simp add: getAutocompleteOptions_def split_beta split: bool.splits)
  next
    case (Some n)
    then show ?thesis using rest [of "Some (n - 1)"]
      by (cases n) (simp_all add: getAutocompleteOptions_def split_beta split: bool.splits)
  qed
qed

lemma obtain_options_effect:
  "toSave (snd (obtain_options env saved f s))
     = (case scraped_entry env saved f of
          None \<Rightarrow> toSave s
        | Some v \<Rightarrow> AList.update (cache_key f) v (toSave s))
   \<and> scrapes (events (snd (obtain_options env saved f s)))
     = scrapes (events s) @ (if cached env saved (cache_key f) = CacheMiss then [f] else [])"
  using scrapes_getAutocompleteOptions [of env f]
  by (auto simp: obtain_options_def scraped_entry_def split_beta split: cache_lookup.splits)

lemma list_options_frame [simp]:
  "toSave (snd (list_options f opts s)) = toSave s"
  "scrapes (events (snd (list_options f opts s))) = scrapes (events s)"
  by (simp_all add: list_options_def split_beta)

lemma fill_single_frame [simp]:
  "toSave (fill_single env f ot s) = toSave s"
  "scrapes (events (fill_single env f ot s)) = scrapes (events s)"
  by (simp_all add: fill_single_def scrapes_run_block fill_items_def)

lemma steps_skip_when_aborted:
  assumes "aborted s"
  shows "workTypeStep env saved tmpl s = s" "summaryStep env tmpl s = s"
    "componentsStep env saved tmpl s = s" "selectStep env saved tmpl f s = s"
    "textStep env tmpl f s = s" "keyStakeholderStep env tmpl s = s" "formFilledNote s = s"
  using assms
  by (simp_all add: workTypeStep_def summaryStep_def componentsStep_def selectStep_def textStep_def
      keyStakeholderStep_def formFilledNote_def)

lemma selectStep_effect:
  "toSave (selectStep env saved tmpl f s)
     = (if \<not> aborted s \<and> visible env (FieldVisible f)
        then (case scraped_entry env saved f of
                None \<Rightarrow> toSave s
              | Some v \<Rightarrow> AList.update (cache_key f) v (toSave s))
        else toSave s)
   \<and> scrapes (events (selectStep env saved tmpl f s))
     = scrapes (events s)
       @ (if \<not> aborted s \<and> visible env (FieldVisible f) \<and> cached env saved (cache_key f) = CacheMiss
          then [f] else [])"
  using obtain_options_effect [of env saved f "emit [say (heading f)] s"]
  by (auto simp: selectStep_def Let_def split_beta not_found_def no_options_def
      split: option.splits bool.splits)

lemma workTypeStep_effect:
  "toSave (workTypeStep env saved tmpl s)
     = (if \<not> aborted s \<and> workTypeInputVisible env
        then (case scraped_entry env saved WorkType of
                None \<Rightarrow> toSave s
              | Some v \<Rightarrow> AList.update (cache_key WorkType) v (toSave s))
        else toSave s)
   \<and> scrapes (events (workTypeStep env saved tmpl s))
     = scrapes (events s)
       @ (if \<not> aborted s \<and> workTypeInputVisible env
             \<and> cached env saved (cache_key WorkType) = CacheMiss
          then [WorkType] else [])"
  using obtain_options_effect [of env saved WorkType "emit [say (heading WorkType)] s"]
  by (auto simp: workTypeStep_def Let_def split_beta not_found_def no_options_def
      split: option.splits bool.splits)

lemma component_items_quiet:
  "list_all quiet_item (concat (map (component_items env) (enumerate n cs)))"
  by (induction cs arbitrary: n) (auto simp: component_items_def fill_items_def)

lemma componentsStep_effect:
  "toSave (componentsStep env saved tmpl s)
     = (if \<not> aborted s \<and> visible env (FieldVisible Components)
        then (case scraped_entry env saved Components of
                None \<Rightarrow> toSave s
              | Some v \<Rightarrow> AList.update (cache_key Components) v (toSave s))
        else toSave s)
   \<and> scrapes (events (componentsStep env saved tmpl s))
     = scrapes (events s)
       @ (if \<not> aborted s \<and> visible env (FieldVisible Components)
             \<and> cached env saved (cache_key Components) = CacheMiss
          then [Components] else [])"
  using obtain_options_effect [of env saved Components "emit [say (heading Components)] s"]
  by (auto simp: componentsStep_def Let_def split_beta not_found_def no_options_def
      scrapes_run_block component_items_quiet split: option.splits bool.splits)

lemma summaryStep_effect:
  "toSave (summaryStep env tmpl s) = toSave s
   \<and> scrapes (events (summaryStep env tmpl s)) = scrapes (events s)"
  by (auto simp: summaryStep_def Let_def not_found_def scrapes_run_block
      split: option.splits outcome.splits)

lemma textStep_effect:
  "toSave (textStep env tmpl f s) = toSave s
   \<and> scrapes (events (textStep env tmpl f s)) = scrapes (events s)"
  by (auto simp: textStep_def Let_def not_found_def scrapes_run_block split: option.splits)

lemma keyStakeholderStep_effect:
  "toSave (keyStakeholderStep env tmpl s) = toSave s
   \<and> scrapes (events (keyStakeholderStep env tmpl s)) = scrapes (events s)"
  by (auto simp: keyStakeholderStep_def Let_def not_found_def scrapes_run_block split: option.splits)

lemma formFilledNote_effect:
  "toSave (formFilledNote s) = toSave s
   \<and> scrapes (events (formFilledNote s)) = scrapes (events s)"
  by (simp add: formFilledNote_def)

lemma cache_put_alt:
  "(if shown env f
    then (case scraped_entry env saved f of
            None \<Rightarrow> al
          | Some v \<Rightarrow> AList.update (cache_key f) v al)
    else al) = cache_put env saved f al"
  by (simp add: cache_put_def)

lemma fillFields_aborted: "aborted s \<Longrightarrow> fillFields env saved tmpl s = s"
  by (simp add: fillFields_def steps_skip_when_aborted)

lemma step_keeps_aborted:
  "\<not> aborted (workTypeStep env saved tmpl s) \<Longrightarrow> \<not> aborted s"
  "\<not> aborted (summaryStep env tmpl s) \<Longrightarrow> \<not> aborted s"
  "\<not> aborted (componentsStep env saved tmpl s) \<Longrightarrow> \<not> aborted s"
  "\<not> aborted (selectStep env saved tmpl f s) \<Longrightarrow> \<not> aborted s"
  "\<not> aborted (textStep env tmpl f s) \<Longrightarrow> \<not> aborted s"
  "\<not> aborted (keyStakeholderStep env tmpl s) \<Longrightarrow> \<not> aborted s"
  "\<not> aborted (formFilledNote s) \<Longrightarrow> \<not> aborted s"
  using steps_skip_when_aborted [of s] by auto

lemma fillFields_toSave:
  assumes fin: "\<not> aborted (fillFields env saved tmpl s)"
  shows "toSave (fillFields env saved tmpl s)
       = cache_put env saved TaskClassification
           (cache_put env saved TypeOfRequest
             (cache_put env saved RiskAssessment
               (cache_put env saved CategoryReason
                 (cache_put env saved Components
                   (cache_put env saved WorkType (toSave s))))))"
proof -
  define s1 where "s1 = workTypeStep env saved tmpl s"
  define s2 where "s2 = summaryStep env tmpl s1"
  define s3 where "s3 = componentsStep env saved tmpl s2"
  define s4 where "s4 = formFilledNote s3"
  define s5 where "s5 = textStep env tmpl PartnerDesc s4"
  define s6 where "s6 = selectStep env saved tmpl CategoryReason s5"
  define s7 where "s7 = selectStep env saved tmpl RiskAssessment s6"
  define s8 where "s8 = textStep env tmpl StoryPoints s7"
  define s9 where "s9 = selectStep env saved tmpl TypeOfRequest s8"
  define s10 where "s10 = selectStep env saved tmpl TaskClassification s9"
  have final: "fillFields env saved tmpl s = keyStakeholderStep env tmpl s10"
    by (simp add: fillFields_def s1_def s2_def s3_def s4_def s5_def s6_def s7_def s8_def s9_def
        s10_def)
  from fin have a10: "\<not> aborted s10" unfolding final by (rule step_keeps_aborted)
  then have a9: "\<not> aborted s9" unfolding s10_def by (rule step_keeps_aborted)
  then have a8: "\<not> aborted s8" unfolding s9_def by (rule step_keeps_aborted)
  then have a7: "\<not> aborted s7" unfolding s8_def by (rule step_keeps_aborted)
  then have a6: "\<not> aborted s6" unfolding s7_def by (rule step_keeps_aborted)
  then have a5: "\<not> aborted s5" unfolding s6_def by (rule step_keeps_aborted)
  then have a4: "\<not> aborted s4" unfolding s5_def by (rule step_keeps_aborted)
  then have a3: "\<not> aborted s3" unfolding s4_def by (rule step_keeps_aborted)
  then have a2: "\<not> aborted s2" unfolding s3_def by (rule step_keeps_aborted)
  then have a1: "\<not> aborted s1" unfolding s2_def by (rule step_keeps_aborted)
  then have a0: "\<not> aborted s" unfolding s1_def by (rule step_keeps_aborted)
  have t1: "toSave s1 = cache_put env saved WorkType (toSave s)"
    using a0 workTypeStep_effect [of env saved tmpl s]
    by (simp add: s1_def cache_put_def shown_def)
  have t2: "toSave s2 = toSave s1" by (simp add: s2_def summaryStep_effect)
  have t3: "toSave s3 = cache_put env saved Components (toSave s2)"
    using a2 componentsStep_effect [of env saved tmpl s2]
    by (simp add: s3_def cache_put_def shown_def)
  have t4: "toSave s4 = toSave s3" by (simp add: s4_def formFilledNote_effect)
  have t5: "toSave s5 = toSave s4" by (simp add: s5_def textStep_effect)
  have t6: "toSave s6 = cache_put env saved CategoryReason (toSave s5)"
    using a5 selectStep_effect [of env saved tmpl CategoryReason s5]
    by (simp add: s6_def cache_put_def shown_def)
  have t7: "toSave s7 = cache_put env saved RiskAssessment (toSave s6)"
    using a6 selectStep_effect [of env saved tmpl RiskAssessment s6]
    by (simp add: s7_def cache_put_def shown_def)
  have t8: "toSave s8 = toSave s7" by (simp add: s8_def textStep_effect)
  have t9: "toSave s9 = cache_put env saved TypeOfRequest (toSave s8)"
    using a8 selectStep_effect [of env saved tmpl TypeOfRequest s8]
    by (simp add: s9_def cache_put_def shown_def)
  have t10: "toSave s10 = cache_put env saved TaskClassification (toSave s9)"
    using a9 selectStep_effect [of env saved tmpl TaskClassification s9]
    by (simp add: s10_def cache_put_def shown_def)
  show ?thesis
    by (simp add: final keyStakeholderStep_effect t1 t2 t3 t4 t5 t6 t7 t8 t9 t10)
qed





lemma scrapes_Console [simp]: "scrapes (map Console ls) = []"
  by (induction ls) auto

lemma scrapes_Prompt [simp]: "scrapes (Prompt q ps # es) = scrapes es"
  by simp

lemma scrapes_startState [simp]: "scrapes (events (startState cfg d)) = []"
  by (simp add: startState_def)

lemma startState_fresh [simp]: "\<not> aborted (startState cfg d)" "toSave (startState cfg d) = []"
  by (simp_all add: startState_def)

lemma scrapes_loadTemplates [simp]: "scrapes (snd (loadTemplates f)) = []"
  by (simp add: loadTemplates_def split: disk_file.splits outcome.splits)

lemma scrapes_loadSavedOptions [simp]: "scrapes (snd (loadSavedOptions f)) = []"
  by (simp add: loadSavedOptions_def split: disk_file.splits)

lemma scrapes_saveOptions [simp]: "scrapes (snd (saveOptions w kvs f)) = []"
  by (simp add: saveOptions_def)

lemma scrapes_selectTemplate [simp]: "scrapes (snd (selectTemplate env templates)) = []"
  by (simp add: selectTemplate_def Let_def split_beta split: bool.splits option.splits)

lemma preludeItems_quiet: "list_all quiet_item (preludeItems cfg env savedState)"
  by (simp add: preludeItems_def)

lemma submitTicket_frame [simp]:
  "aborted (submitTicket env s) = aborted s"
  "toSave (submitTicket env s) = toSave s"
  by (simp_all add: submitTicket_def Let_def split_beta split: bool.splits)

lemma scrapes_submitTicket [simp]:
  "scrapes (events (submitTicket env s)) = scrapes (events s)"
proof -
  have "scrapes (fst (run_items (fail_at env SubmitBlock)
          [Do (WaitVisible SubmitButton), Do (Click SubmitButton),
           Say [Emoji ''check mark'', T '' Create button clicked!''], Do (WaitTimeout 2000)])) = []"
    by (rule scrapes_run_items) simp
  then show ?thesis
    by (simp add: submitTicket_def Let_def split_beta split: bool.splits)
qed

lemma aborted_run_block_toSave [simp]: "toSave (s\<lparr>toSave := x\<rparr>) = x" "aborted (s\<lparr>toSave := x\<rparr>) = aborted s"
  "events (s\<lparr>toSave := x\<rparr>) = events s"
  by simp_all

lemma tryBlock_aborted_file:
  "aborted (fst (tryBlock cfg env d)) \<Longrightarrow> snd (tryBlock cfg env d) = optionsFile d"
  by (auto simp: tryBlock_def ticketBody_def Let_def split_beta split: outcome.splits if_splits)

lemma tryBlock_completed:
  assumes "\<not> aborted (fst (tryBlock cfg env d))"
  shows "\<exists>tmpl s0. \<not> aborted s0 \<and> toSave s0 = js_spread (fst (loadSavedOptions (optionsFile d)))
           \<and> scrapes (events s0) = []
           \<and> \<not> aborted (fillFields env (fst (loadSavedOptions (optionsFile d))) tmpl s0)
           \<and> snd (tryBlock cfg env d)
             = (if toSave (fillFields env (fst (loadSavedOptions (optionsFile d))) tmpl s0) \<noteq> []
                then write_file (options_write env)
                       (JObj (toSave (fillFields env (fst (loadSavedOptions (optionsFile d))) tmpl s0)))
                       (optionsFile d)
                else optionsFile d)
           \<and> scrapes (events (fst (tryBlock cfg env d)))
             = scrapes (events (fillFields env (fst (loadSavedOptions (optionsFile d))) tmpl s0))"
proof -
  define s0 where "s0 = run_block env Prelude
      (preludeItems cfg env (fst (loadBrowserState cfg (stateFile d)))) (startState cfg d)"
  define saved where "saved = fst (loadSavedOptions (optionsFile d))"
  have q0: "scrapes (events s0) = []"
    by (simp add: s0_def scrapes_run_block preludeItems_quiet)
  have t0: "toSave s0 = []" by (simp add: s0_def)
  from assms have a0: "\<not> aborted s0"
    by (auto simp: tryBlock_def ticketBody_def Let_def s0_def split: if_splits)
  from assms a0 obtain tmpl where tm: "fst (selectTemplate env (fst (loadTemplates (templatesFile d)))) = Returns tmpl"
    by (cases "fst (selectTemplate env (fst (loadTemplates (templatesFile d))))")
       (auto simp: tryBlock_def ticketBody_def Let_def s0_def split_beta)
  define s1 where "s1 = (emit (snd (loadTemplates (templatesFile d))
        @ snd (selectTemplate env (fst (loadTemplates (templatesFile d))))
        @ snd (loadSavedOptions (optionsFile d))) s0)\<lparr>toSave := js_spread saved\<rparr>"
  have body: "tryBlock cfg env d =
      (let s2 = fillFields env saved tmpl s1
       in if aborted s2 then (s2, optionsFile d)
          else (emit [Act (Sleep 5000)]
                  (submitTicket env
                     (emit (snd (if toSave s2 \<noteq> []
                                 then saveOptions (options_write env) (toSave s2) (optionsFile d)
                                 else (optionsFile d, []))) s2)),
                fst (if toSave s2 \<noteq> []
                     then saveOptions (options_write env) (toSave s2) (optionsFile d)
                     else (optionsFile d, []))))"
    using a0 tm
    by (simp add: tryBlock_def ticketBody_def Let_def split_beta s0_def [symmetric] s1_def saved_def)
  from assms body have a2: "\<not> aborted (fillFields env saved tmpl s1)"
    by (auto simp: Let_def split: if_splits)
  have "\<not> aborted s1" "toSave s1 = js_spread saved" "scrapes (events s1) = []"
    using a0 q0 by (simp_all add: s1_def)
  moreover have "snd (tryBlock cfg env d)
      = (if toSave (fillFields env saved tmpl s1) \<noteq> []
         then write_file (options_write env) (JObj (toSave (fillFields env saved tmpl s1))) (optionsFile d)
         else optionsFile d)"
    using a2 body by (simp add: Let_def saveOptions_def)
  moreover have "scrapes (events (fst (tryBlock cfg env d)))
      = scrapes (events (fillFields env saved tmpl s1))"
    using a2 body by (simp add: Let_def)
  ultimately show ?thesis using a2 unfolding saved_def by blast
qed


lemma createJiraTicket_file:
  "fst (createJiraTicket cfg env d)
   = (if truthy (fst (loadBrowserState cfg (stateFile d))) then snd (tryBlock cfg env d)
      else optionsFile d)"
  by (simp add: createJiraTicket_def Let_def split_beta)


lemma map_of_cache_put:
  "map_of (cache_put env saved f al) k
   = (if shown env f \<and> scraped_entry env saved f \<noteq> None \<and> k = cache_key f
      then scraped_entry env saved f else map_of al k)"
  by (auto simp: cache_put_def update_conv' split: option.splits)

lemma cache_put_grows:
  assumes "\<forall>k. map_of al k = map_of base k
             \<or> (\<exists>f\<in>set dropdowns. k = cache_key f \<and> shown env f
                  \<and> scraped_entry env saved f = map_of al k \<and> map_of al k \<noteq> None)"
      and "g \<in> set dropdowns"
  shows "\<forall>k. map_of (cache_put env saved g al) k = map_of base k
             \<or> (\<exists>f\<in>set dropdowns. k = cache_key f \<and> shown env f
                  \<and> scraped_entry env saved f = map_of (cache_put env saved g al) k
                  \<and> map_of (cache_put env saved g al) k \<noteq> None)"
proof
  fix k
  show "map_of (cache_put env saved g al) k = map_of base k
      \<or> (\<exists>f\<in>set dropdowns. k = cache_key f \<and> shown env f
            \<and> scraped_entry env saved f = map_of (cache_put env saved g al) k
            \<and> map_of (cache_put env saved g al) k \<noteq> None)"
  proof (cases "shown env g \<and> scraped_entry env saved g \<noteq> None \<and> k = cache_key g")
    case True
    then have "map_of (cache_put env saved g al) k = scraped_entry env saved g"
      by (simp add: map_of_cache_put)
    with True assms(2) show ?thesis by auto
  next
    case False
    then have "map_of (cache_put env saved g al) k = map_of al k"
      by (auto simp: map_of_cache_put)
    with assms(1) show ?thesis by auto
  qed
qed

lemma fillFields_grows:
  assumes "\<not> aborted (fillFields env saved tmpl s)"
  shows "\<forall>k. map_of (toSave (fillFields env saved tmpl s)) k = map_of (toSave s) k
             \<or> (\<exists>f\<in>set dropdowns. k = cache_key f \<and> shown env f
                  \<and> scraped_entry env saved f = map_of (toSave (fillFields env saved tmpl s)) k
                  \<and> map_of (toSave (fillFields env saved tmpl s)) k \<noteq> None)"
  unfolding fillFields_toSave [OF assms]
  by (intro cache_put_grows) (simp_all add: dropdowns_def)


lemma example_run_file:
  "fst (createJiraTicket default_config example_env example_disk)
   = Doc (JObj [(''components'', JArr [JStr ''UI'']), (''categoryReasons'', JArr [JStr ''Bug''])])"
  by code_simp


lemma example_scrape:
  "fst (getAutocompleteOptions example_env CategoryReason)
   = [\<lparr>opt_index = 1, opt_text = JStr ''Bug'', opt_value = JStr ''Bug''\<rparr>]"
  by code_simp

text \<open>
  C10: at the end of a run the option cache file is either left as it was, or (the write
  not failing half-way) replaced by an object in which every key reads as in the cache
  that was loaded, except the keys of dropdowns found and freshly scraped in this run,
  which hold the scraped list. So every entry stored before the run is still there,
  unchanged unless its field was freshly scraped.
\<close>

theorem saved_options_are_preserved:
  assumes "options_write env \<noteq> Torn"
  shows "fst (createJiraTicket cfg env d) = optionsFile d
       \<or> (\<exists>kvs. fst (createJiraTicket cfg env d) = Doc (JObj kvs)
            \<and> (\<forall>k. map_of kvs k = map_of (js_spread (fst (loadSavedOptions (optionsFile d)))) k
                 \<or> (\<exists>f\<in>set dropdowns. k = cache_key f \<and> shown env f
                      \<and> scraped_entry env (fst (loadSavedOptions (optionsFile d))) f = map_of kvs k
                      \<and> map_of kvs k \<noteq> None)))"
proof (cases "truthy (fst (loadBrowserState cfg (stateFile d))) \<and> \<not> aborted (fst (tryBlock cfg env d))")
  case False
  then show ?thesis
    using tryBlock_aborted_file [of cfg env d] by (auto simp: createJiraTicket_file)
next
  case True
  define saved where "saved = fst (loadSavedOptions (optionsFile d))"
  from True tryBlock_completed [of cfg env d] obtain tmpl s0
    where s0: "toSave s0 = js_spread saved"
      and fin: "\<not> aborted (fillFields env saved tmpl s0)"
      and out: "snd (tryBlock cfg env d)
          = (if toSave (fillFields env saved tmpl s0) \<noteq> []
             then write_file (options_write env) (JObj (toSave (fillFields env saved tmpl s0)))
                    (optionsFile d)
             else optionsFile d)"
    unfolding saved_def by blast
  show ?thesis
  proof (cases "toSave (fillFields env saved tmpl s0) \<noteq> [] \<and> options_write env = Written")
    case False
    with assms out True show ?thesis
      by (cases "options_write env") (auto simp: createJiraTicket_file)
  next
    case w: True
    with out True have "fst (createJiraTicket cfg env d) = Doc (JObj (toSave (fillFields env saved tmpl s0)))"
      by (simp add: createJiraTicket_file)
    moreover note fillFields_grows [OF fin, unfolded s0]
    ultimately show ?thesis unfolding saved_def by blast
  qed
qed

theorem saved_options_are_preserved_witness:
  "options_write example_env \<noteq> Torn
   \<and> fst (createJiraTicket default_config example_env example_disk) \<noteq> optionsFile example_disk
   \<and> (\<exists>kvs. fst (createJiraTicket default_config example_env example_disk) = Doc (JObj kvs)
         \<and> map_of kvs ''components'' = Some (JArr [JStr ''UI''])
         \<and> map_of kvs ''categoryReasons'' = Some (JArr [JStr ''Bug'']))"
proof -
  have w: "options_write example_env \<noteq> Torn" by (simp add: example_env_def quiet_env_def)
  have changed: "fst (createJiraTicket default_config example_env example_disk) \<noteq> optionsFile example_disk"
    unfolding example_run_file by (simp add: example_disk_def)
  from saved_options_are_preserved [OF w, of default_config example_disk] changed
  obtain kvs where "fst (createJiraTicket default_config example_env example_disk) = Doc (JObj kvs)"
    by blast
  with example_run_file w changed show ?thesis by simp
qed







lemma interrupted_no_entry: "no_cache_entry (optionsFile example_disk) (cache_key CategoryReason)"
  by code_simp

lemma interrupted_texts: "dropdown_texts interrupted_env CategoryReason = [JStr ''Bug'']"
  by code_simp

lemma interrupted_scrapes:
  "CategoryReason \<in> set (scrapes (snd (createJiraTicket default_config interrupted_env example_disk)))"
  by code_simp

lemma interrupted_file:
  "fst (createJiraTicket default_config interrupted_env example_disk) = optionsFile example_disk"
  by code_simp

text \<open>
  A run can scrape a dropdown whose field has no cache entry and leave the cache file as
  it was: on \<open>interrupted_env\<close> the category reasons are scraped, the click on the key
  stakeholder input throws, and the script never gets to \<^verbatim>\<open>saveOptions\<close>.
\<close>

theorem scrape_lost_when_run_is_interrupted:
  "no_cache_entry (optionsFile example_disk) (cache_key CategoryReason)
   \<and> shown interrupted_env CategoryReason
   \<and> fail_at interrupted_env (ScrapeOf CategoryReason) = None
   \<and> dropdown_texts interrupted_env CategoryReason = [JStr ''Bug'']
   \<and> options_write interrupted_env = Written
   \<and> CategoryReason \<in> set (scrapes (snd (createJiraTicket default_config interrupted_env example_disk)))
   \<and> fst (createJiraTicket default_config interrupted_env example_disk) = optionsFile example_disk"
proof -
  have "shown interrupted_env CategoryReason"
    by (simp add: shown_def interrupted_env_def)
  moreover have "fail_at interrupted_env (ScrapeOf CategoryReason) = None"
    by (simp add: interrupted_env_def)
  moreover have "options_write interrupted_env = Written"
    by (simp add: interrupted_env_def example_env_def quiet_env_def)
  ultimately show ?thesis
    using interrupted_no_entry interrupted_texts interrupted_scrapes interrupted_file
    by (intro conjI)
qed




section \<open>Properties of logging in\<close>

lemma addsI:
  assumes "\<And>s. \<exists>es. history (snd (m s)) = history s @ es \<and> length (filter P es) \<le> n"
  shows "adds P n m"
  unfolding adds_def added_def
proof (intro allI)
  fix s
  from assms obtain es where "history (snd (m s)) = history s @ es" "length (filter P es) \<le> n"
    by blast
  then show "history (snd (m s)) = history s @ drop (length (history s)) (history (snd (m s)))
             \<and> length (filter P (drop (length (history s)) (history (snd (m s))))) \<le> n"
    by simp
qed

lemma addsD:
  assumes "adds P n m"
  obtains es where "history (snd (m s)) = history s @ es" "length (filter P es) \<le> n"
  using assms unfolding adds_def by blast


lemma adds_weaken:
  assumes "adds Q 0 m" and "\<And>e. P e \<Longrightarrow> Q e"
  shows "adds P 0 m"
proof (rule addsI)
  fix s
  from assms(1) obtain es where es: "history (snd (m s)) = history s @ es" "length (filter Q es) \<le> 0"
    by (rule addsD)
  from es(2) have "\<forall>e\<in>set es. \<not> Q e" by (simp add: filter_empty_conv)
  with assms(2) have "\<forall>e\<in>set es. \<not> P e" by blast
  then have "length (filter P es) \<le> 0" by (simp add: filter_empty_conv)
  with es(1) show "\<exists>es. history (snd (m s)) = history s @ es \<and> length (filter P es) \<le> 0" by blast
qed

lemma adds_yield: "adds P n (yield x)"
  by (rule addsI) (simp add: yield_def)

lemma adds_raise: "adds P n raise"
  by (rule addsI) (simp add: raise_def)

lemma adds_update: "(\<And>s. history (g s) = history s) \<Longrightarrow> adds P n (update g)"
  by (rule addsI) (simp add: update_def)

lemma adds_tell: "length (filter P es) \<le> n \<Longrightarrow> adds P n (tell es)"
  by (rule addsI) (simp add: tell_def)

lemma adds_attempt: "\<not> P (Act a) \<Longrightarrow> \<not> P (Threw a) \<Longrightarrow> adds P n (attempt env c a)"
  by (rule addsI) (simp add: attempt_def)

lemma adds_attempt_one: "adds P (Suc n) (attempt env c a)"
  by (rule addsI) (simp add: attempt_def)

lemma adds_andThen:
  assumes "adds P a m" and "\<And>x. adds P b (f x)"
  shows "adds P (a + b) (andThen m f)"
proof (rule addsI)
  fix s
  from assms(1) obtain es where es: "history (snd (m s)) = history s @ es" "length (filter P es) \<le> a"
    by (rule addsD)
  show "\<exists>es. history (snd (andThen m f s)) = history s @ es \<and> length (filter P es) \<le> a + b"
  proof (cases "fst (m s)")
    case Throws
    then have "andThen m f s = (Throws, snd (m s))"
      by (simp add: andThen_def split_beta)
    with es show ?thesis by force
  next
    case (Returns x)
    then have run: "andThen m f s = f x (snd (m s))"
      by (simp add: andThen_def split_beta)
    from assms(2) obtain fs where
      fs: "history (snd (f x (snd (m s)))) = history (snd (m s)) @ fs" "length (filter P fs) \<le> b"
      by (rule addsD)
    from es fs run have "history (snd (andThen m f s)) = history s @ (es @ fs)"
      by simp
    moreover from es fs have "length (filter P (es @ fs)) \<le> a + b" by simp
    ultimately show ?thesis by blast
  qed
qed

lemma adds_before: "adds P a m \<Longrightarrow> adds P b n \<Longrightarrow> adds P (a + b) (before m n)"
  unfolding before_def by (rule adds_andThen)

lemma adds_catching:
  assumes "adds P a m" and "adds P b h"
  shows "adds P (a + b) (catching m h)"
proof (rule addsI)
  fix s
  from assms(1) obtain es where es: "history (snd (m s)) = history s @ es" "length (filter P es) \<le> a"
    by (rule addsD)
  show "\<exists>es. history (snd (catching m h s)) = history s @ es \<and> length (filter P es) \<le> a + b"
  proof (cases "fst (m s)")
    case (Returns x)
    then have "catching m h s = (Returns x, snd (m s))"
      by (simp add: catching_def split_beta)
    with es show ?thesis by force
  next
    case Throws
    then have run: "catching m h s = h (snd (m s))"
      by (simp add: catching_def split_beta)
    from assms(2) obtain fs where
      fs: "history (snd (h (snd (m s)))) = history (snd (m s)) @ fs" "length (filter P fs) \<le> b"
      by (rule addsD)
    from es fs run have "history (snd (catching m h s)) = history s @ (es @ fs)"
      by simp
    moreover from es fs have "length (filter P (es @ fs)) \<le> a + b" by simp
    ultimately show ?thesis by blast
  qed
qed

lemma adds_ending:
  assumes "adds P a m" and "adds P b f"
  shows "adds P (a + b) (ending m f)"
proof (rule addsI)
  fix s
  from assms(1) obtain es where es: "history (snd (m s)) = history s @ es" "length (filter P es) \<le> a"
    by (rule addsD)
  from assms(2) obtain fs where
    fs: "history (snd (f (snd (m s)))) = history (snd (m s)) @ fs" "length (filter P fs) \<le> b"
    by (rule addsD)
  have "snd (ending m f s) = snd (f (snd (m s)))"
    by (simp add: ending_def split_beta split: outcome.splits)
  with es fs have "history (snd (ending m f s)) = history s @ (es @ fs)" by simp
  moreover from es fs have "length (filter P (es @ fs)) \<le> a + b" by simp
  ultimately show "\<exists>es. history (snd (ending m f s)) = history s @ es \<and> length (filter P es) \<le> a + b"
    by blast
qed

lemma adds_reading: "(\<And>t. adds P n (f t)) \<Longrightarrow> adds P n (reading f)"
  unfolding adds_def added_def reading_def by blast

lemma adds_if: "adds P n m \<Longrightarrow> adds P n m' \<Longrightarrow> adds P n (if c then m else m')"
  by simp

lemma adds_option: "adds P n a \<Longrightarrow> (\<And>x. adds P n (f x)) \<Longrightarrow> adds P n (case_option a f v)"
  by (cases v) simp_all

lemma adds_outcome: "adds P n a \<Longrightarrow> (\<And>x. adds P n (f x)) \<Longrightarrow> adds P n (case_outcome a f v)"
  by (cases v) simp_all

lemma quiet_andThen: "adds P 0 m \<Longrightarrow> (\<And>x. adds P 0 (f x)) \<Longrightarrow> adds P 0 (andThen m f)"
  using adds_andThen [of P 0 m 0 f] by simp

lemma quiet_before: "adds P 0 m \<Longrightarrow> adds P 0 n \<Longrightarrow> adds P 0 (before m n)"
  using adds_before [of P 0 m 0 n] by simp

lemma quiet_catching: "adds P 0 m \<Longrightarrow> adds P 0 h \<Longrightarrow> adds P 0 (catching m h)"
  using adds_catching [of P 0 m 0 h] by simp

lemma quiet_ending: "adds P 0 m \<Longrightarrow> adds P 0 f \<Longrightarrow> adds P 0 (ending m f)"
  using adds_ending [of P 0 m 0 f] by simp

lemma quiet_inOrder_Nil: "adds P 0 (inOrder [])"
  by (simp add: adds_yield)

lemma quiet_inOrder_Cons: "adds P 0 m \<Longrightarrow> adds P 0 (inOrder ms) \<Longrightarrow> adds P 0 (inOrder (m # ms))"
  by (simp add: quiet_before)

lemma quiet_tell: "\<forall>e\<in>set es. \<not> P e \<Longrightarrow> adds P 0 (tell es)"
  by (rule adds_tell) (simp add: filter_empty_conv)

lemmas quiet =
  adds_yield adds_raise adds_reading adds_if adds_option adds_outcome quiet_andThen quiet_before
  quiet_catching quiet_ending quiet_inOrder_Nil quiet_inOrder_Cons

lemma yieldsI: "(\<And>s. \<exists>x. fst (m s) = Returns x \<and> R x) \<Longrightarrow> yields R m"
  unfolding yields_def by blast

lemma yieldsD:
  assumes "yields R m"
  obtains x where "fst (m s) = Returns x" "R x"
  using assms unfolding yields_def by blast

lemma yields_yield: "R x \<Longrightarrow> yields R (yield x)"
  by (rule yieldsI) (simp add: yield_def)

lemma yields_update: "yields anything (update g)"
  by (rule yieldsI) (simp add: update_def anything_def)

lemma yields_tell: "yields anything (tell es)"
  by (rule yieldsI) (simp add: tell_def anything_def)

lemma yields_attempt: "\<not> throws_at env c \<Longrightarrow> yields anything (attempt env c a)"
  by (rule yieldsI) (simp add: attempt_def anything_def)

lemma yields_andThen_via:
  assumes "yields Q m" and "\<And>x. Q x \<Longrightarrow> yields R (f x)"
  shows "yields R (andThen m f)"
proof (rule yieldsI)
  fix s
  from assms(1) obtain x where x: "fst (m s) = Returns x" "Q x" by (rule yieldsD)
  then have "andThen m f s = f x (snd (m s))" by (simp add: andThen_def split_beta)
  moreover from assms(2) [OF x(2)] obtain y where "fst (f x (snd (m s))) = Returns y" "R y"
    by (rule yieldsD)
  ultimately show "\<exists>y. fst (andThen m f s) = Returns y \<and> R y" by simp
qed

lemma yields_andThen: "yields anything m \<Longrightarrow> (\<And>x. yields R (f x)) \<Longrightarrow> yields R (andThen m f)"
  by (rule yields_andThen_via)

lemma yields_before: "yields anything m \<Longrightarrow> yields R n \<Longrightarrow> yields R (before m n)"
  unfolding before_def by (rule yields_andThen)

lemma yields_anything: "yields R m \<Longrightarrow> yields anything m"
  unfolding yields_def anything_def by blast

lemma yields_handled: "yields anything h \<Longrightarrow> yields anything (catching m h)"
proof (rule yieldsI)
  fix s
  assume h: "yields anything h"
  show "\<exists>x. fst (catching m h s) = Returns x \<and> anything x"
  proof (cases "fst (m s)")
    case (Returns x)
    then show ?thesis by (simp add: catching_def split_beta anything_def)
  next
    case Throws
    then have "catching m h s = h (snd (m s))" by (simp add: catching_def split_beta)
    moreover from h obtain y where "fst (h (snd (m s))) = Returns y" by (rule yieldsD)
    ultimately show ?thesis by (simp add: anything_def)
  qed
qed

lemma yields_catching: "yields R m \<Longrightarrow> yields R (catching m h)"
proof (rule yieldsI)
  fix s
  assume "yields R m"
  then obtain x where "fst (m s) = Returns x" "R x" by (rule yieldsD)
  then show "\<exists>x. fst (catching m h s) = Returns x \<and> R x"
    by (simp add: catching_def split_beta)
qed

lemma yields_ending: "yields R m \<Longrightarrow> yields anything f \<Longrightarrow> yields R (ending m f)"
proof (rule yieldsI)
  fix s
  assume m: "yields R m" and f: "yields anything f"
  from m obtain x where x: "fst (m s) = Returns x" "R x" by (rule yieldsD)
  from f obtain u where "fst (f (snd (m s))) = Returns u" by (rule yieldsD)
  with x show "\<exists>x. fst (ending m f s) = Returns x \<and> R x"
    by (simp add: ending_def split_beta)
qed

lemma yields_reading: "(\<And>t. yields R (f t)) \<Longrightarrow> yields R (reading f)"
  unfolding yields_def reading_def by blast

lemma yields_if: "yields R m \<Longrightarrow> yields R m' \<Longrightarrow> yields R (if c then m else m')"
  by simp

lemma yields_option: "yields R a \<Longrightarrow> (\<And>x. yields R (f x)) \<Longrightarrow> yields R (case_option a f v)"
  by (cases v) simp_all

lemma yields_inOrder_Nil: "yields anything (inOrder [])"
  by (simp add: yields_yield anything_def)

lemma yields_inOrder_Cons:
  "yields anything m \<Longrightarrow> yields anything (inOrder ms) \<Longrightarrow> yields anything (inOrder (m # ms))"
  by (simp add: yields_before)

lemmas sure =
  yields_update yields_tell yields_reading yields_if yields_option yields_before
  yields_inOrder_Nil yields_inOrder_Cons

lemma checkLoggedIn_marker: "fst (checkLoggedIn v) = authenticated_marker v"
  by (simp add: checkLoggedIn_def authenticated_marker_def)

lemma loadBrowserState_lines_quiet:
  "\<forall>e\<in>set (map Console (snd (loadBrowserState cfg f))). \<not> cycle_event e"
  by (auto simp: loadBrowserState_def polling_line_def say_def warn_could_not_load_def
        log_loaded_def log_legacy_def log_different_instance_def Let_def
      split: disk_file.splits outcome.splits if_splits)

lemma checkLoggedIn_lines_quiet: "\<forall>e\<in>set (snd (checkLoggedIn v)). \<not> cycle_event e"
  by (simp add: checkLoggedIn_def polling_line_def say_def)

lemma quiet_getGlobalBrowser: "adds cycle_event 0 (getGlobalBrowser env)"
  unfolding getGlobalBrowser_def
  by (intro quiet adds_update adds_attempt quiet_tell)
     (simp_all add: polling_line_def say_def warn_def err_def)

lemma quiet_newGlobalContext:
  "\<forall>e\<in>set es. \<not> cycle_event e \<Longrightarrow> adds cycle_event 0 (newGlobalContext env c v es)"
  unfolding newGlobalContext_def
  by (intro quiet adds_update adds_attempt quiet_tell) simp_all

lemma quiet_getGlobalContext: "adds cycle_event 0 (getGlobalContext env cfg)"
  unfolding getGlobalContext_def
  by (intro quiet quiet_getGlobalBrowser quiet_newGlobalContext quiet_tell
        loadBrowserState_lines_quiet)
     (simp_all add: polling_line_def say_def warn_def err_def)

lemma quiet_getGlobalPage: "adds cycle_event 0 (getGlobalPage env cfg)"
  unfolding getGlobalPage_def
  by (intro quiet quiet_getGlobalContext adds_update adds_attempt quiet_tell)
     (simp_all add: polling_line_def say_def warn_def err_def)

lemma quiet_useGlobals: "adds cycle_event 0 (useGlobals env cfg)"
  unfolding useGlobals_def
  by (intro quiet quiet_getGlobalBrowser quiet_getGlobalContext quiet_getGlobalPage
        adds_update quiet_tell)
     (simp_all add: polling_line_def say_def warn_def err_def)

lemma quiet_newContext: "adds cycle_event 0 (newContext env c v)"
  unfolding newContext_def
  by (intro quiet adds_update adds_attempt) simp_all

lemma quiet_openPage: "adds cycle_event 0 (openPage env cfg)"
  unfolding openPage_def
  by (intro quiet quiet_newContext adds_update adds_attempt quiet_tell loadBrowserState_lines_quiet)
     (simp_all add: polling_line_def say_def warn_def err_def)

lemma quiet_acquire: "adds cycle_event 0 (acquire env cfg opts)"
  unfolding acquire_def
  by (intro quiet quiet_useGlobals quiet_openPage adds_update adds_attempt) simp_all

lemma quiet_resume: "adds cycle_event 0 (resume env cfg)"
  unfolding resume_def
  by (intro quiet adds_attempt quiet_tell loadBrowserState_lines_quiet)
     (simp_all add: polling_line_def say_def warn_def err_def)

lemma quiet_onLoginError: "adds cycle_event 0 (onLoginError env)"
  unfolding onLoginError_def
  by (intro quiet adds_attempt quiet_tell)
     (simp_all add: polling_line_def say_def warn_def err_def)

lemma quiet_fromDashboard:
  assumes "authenticated_marker (view_at env AtDashboard)"
  shows "adds cycle_event 0 (fromDashboard env cfg opts)"
  unfolding fromDashboard_def using assms
  by (simp only: checkLoggedIn_marker if_True)
     (intro quiet adds_attempt quiet_tell checkLoggedIn_lines_quiet,
      simp_all add: polling_line_def say_def)

lemma quiet_loginToJira:
  assumes "authenticated_marker (view_at env AtDashboard)"
  shows "adds cycle_event 0 (loginToJira env cfg opts)"
  unfolding loginToJira_def
  by (intro quiet quiet_acquire quiet_resume quiet_onLoginError quiet_fromDashboard assms
        adds_update quiet_tell)
     (simp_all add: polling_line_def say_def)

lemma sure_useGlobals: "yields anything (useGlobals env cfg)"
  unfolding useGlobals_def by (intro yields_handled sure)

lemma sure_newContext: "\<not> throws_at env c \<Longrightarrow> yields anything (newContext env c v)"
  unfolding newContext_def by (intro sure yields_attempt)

lemma sure_openPage:
  assumes "\<not> throws_at env FirstNewContext" "\<not> throws_at env ContextFresh"
    "\<not> throws_at env FreshPage" "\<not> throws_at env FreshViewport"
  shows "yields anything (openPage env cfg)"
  unfolding openPage_def
  by (intro yields_handled sure sure_newContext yields_attempt assms yields_yield)
     (simp_all add: anything_def)

lemma sure_acquire:
  assumes "\<not> throws_at env FreshLaunch" "\<not> throws_at env FirstNewContext"
    "\<not> throws_at env ContextFresh" "\<not> throws_at env FreshPage" "\<not> throws_at env FreshViewport"
  shows "yields anything (acquire env cfg opts)"
  unfolding acquire_def
  by (intro sure sure_useGlobals sure_openPage yields_attempt assms yields_yield)
     (simp_all add: anything_def)

lemma resume_result: "yields (case_option True is_success) (resume env cfg)"
  unfolding yields_def
  by (auto simp: resume_def reading_def before_def andThen_def catching_def tell_def
        yield_def attempt_def is_success_def split: option.splits)

lemma fromDashboard_result:
  assumes "authenticated_marker (view_at env AtDashboard)"
    "\<not> throws_at env DashboardGoto" "\<not> throws_at env DashboardWait"
  shows "yields is_success (fromDashboard env cfg opts)"
  unfolding fromDashboard_def using assms(1)
  by (simp only: checkLoggedIn_marker if_True)
     (intro sure yields_attempt assms yields_yield, simp add: is_success_def)

lemma loginToJira_result:
  assumes "authenticated_marker (view_at env AtDashboard)"
    and "\<forall>c\<in>set opening_sites. \<not> throws_at env c"
  shows "yields is_success (loginToJira env cfg opts)"
proof -
  from assms(2) have free: "\<not> throws_at env FreshLaunch" "\<not> throws_at env FirstNewContext"
    "\<not> throws_at env ContextFresh" "\<not> throws_at env FreshPage" "\<not> throws_at env FreshViewport"
    "\<not> throws_at env DashboardGoto" "\<not> throws_at env DashboardWait"
    by (simp_all add: opening_sites_def)
  have rest: "yields is_success
                (andThen (resume env cfg)
                   (\<lambda>r. case r of Some res \<Rightarrow> yield res | None \<Rightarrow> fromDashboard env cfg opts))"
  proof (rule yields_andThen_via [OF resume_result])
    fix r :: "login_result option"
    assume "case_option True is_success r"
    then show "yields is_success
                 (case r of Some res \<Rightarrow> yield res | None \<Rightarrow> fromDashboard env cfg opts)"
      by (cases r) (simp_all add: yields_yield fromDashboard_result assms(1) free)
  qed
  show ?thesis
    unfolding loginToJira_def
    by (intro yields_before yields_ending yields_catching rest sure sure_acquire free yields_yield)
       (simp_all add: anything_def)
qed

lemma succeeded_is_success: "succeeded r = (\<exists>x. r = Returns x \<and> is_success x)"
  by (cases r rule: succeeded.cases) (simp_all add: is_success_def)

text \<open>
  C4. When the marker of an authenticated session (the create button, with no heading that
  asks to log in) is visible at the first look at the dashboard, \<^verbatim>\<open>loginToJira\<close> only
  appends to the trace events that are no part of a login cycle: it does not fill the
  username, does not press Enter, does not wait for the fingerprint and does not enter the
  polling loop; and, when none of the browser calls that open the page and the dashboard
  throws, it returns success.
\<close>

theorem already_authenticated_shortcut:
  assumes "authenticated_marker (view_at env AtDashboard)"
  shows "history (snd (loginToJira env cfg opts s))
           = history s @ added (loginToJira env cfg opts) s
         \<and> \<not> list_ex cycle_event (added (loginToJira env cfg opts) s)
         \<and> ((\<forall>c\<in>set opening_sites. \<not> throws_at env c)
              \<longrightarrow> succeeded (fst (loginToJira env cfg opts s)))"
proof (intro conjI impI)
  from quiet_loginToJira [OF assms, of cfg opts]
  have q: "history (snd (loginToJira env cfg opts s))
             = history s @ added (loginToJira env cfg opts) s"
          "length (filter cycle_event (added (loginToJira env cfg opts) s)) \<le> 0"
    unfolding adds_def by blast+
  show "history (snd (loginToJira env cfg opts s))
          = history s @ added (loginToJira env cfg opts) s"
    by (rule q(1))
  from q(2) show "\<not> list_ex cycle_event (added (loginToJira env cfg opts) s)"
    by (simp add: list_ex_iff filter_empty_conv)
next
  assume "\<forall>c\<in>set opening_sites. \<not> throws_at env c"
  with assms have "yields is_success (loginToJira env cfg opts)"
    by (rule loginToJira_result)
  then show "succeeded (fst (loginToJira env cfg opts s))"
    unfolding yields_def succeeded_is_success by blast
qed

theorem already_authenticated_shortcut_witness:
  "authenticated_marker (view_at (calm_env\<lparr>view_at := (\<lambda>v. board_page)\<rparr>) AtDashboard)
   \<and> \<not> throws_at (calm_env\<lparr>view_at := (\<lambda>v. board_page)\<rparr>) DashboardGoto
   \<and> succeeded (fst (loginToJira (calm_env\<lparr>view_at := (\<lambda>v. board_page)\<rparr>) default_config
                       freshLogin first_state))
   \<and> \<not> list_ex cycle_event
          (added (loginToJira (calm_env\<lparr>view_at := (\<lambda>v. board_page)\<rparr>) default_config freshLogin)
             first_state)"
proof -
  have m: "authenticated_marker (view_at (calm_env\<lparr>view_at := (\<lambda>v. board_page)\<rparr>) AtDashboard)"
    by (simp add: authenticated_marker_def login_prompt_def board_page_def)
  have t: "\<forall>c\<in>set opening_sites. \<not> throws_at (calm_env\<lparr>view_at := (\<lambda>v. board_page)\<rparr>) c"
    by (simp add: calm_env_def)
  have g: "\<not> throws_at (calm_env\<lparr>view_at := (\<lambda>v. board_page)\<rparr>) DashboardGoto"
    by (simp add: calm_env_def)
  from already_authenticated_shortcut [OF m, of default_config freshLogin first_state] m t g
  show ?thesis by blast
qed

declare pollUrl.simps [simp del]

lemma time_at_lower: "k * 1000 \<le> time_at env k"
  by (induction k) simp_all

lemma time_at_mono: "j \<le> k \<Longrightarrow> time_at env j \<le> time_at env k"
  by (induction k) (auto simp: le_Suc_eq)

lemma polled_bound: "polled env k \<Longrightarrow> k < 60"
  using time_at_lower [of k env] by (simp add: polled_def)

lemma observed_iff: "observed env = (\<exists>k. polled env k \<and> at_domain (poll_url env k))"
  unfolding observed_def using polled_bound by blast


lemma pollUrl_events: "\<forall>ev\<in>set (snd (pollUrl env cur e k)). poll_wait ev"
proof (induction env cur e k rule: pollUrl.induct)
  case (1 env cur e k)
  then show ?case
    by (simp add: pollUrl.simps [of env cur e k] split_beta poll_wait_def)
qed

lemma pollUrl_found:
  assumes "\<not> at_domain cur" and "e = time_at env k"
    and "\<forall>j<k. \<not> at_domain (poll_url env j) \<and> \<not> throws_at env (PollWait j)"
  shows "(\<exists>u. fst (pollUrl env cur e k) = Returns (Some u)) = observed env"
  using assms
proof (induction env cur e k rule: pollUrl.induct)
  case (1 env cur e k)
  have hit: "(poll_url env k \<noteq> cur \<and> js_includes (poll_url env k) authenticated_domain)
               = at_domain (poll_url env k)"
    using "1.prems"(1) by (auto simp: at_domain_def)
  have before: "\<And>n. polled env n \<Longrightarrow> at_domain (poll_url env n) \<Longrightarrow> k \<le> n"
    using "1.prems"(3) by (meson not_le)
  show ?case
  proof (cases "e < 60000")
    case False
    have "\<not> observed env"
    proof
      assume "observed env"
      then obtain n where n: "polled env n" "at_domain (poll_url env n)"
        unfolding observed_iff by blast
      with before have "k \<le> n" by blast
      then have "time_at env k \<le> time_at env n" by (rule time_at_mono)
      with n(1) False "1.prems"(2) show False by (simp add: polled_def)
    qed
    with False show ?thesis by (simp add: pollUrl.simps [of env cur e k])
  next
    case in_time: True
    show ?thesis
    proof (cases "at_domain (poll_url env k)")
      case True
      with in_time "1.prems" have "polled env k" by (simp add: polled_def)
      with True have "observed env" unfolding observed_iff by blast
      with True in_time hit show ?thesis by (simp add: pollUrl.simps [of env cur e k])
    next
      case miss: False
      show ?thesis
      proof (cases "throws_at env (PollWait k)")
        case True
        have "\<not> observed env"
        proof
          assume "observed env"
          then obtain n where n: "polled env n" "at_domain (poll_url env n)"
            unfolding observed_iff by blast
          with before have "k \<le> n" by blast
          with n(2) miss have "k < n" by (cases "k = n") auto
          with n(1) True show False by (simp add: polled_def)
        qed
        moreover have "\<not> (poll_url env k \<noteq> cur
                          \<and> js_includes (poll_url env k) authenticated_domain)"
          using miss hit by blast
        ultimately show ?thesis
          using in_time True by (auto simp: pollUrl.simps [of env cur e k])
      next
        case False
        have "\<forall>j<Suc k. \<not> at_domain (poll_url env j) \<and> \<not> throws_at env (PollWait j)"
          using "1.prems"(3) miss False by (simp add: less_Suc_eq)
        moreover have "e + 1000 + jitter env k = time_at env (Suc k)"
          using "1.prems"(2) by simp
        ultimately have "(\<exists>u. fst (pollUrl env cur (e + 1000 + jitter env k) (Suc k))
                               = Returns (Some u)) = observed env"
          using "1.IH" in_time miss hit False "1.prems"(1) by blast
        moreover have "\<not> (poll_url env k \<noteq> cur
                          \<and> js_includes (poll_url env k) authenticated_domain)"
          using miss hit by blast
        ultimately show ?thesis
          using in_time False by (auto simp: pollUrl.simps [of env cur e k] split_beta)
      qed
    qed
  qed
qed

lemma saveBrowserState_lines_quiet:
  "\<forall>e\<in>set (map Console (snd (saveBrowserState cfg env f))). \<not> cycle_event e"
  by (auto simp: saveBrowserState_def polling_line_def say_def warn_could_not_save_def
      split: option.splits outcome.splits write_result.splits)

lemma quiet_saveIfAsked: "adds cycle_event 0 (saveIfAsked env cfg opts)"
  unfolding saveIfAsked_def
  by (intro quiet adds_update quiet_tell saveBrowserState_lines_quiet) simp_all

lemma quiet_closeBrowserOnSuccess: "adds cycle_event 0 (closeBrowserOnSuccess env)"
  unfolding closeBrowserOnSuccess_def
  by (intro quiet adds_update adds_attempt quiet_tell)
     (simp_all add: polling_line_def say_def warn_def)

lemma quiet_finishLogin:
  "c = EarlySettle \<or> c = Settle \<Longrightarrow> adds cycle_event 0 (finishLogin env cfg opts c)"
  unfolding finishLogin_def
  by (intro quiet quiet_saveIfAsked quiet_closeBrowserOnSuccess adds_attempt) simp_all

lemma sure_saveIfAsked: "yields anything (saveIfAsked env cfg opts)"
  unfolding saveIfAsked_def by (intro sure yields_yield) (simp add: anything_def)

lemma sure_closeBrowserOnSuccess: "yields anything (closeBrowserOnSuccess env)"
  unfolding closeBrowserOnSuccess_def by (intro sure yields_handled)

lemma finishLogin_fst:
  "fst (finishLogin env cfg opts c s)
     = (if throws_at env c then Throws else Returns (Success None None None))"
proof (cases "throws_at env c")
  case True
  then show ?thesis
    by (simp add: finishLogin_def before_def andThen_def attempt_def)
next
  case False
  then have "yields (\<lambda>r. r = Success None None None) (finishLogin env cfg opts c)"
    unfolding finishLogin_def
    by (intro yields_before sure yields_attempt sure_saveIfAsked sure_closeBrowserOnSuccess
          yields_yield) simp_all
  with False show ?thesis unfolding yields_def by auto
qed

lemma awaitLogin_fst:
  "fst (awaitLogin env cfg opts s) =
     (if throws_at env AuthWait then Throws
      else if at_domain (url_after_auth env) then
        (if throws_at env EarlySettle then Throws else Returns (Success None None None))
      else
        (case fst (pollUrl env (url_after_auth env) 0 0) of
           Returns (Some u) \<Rightarrow>
             if throws_at env Settle
             then Returns (Failure [T ''Error waiting for URL change: '', ErrMessage])
             else Returns (Success None None None)
         | Returns None \<Rightarrow>
             Returns (Failure [T ''URL did not change to redventures.atlassian.net - login may have failed''])
         | Throws \<Rightarrow> Returns (Failure [T ''Error waiting for URL change: '', ErrMessage])))"
  by (simp add: awaitLogin_def before_def andThen_def tell_def attempt_def catching_def
        yield_def raise_def split_beta finishLogin_fst at_domain_def
      split: outcome.splits option.splits)

lemma poll_wait_cycle: "poll_wait e \<Longrightarrow> cycle_event e"
  by (auto simp: poll_wait_def)


lemma login_url_not_at_domain: "\<not> at_domain ''https://id.atlassian.com/login''"
  by code_simp

lemma board_url_at_domain: "at_domain ''https://redventures.atlassian.net/jira/software''"
  by code_simp





lemma quiet_poll_finishLogin:
  assumes "c = EarlySettle \<or> c = Settle"
  shows "history (snd (finishLogin env cfg opts c s))
           = history s @ added (finishLogin env cfg opts c) s"
    and "filter poll_wait (added (finishLogin env cfg opts c) s) = []"
proof -
  have "adds poll_wait 0 (finishLogin env cfg opts c)"
    using quiet_finishLogin [OF assms] poll_wait_cycle by (rule adds_weaken)
  then show "history (snd (finishLogin env cfg opts c s))
           = history s @ added (finishLogin env cfg opts c) s"
    and "filter poll_wait (added (finishLogin env cfg opts c) s) = []"
    unfolding adds_def by simp_all
qed

lemma pollUrl_all_waits: "filter poll_wait (snd (pollUrl env cur e k)) = snd (pollUrl env cur e k)"
  using pollUrl_events [of env cur e k] by (simp add: filter_id_conv)

lemma awaitLogin_waits:
  "filter poll_wait (added (awaitLogin env cfg opts) s)
     = (if throws_at env AuthWait \<or> at_domain (url_after_auth env) then []
        else snd (pollUrl env (url_after_auth env) 0 0))"
  unfolding added_def
  by (simp add: awaitLogin_def before_def andThen_def tell_def attempt_def catching_def
        yield_def raise_def split_beta at_domain_def finishLogin_fst quiet_poll_finishLogin
        pollUrl_all_waits poll_wait_def say_def err_def
      split: outcome.splits option.splits)




lemma awaitLogin_success:
  "succeeded (fst (awaitLogin env cfg opts s)) \<longleftrightarrow>
     \<not> throws_at env AuthWait
     \<and> (if at_domain (url_after_auth env) then \<not> throws_at env EarlySettle
        else observed env \<and> \<not> throws_at env Settle)"
proof (cases "at_domain (url_after_auth env)")
  case True
  then show ?thesis by (simp add: awaitLogin_fst)
next
  case False
  from pollUrl_found [OF False, of 0 env 0]
  have "(\<exists>u. fst (pollUrl env (url_after_auth env) 0 0) = Returns (Some u)) = observed env"
    by simp
  with False show ?thesis
    by (auto simp: awaitLogin_fst split: outcome.splits option.splits)
qed



lemma settle_observed: "observed settle_env"
proof -
  have "time_at settle_env 3 < 60000"
    by (simp add: numeral_3_eq_3 settle_env_def calm_env_def)
  moreover have "\<forall>j<3. \<not> at_domain (poll_url settle_env j) \<and> \<not> throws_at settle_env (PollWait j)"
    by (simp add: settle_env_def calm_env_def login_url_not_at_domain)
  ultimately have "polled settle_env 3" by (simp add: polled_def)
  moreover have "at_domain (poll_url settle_env 3)"
    by (simp add: settle_env_def calm_env_def board_url_at_domain)
  ultimately show ?thesis unfolding observed_def by (intro exI [of _ 3]) simp
qed

lemma redirect_at_domain: "at_domain (url_after_auth redirect_env)"
  unfolding redirect_env_def by code_simp

lemma redirect_host: "host_of (url_after_auth redirect_env) = ''id.atlassian.com''"
  unfolding redirect_env_def by code_simp

text \<open>
  Success is not the same as the location changing to the authenticated domain within the
  window. On \<open>settle_env\<close> the third look of the loop finds the domain, and the function
  returns a failure, because the wait that follows throws. On \<open>redirect_env\<close> the browser
  is still on the login page of another host, and the function returns success without a
  single look of the loop.
\<close>

theorem login_success_is_not_domain_change:
  "observed settle_env
   \<and> \<not> throws_at settle_env AuthWait
   \<and> \<not> succeeded (fst (awaitLogin settle_env default_config freshLogin first_state))
   \<and> host_of (url_after_auth redirect_env) = ''id.atlassian.com''
   \<and> succeeded (fst (awaitLogin redirect_env default_config freshLogin first_state))
   \<and> filter poll_wait (added (awaitLogin redirect_env default_config freshLogin) first_state) = []"
proof -
  have a: "\<not> throws_at settle_env AuthWait" "throws_at settle_env Settle"
    by (simp_all add: settle_env_def calm_env_def)
  have "\<not> at_domain (url_after_auth settle_env)"
    by (simp add: settle_env_def calm_env_def login_url_not_at_domain)
  with a have lost: "\<not> succeeded (fst (awaitLogin settle_env default_config freshLogin first_state))"
    by (simp add: awaitLogin_success)
  have b: "\<not> throws_at redirect_env AuthWait" "\<not> throws_at redirect_env EarlySettle"
    by (simp_all add: redirect_env_def calm_env_def)
  with redirect_at_domain
  have won: "succeeded (fst (awaitLogin redirect_env default_config freshLogin first_state))"
    by (simp add: awaitLogin_success)
  from redirect_at_domain
  have none: "filter poll_wait (added (awaitLogin redirect_env default_config freshLogin) first_state) = []"
    by (simp add: awaitLogin_waits)
  from settle_observed a(1) lost redirect_host won none show ?thesis by (intro conjI)
qed



end
